theory Spec2Isabelle
  imports Complex_Main "HOL-Library.AList"
begin

section \<open>Data model\<close>

subsection \<open>JavaScript values read from and written to the manifest\<close>

text \<open>
  The manifest is read with \<^verbatim>\<open>fs.readJson\<close>, so the value held in memory is any JSON
  value. An array is a JavaScript object too: an assignment \<^verbatim>\<open>a.key = v\<close> with a key that
  is not an index stores an own property that later reads see and that
  \<^verbatim>\<open>JSON.stringify\<close> leaves out. The second argument of \<open>JArr\<close> holds these properties;
  it is empty in every value that comes from a file. A number stands for the parsed
  double, which the code only ever tests for being zero; a literal beyond the range of a
  double (parsed as \<^verbatim>\<open>Infinity\<close>) is outside the model. The entries of an object are in
  insertion order.
\<close>

datatype json =
    JNull
  | JBool bool
  | JNum rat
  | JStr string
  | JArr "json list" "(string \<times> json) list"
  | JObj "(string \<times> json) list"

text \<open>
  Errors thrown inside \<^verbatim>\<open>run\<close>: the two of \<^verbatim>\<open>checkPrerequisites\<close>, the one of
  \<^verbatim>\<open>installDependencies\<close> (with the message of the failed command), and the ones the
  runtime and the file system raise.
\<close>

datatype error =
    NotGitRepo
  | NoPackageJson
  | InstallFailed string
  | TypeError
  | ParseError
  | IOError string

subsection \<open>The project tree, the console and the I/O the tool performs\<close>

datatype content = Text string | Json json

datatype node = File content nat | Dir

datatype io = Exec string | MkDir string | WriteFile string | Chmod string

datatype line = Out string | Err string

text \<open>
  \<open>files\<close> maps a path relative to the project root (\<^verbatim>\<open>process.cwd()\<close>) to what is
  there. \<open>File c m\<close> is a file with content \<open>c\<close> and permission bits \<open>m\<close>; \<open>Json j\<close> is
  a file whose text parses to \<open>j\<close>, \<open>Text s\<close> any other file. \<open>console\<close> is what the tool
  itself prints (without colours, emoji and bullets), \<open>trace\<close> the file-system mutations and
  process invocations the tool itself performs, in order.
\<close>

record world =
  files :: "string \<rightharpoonup> node"
  console :: "line list"
  trace :: "io list"

datatype exec_result = ExecOk | ExecFailed string

text \<open>
  What the tool does not own: the version-control probe (\<^verbatim>\<open>git rev-parse --git-dir\<close>,
  which only reads), the delegated commands run through \<^verbatim>\<open>execSync\<close> (they may change
  the project tree in any way; \<open>ExecFailed m\<close> is a throw with message \<open>m\<close>), and the
  template directory shipped beside the script (source path to content and mode), which
  lies outside the project tree and does not change during a run.
\<close>

record env =
  git_probe :: "(string \<rightharpoonup> node) \<Rightarrow> bool"
  exec :: "string \<Rightarrow> (string \<rightharpoonup> node) \<Rightarrow> exec_result \<times> (string \<rightharpoonup> node)"
  templates :: "string \<rightharpoonup> (content \<times> nat)"

section \<open>JavaScript semantics used by the script\<close>

fun truthy :: "json \<Rightarrow> bool" where
  "truthy JNull = False"
| "truthy (JBool b) = b"
| "truthy (JNum n) = (n \<noteq> 0)"
| "truthy (JStr s) = (s \<noteq> [])"
| "truthy (JArr xs ps) = True"
| "truthy (JObj kvs) = True"

text \<open>\<^verbatim>\<open>!v\<close>, where \<open>None\<close> is \<^verbatim>\<open>undefined\<close>.\<close>

fun js_not :: "json option \<Rightarrow> bool" where
  "js_not None = True"
| "js_not (Some v) = (\<not> truthy v)"

text \<open>
  \<^verbatim>\<open>v[k]\<close> for a key \<open>k\<close> that is neither an array index nor \<^verbatim>\<open>length\<close> nor inherited
  (the script reads \<^verbatim>\<open>scripts\<close>, \<^verbatim>\<open>prepare\<close>, \<^verbatim>\<open>commit\<close>, \<^verbatim>\<open>config\<close>, \<^verbatim>\<open>commitizen\<close>
  and \<^verbatim>\<open>type\<close>): reading from \<^verbatim>\<open>null\<close> throws, a primitive has no such property.
\<close>

fun getProp :: "json \<Rightarrow> string \<Rightarrow> error + json option" where
  "getProp JNull k = Inl TypeError"
| "getProp (JObj kvs) k = Inr (map_of kvs k)"
| "getProp (JArr xs ps) k = Inr (map_of ps k)"
| "getProp v k = Inr None"

text \<open>
  \<^verbatim>\<open>v[k] = x\<close> in strict mode (a class body): an existing key keeps its place, a new key
  is appended; assigning to a property of \<^verbatim>\<open>null\<close> or of a primitive throws.
\<close>

fun setProp :: "json \<Rightarrow> string \<Rightarrow> json \<Rightarrow> error + json" where
  "setProp (JObj kvs) k x = Inr (JObj (AList.update k x kvs))"
| "setProp (JArr xs ps) k x = Inr (JArr xs (AList.update k x ps))"
| "setProp v k x = Inl TypeError"

text \<open>\<^verbatim>\<open>v[a][b]\<close>: reading a property of \<^verbatim>\<open>undefined\<close> throws.\<close>

definition getProp2 :: "json \<Rightarrow> string \<Rightarrow> string \<Rightarrow> error + json option" where
  "getProp2 v a b =
     (case getProp v a of
        Inl e \<Rightarrow> Inl e
      | Inr None \<Rightarrow> Inl TypeError
      | Inr (Some o') \<Rightarrow> getProp o' b)"

text \<open>\<^verbatim>\<open>v[a][b] = x\<close>: the object \<^verbatim>\<open>v[a]\<close> is changed in place.\<close>

definition setProp2 :: "json \<Rightarrow> string \<Rightarrow> string \<Rightarrow> json \<Rightarrow> error + json" where
  "setProp2 v a b x =
     (case getProp v a of
        Inl e \<Rightarrow> Inl e
      | Inr None \<Rightarrow> Inl TypeError
      | Inr (Some o') \<Rightarrow>
          (case setProp o' b x of
             Inl e \<Rightarrow> Inl e
           | Inr o'' \<Rightarrow> setProp v a o''))"

text \<open>What \<^verbatim>\<open>JSON.stringify\<close> keeps of a value: everything but the named properties of arrays.\<close>

primrec stringify :: "json \<Rightarrow> json" where
  "stringify JNull = JNull"
| "stringify (JBool b) = JBool b"
| "stringify (JNum n) = JNum n"
| "stringify (JStr s) = JStr s"
| "stringify (JArr xs ps) = JArr (map stringify xs) []"
| "stringify (JObj kvs) = JObj (map (map_prod id stringify) kvs)"

text \<open>
  Two notions for stating properties: a value that is an object but not an array, and a
  value as it comes out of a file, which serialization gives back unchanged (no array in
  it has named properties).
\<close>

fun isObject :: "json \<Rightarrow> bool" where
  "isObject (JObj kvs) = True"
| "isObject v = False"

definition isJson :: "json \<Rightarrow> bool" where
  "isJson v = (stringify v = v)"

text \<open>
  The guards of the manifest patch read a property and test it with \<^verbatim>\<open>!\<close>: a property is
  set when the read yields a truthy value, and unset when it is missing, falsy, or
  cannot be read. \<open>orDefault r d\<close> is the value the patch leaves under a guarded key whose
  read gave \<open>r\<close> and whose default is \<open>d\<close>.
\<close>

fun isSet :: "error + json option \<Rightarrow> bool" where
  "isSet (Inr (Some v)) = truthy v"
| "isSet r = False"

fun orDefault :: "error + json option \<Rightarrow> json \<Rightarrow> json" where
  "orDefault (Inr (Some v)) d = (if truthy v then v else d)"
| "orDefault r d = d"

text \<open>
  The manifest of the data model: a key-value document whose \<^verbatim>\<open>scripts\<close> and \<^verbatim>\<open>config\<close>
  are mappings where they are set.
\<close>

fun mappingOrUnset :: "error + json option \<Rightarrow> bool" where
  "mappingOrUnset (Inr None) = True"
| "mappingOrUnset (Inr (Some v)) = (isObject v \<or> \<not> truthy v)"
| "mappingOrUnset (Inl err) = False"

definition keyValueDocument :: "json \<Rightarrow> bool" where
  "keyValueDocument m =
     (isObject m \<and> mappingOrUnset (getProp m ''scripts'') \<and>
      mappingOrUnset (getProp m ''config''))"

section \<open>File-system primitives (\<^verbatim>\<open>fs-extra\<close>) and console output\<close>

definition say :: "string \<Rightarrow> world \<Rightarrow> world" where
  "say s w = w\<lparr>console := console w @ [Out s]\<rparr>"

definition say_err :: "string \<Rightarrow> world \<Rightarrow> world" where
  "say_err s w = w\<lparr>console := console w @ [Err s]\<rparr>"

definition pathExists :: "world \<Rightarrow> string \<Rightarrow> bool" where
  "pathExists w p = (files w p \<noteq> None)"

text \<open>\<^verbatim>\<open>s.startsWith(p)\<close>.\<close>

definition startsWith :: "string \<Rightarrow> string \<Rightarrow> bool" where
  "startsWith s p = (take (length p) s = p)"

text \<open>\<^verbatim>\<open>path.dirname\<close> of a relative path; \<open>''.''\<close> is the project root itself.\<close>

definition dirname :: "string \<Rightarrow> string" where
  "dirname p =
     (if CHR ''/'' \<in> set p
      then rev (tl (dropWhile (\<lambda>c. c \<noteq> CHR ''/'') (rev p)))
      else ''.'')"

text \<open>
  \<^verbatim>\<open>fs.ensureDir\<close> of the project root or of a directory directly below it (the only
  ones the script asks for): the root is the working directory and exists; a missing
  directory is created, an existing one is left alone, a file in its place is an error.
\<close>

definition ensureDir :: "world \<Rightarrow> string \<Rightarrow> error + world" where
  "ensureDir w d =
     (if d = ''.'' then Inr w
      else case files w d of
             None \<Rightarrow> Inr (w\<lparr>files := (files w)(d \<mapsto> Dir), trace := trace w @ [MkDir d]\<rparr>)
           | Some Dir \<Rightarrow> Inr w
           | Some (File c m) \<Rightarrow> Inl (IOError ''EEXIST''))"

text \<open>
  \<^verbatim>\<open>fs.copy(src, dest)\<close> of a template file, overwriting by default: the destination gets
  the template's content and mode; a missing template or a directory at the
  destination is an error.
\<close>

definition copy :: "env \<Rightarrow> world \<Rightarrow> string \<Rightarrow> string \<Rightarrow> error + world" where
  "copy e w srcPath destPath =
     (case templates e srcPath of
        None \<Rightarrow> Inl (IOError ''ENOENT'')
      | Some (c, m) \<Rightarrow>
          (case files w destPath of
             Some Dir \<Rightarrow> Inl (IOError ''EISDIR'')
           | _ \<Rightarrow> Inr (w\<lparr>files := (files w)(destPath \<mapsto> File c m),
                        trace := trace w @ [WriteFile destPath]\<rparr>)))"

text \<open>\<^verbatim>\<open>fs.chmod\<close>; the mode of a directory is not part of the model.\<close>

definition chmod :: "world \<Rightarrow> string \<Rightarrow> nat \<Rightarrow> error + world" where
  "chmod w p mode =
     (case files w p of
        None \<Rightarrow> Inl (IOError ''ENOENT'')
      | Some Dir \<Rightarrow> Inr (w\<lparr>trace := trace w @ [Chmod p]\<rparr>)
      | Some (File c m) \<Rightarrow>
          Inr (w\<lparr>files := (files w)(p \<mapsto> File c mode), trace := trace w @ [Chmod p]\<rparr>))"

text \<open>The owner-execute bit of a mode.\<close>

definition executable :: "nat \<Rightarrow> bool" where
  "executable m = odd (m div 64)"

definition readJson :: "world \<Rightarrow> string \<Rightarrow> error + json" where
  "readJson w p =
     (case files w p of
        None \<Rightarrow> Inl (IOError ''ENOENT'')
      | Some Dir \<Rightarrow> Inl (IOError ''EISDIR'')
      | Some (File (Text s) m) \<Rightarrow> Inl ParseError
      | Some (File (Json j) m) \<Rightarrow> Inr j)"

text \<open>
  \<^verbatim>\<open>fs.writeJson\<close>: the file's text becomes the serialization of the value; an existing
  file keeps its mode, a new one gets \<open>0644\<close>.
\<close>

definition writeJson :: "world \<Rightarrow> string \<Rightarrow> json \<Rightarrow> error + world" where
  "writeJson w p v =
     (case files w p of
        Some Dir \<Rightarrow> Inl (IOError ''EISDIR'')
      | Some (File c m) \<Rightarrow>
          Inr (w\<lparr>files := (files w)(p \<mapsto> File (Json (stringify v)) m),
                 trace := trace w @ [WriteFile p]\<rparr>)
      | None \<Rightarrow>
          Inr (w\<lparr>files := (files w)(p \<mapsto> File (Json (stringify v)) 420),
                 trace := trace w @ [WriteFile p]\<rparr>))"

section \<open>The setup script (\<^verbatim>\<open>bin/setup.js\<close>, class \<^verbatim>\<open>DevWorkflowSetup\<close>)\<close>

definition packageJsonPath :: string where
  "packageJsonPath = ''package.json''"

text \<open>
  \<^verbatim>\<open>error.message\<close>; for an error of the runtime or the file system, its kind or code.
\<close>

fun message :: "error \<Rightarrow> string" where
  \<open>message NotGitRepo = ''Not in a git repository. Run "git init" first.''\<close>
| \<open>message NoPackageJson = ''package.json not found. Run "npm init" first.''\<close>
| \<open>message (InstallFailed m) = ''Failed to install dependencies: '' @ m\<close>
| \<open>message TypeError = ''TypeError''\<close>
| \<open>message ParseError = ''SyntaxError''\<close>
| \<open>message (IOError m) = m\<close>

subsection \<open>\<^verbatim>\<open>checkPrerequisites\<close>\<close>

definition checkPrerequisites :: "env \<Rightarrow> world \<Rightarrow> (error \<times> world) + world" where
  "checkPrerequisites e w0 =
     (let w1 = say ''Checking prerequisites...'' w0;
          w2 = w1\<lparr>trace := trace w1 @ [Exec ''git rev-parse --git-dir'']\<rparr>
      in if \<not> git_probe e (files w2) then Inl (NotGitRepo, w2)
         else if \<not> pathExists w2 packageJsonPath then Inl (NoPackageJson, w2)
         else Inr (say ''Prerequisites check passed'' w2))"

subsection \<open>\<^verbatim>\<open>detectPackageManager\<close> and \<^verbatim>\<open>installDependencies\<close>\<close>

definition detectPackageManager :: "world \<Rightarrow> string" where
  "detectPackageManager w =
     (if pathExists w ''pnpm-lock.yaml'' then ''pnpm''
      else if pathExists w ''yarn.lock'' then ''yarn''
      else ''npm'')"

definition deps :: "string list" where
  "deps = [''husky@^9.1.7'', ''lint-staged@^16.1.2'', ''@commitlint/cli@^19.8.1'',
           ''@commitlint/config-conventional@^19.8.1'', ''commitizen@^4.3.1'',
           ''cz-conventional-changelog@^3.3.0'']"

text \<open>\<^verbatim>\<open>xs.join(' ')\<close>.\<close>

fun join :: "string list \<Rightarrow> string" where
  "join [] = []"
| "join [x] = x"
| "join (x # y # ys) = x @ '' '' @ join (y # ys)"

definition installCmd :: "world \<Rightarrow> string" where
  "installCmd w =
     (let packageManager = detectPackageManager w
      in if packageManager = ''pnpm''
         then ''pnpm add -D '' @ join deps
         else ''npm install --save-dev '' @ join deps)"

definition installDependencies :: "env \<Rightarrow> world \<Rightarrow> (error \<times> world) + world" where
  "installDependencies e w0 =
     (let w1 = say ''Installing development dependencies...'' w0;
          cmd = installCmd w1
      in case exec e cmd (files w1) of
           (ExecOk, f) \<Rightarrow>
             Inr (say ''Dependencies installed'' (w1\<lparr>files := f, trace := trace w1 @ [Exec cmd]\<rparr>))
         | (ExecFailed m, f) \<Rightarrow>
             Inl (InstallFailed m, w1\<lparr>files := f, trace := trace w1 @ [Exec cmd]\<rparr>))"

subsection \<open>\<^verbatim>\<open>initializeHusky\<close>\<close>

definition initializeHusky :: "env \<Rightarrow> world \<Rightarrow> (error \<times> world) + world" where
  "initializeHusky e w0 =
     (let w1 = say ''Initializing Husky...'' w0
      in case exec e ''npx husky init'' (files w1) of
           (ExecOk, f) \<Rightarrow>
             Inr (say ''Husky initialized'' (w1\<lparr>files := f, trace := trace w1 @ [Exec ''npx husky init'']\<rparr>))
         | (ExecFailed m, f) \<Rightarrow>
             Inr (say ''Husky may already be initialized''
                    (w1\<lparr>files := f, trace := trace w1 @ [Exec ''npx husky init'']\<rparr>)))"

subsection \<open>\<^verbatim>\<open>copyConfigFiles\<close>\<close>

record file_entry =
  src :: string
  dest :: string

definition filesToCopy :: "file_entry list" where
  "filesToCopy =
     [\<lparr>src = ''.lintstagedrc.js'', dest = ''.lintstagedrc.js''\<rparr>,
      \<lparr>src = ''commitlint.config.js'', dest = ''commitlint.config.js''\<rparr>,
      \<lparr>src = ''.nvmrc'', dest = ''.nvmrc''\<rparr>,
      \<lparr>src = ''.vscode/settings.json'', dest = ''.vscode/settings.json''\<rparr>,
      \<lparr>src = ''.vscode/extensions.json'', dest = ''.vscode/extensions.json''\<rparr>,
      \<lparr>src = ''.husky/pre-commit'', dest = ''.husky/pre-commit''\<rparr>,
      \<lparr>src = ''.husky/pre-push'', dest = ''.husky/pre-push''\<rparr>,
      \<lparr>src = ''.husky/commit-msg'', dest = ''.husky/commit-msg''\<rparr>]"

text \<open>The body of the loop, for one entry; \<open>493\<close> is the mode \<open>0755\<close>.\<close>

definition copyOne :: "env \<Rightarrow> file_entry \<Rightarrow> world \<Rightarrow> (error \<times> world) + world" where
  "copyOne e file w0 =
     (case ensureDir w0 (dirname (dest file)) of
        Inl err \<Rightarrow> Inl (err, w0)
      | Inr w1 \<Rightarrow>
          (let shouldOverwrite = startsWith (dest file) ''.husky/''
           in if pathExists w1 (dest file) \<and> \<not> shouldOverwrite
              then Inr (say (dest file @ '' already exists, skipping...'') w1)
              else (case copy e w1 (src file) (dest file) of
                      Inl err \<Rightarrow> Inl (err, w1)
                    | Inr w2 \<Rightarrow>
                        (case (if startsWith (dest file) ''.husky/''
                               then chmod w2 (dest file) 493 else Inr w2) of
                           Inl err \<Rightarrow> Inl (err, w2)
                         | Inr w3 \<Rightarrow>
                             (let action = (if shouldOverwrite \<and> pathExists w3 (dest file)
                                            then ''Updated'' else ''Created'')
                              in Inr (say (action @ '' '' @ dest file) w3))))))"

fun copyLoop :: "env \<Rightarrow> file_entry list \<Rightarrow> world \<Rightarrow> (error \<times> world) + world" where
  "copyLoop e [] w = Inr w"
| "copyLoop e (file # rest) w =
     (case copyOne e file w of
        Inl err \<Rightarrow> Inl err
      | Inr w' \<Rightarrow> copyLoop e rest w')"

definition copyConfigFiles :: "env \<Rightarrow> world \<Rightarrow> (error \<times> world) + world" where
  "copyConfigFiles e w0 =
     (case copyLoop e filesToCopy (say ''Copying configuration files...'' w0) of
        Inl err \<Rightarrow> Inl err
      | Inr w1 \<Rightarrow> Inr (say ''Configuration files copied'' w1))"

subsection \<open>\<^verbatim>\<open>updatePackageJson\<close>\<close>

definition scriptsToAdd :: "(string \<times> string) list" where
  "scriptsToAdd = [(''prepare'', ''husky''), (''commit'', ''cz'')]"

definition commitizenConfig :: json where
  "commitizenConfig = JObj [(''path'', JStr ''cz-conventional-changelog'')]"

text \<open>\<^verbatim>\<open>if (!packageJson[k]) packageJson[k] = {}\<close>.\<close>

definition ensureObject :: "string \<Rightarrow> json \<Rightarrow> error + json" where
  "ensureObject k pj =
     (case getProp pj k of
        Inl err \<Rightarrow> Inl err
      | Inr v \<Rightarrow> if js_not v then setProp pj k (JObj []) else Inr pj)"

text \<open>
  Between \<^verbatim>\<open>readJson\<close> and the write-back the method works on the manifest in memory and
  prints; the lines printed are collected, in order, in the last component of the state
  (also when a block throws), and \<open>updatePackageJson\<close> puts them on the console.

  The loop over \<^verbatim>\<open>Object.entries(scriptsToAdd)\<close>; the state is the manifest in memory,
  the flag \<^verbatim>\<open>scriptsAdded\<close> and the lines printed so far.
\<close>

fun addScripts ::
  "(string \<times> string) list \<Rightarrow> json \<times> bool \<times> string list \<Rightarrow>
   (error \<times> string list) + (json \<times> bool \<times> string list)"
where
  "addScripts [] st = Inr st"
| "addScripts ((script, command) # rest) (pj, scriptsAdded, out) =
     (case getProp2 pj ''scripts'' script of
        Inl err \<Rightarrow> Inl (err, out)
      | Inr v \<Rightarrow>
          if js_not v
          then (case setProp2 pj ''scripts'' script (JStr command) of
                  Inl err \<Rightarrow> Inl (err, out)
                | Inr pj' \<Rightarrow> addScripts rest (pj', True, out @ [''Added script: '' @ script]))
          else addScripts rest (pj, scriptsAdded, out))"

text \<open>The commitizen block.\<close>

definition addCommitizen ::
  "json \<times> string list \<Rightarrow> (error \<times> string list) + (json \<times> string list)"
where
  "addCommitizen st =
     (case st of (pj0, out) \<Rightarrow>
        (case ensureObject ''config'' pj0 of
           Inl err \<Rightarrow> Inl (err, out)
         | Inr pj1 \<Rightarrow>
             (case getProp2 pj1 ''config'' ''commitizen'' of
                Inl err \<Rightarrow> Inl (err, out)
              | Inr v \<Rightarrow>
                  if js_not v
                  then (case setProp2 pj1 ''config'' ''commitizen'' commitizenConfig of
                          Inl err \<Rightarrow> Inl (err, out)
                        | Inr pj2 \<Rightarrow> Inr (pj2, out @ [''Added commitizen configuration'']))
                  else Inr (pj1, out))))"

text \<open>The module-type block.\<close>

definition addType ::
  "json \<times> string list \<Rightarrow> (error \<times> string list) + (json \<times> string list)"
where
  "addType st =
     (case st of (pj, out) \<Rightarrow>
        (case getProp pj ''type'' of
           Inl err \<Rightarrow> Inl (err, out)
         | Inr v \<Rightarrow>
             if js_not v
             then (case setProp pj ''type'' (JStr ''module'') of
                     Inl err \<Rightarrow> Inl (err, out)
                   | Inr pj' \<Rightarrow> Inr (pj', out @ [''Added ES module support'']))
             else Inr (pj, out)))"

text \<open>
  The condition of the write-back,
  \<^verbatim>\<open>scriptsAdded || !packageJson.config.commitizen || !packageJson.type\<close>, evaluated on
  the manifest as it is after the three blocks above.
\<close>

definition writeCondition :: "bool \<Rightarrow> json \<Rightarrow> error + bool" where
  "writeCondition scriptsAdded pj =
     (if scriptsAdded then Inr True
      else case getProp2 pj ''config'' ''commitizen'' of
             Inl err \<Rightarrow> Inl err
           | Inr c \<Rightarrow>
               if js_not c then Inr True
               else (case getProp pj ''type'' of
                       Inl err \<Rightarrow> Inl err
                     | Inr t \<Rightarrow> Inr (js_not t)))"

text \<open>
  Everything between \<^verbatim>\<open>readJson\<close> and the write-back: the manifest in memory at the end,
  \<^verbatim>\<open>scriptsAdded\<close>, and the lines printed.
\<close>

definition patchManifest ::
  "json \<Rightarrow> (error \<times> string list) + (json \<times> bool \<times> string list)"
where
  "patchManifest pj0 =
     (case ensureObject ''scripts'' pj0 of
        Inl err \<Rightarrow> Inl (err, [])
      | Inr pj1 \<Rightarrow>
          (case addScripts scriptsToAdd (pj1, False, []) of
             Inl err \<Rightarrow> Inl err
           | Inr (pj2, scriptsAdded, out2) \<Rightarrow>
               (case addCommitizen (pj2, out2) of
                  Inl err \<Rightarrow> Inl err
                | Inr (pj3, out3) \<Rightarrow>
                    (case addType (pj3, out3) of
                       Inl err \<Rightarrow> Inl err
                     | Inr (pj4, out4) \<Rightarrow> Inr (pj4, scriptsAdded, out4)))))"

definition sayAll :: "string list \<Rightarrow> world \<Rightarrow> world" where
  "sayAll out w = w\<lparr>console := console w @ map Out out\<rparr>"

definition updatePackageJson :: "world \<Rightarrow> (error \<times> world) + world" where
  "updatePackageJson w0 =
     (let w1 = say ''Updating package.json...'' w0
      in case readJson w1 packageJsonPath of
           Inl err \<Rightarrow> Inl (err, w1)
         | Inr packageJson \<Rightarrow>
             (case patchManifest packageJson of
                Inl (err, out) \<Rightarrow> Inl (err, sayAll out w1)
              | Inr (pj, scriptsAdded, out) \<Rightarrow>
                  (let w2 = sayAll out w1
                   in case writeCondition scriptsAdded pj of
                        Inl err \<Rightarrow> Inl (err, w2)
                      | Inr True \<Rightarrow>
                          (case writeJson w2 packageJsonPath pj of
                             Inl err \<Rightarrow> Inl (err, w2)
                           | Inr w3 \<Rightarrow> Inr (say ''package.json updated'' w3))
                      | Inr False \<Rightarrow> Inr (say ''package.json updated'' w2))))"

subsection \<open>\<^verbatim>\<open>showSuccess\<close> and \<^verbatim>\<open>run\<close>\<close>

definition showSuccess :: "world \<Rightarrow> (error \<times> world) + world" where
  "showSuccess w =
     Inr (w\<lparr>console := console w @
            [Out ''Development workflow setup complete!'',
             Out ''What was configured:'',
             Out ''Git hooks (pre-commit, pre-push, commit-msg)'',
             Out ''Lint-staged for fast linting'',
             Out ''Commitizen for consistent commit messages'',
             Out ''CommitLint for conventional commits'',
             Out ''VSCode workspace settings'',
             Out ''Node.js version consistency (.nvmrc)'',
             Out ''Usage:'',
             Out ''Use npm run commit or pnpm commit for guided commits'',
             Out ''Git hooks will automatically run on commit/push'',
             Out ''VSCode will use optimized settings for the project'',
             Out ''Next steps:'',
             Out ''Make your first commit to test the setup'',
             Out ''Customize .lintstagedrc.js if needed'',
             Out ''Adjust .vscode/settings.json for your preferences'']\<rparr>)"

text \<open>Sequencing of two steps: the second runs only if the first did not throw.\<close>

definition andThen ::
  "(world \<Rightarrow> (error \<times> world) + world) \<Rightarrow> (world \<Rightarrow> (error \<times> world) + world) \<Rightarrow>
   world \<Rightarrow> (error \<times> world) + world"
where
  "andThen f g w = (case f w of Inl err \<Rightarrow> Inl err | Inr w' \<Rightarrow> g w')"

text \<open>The steps after the hook initialization, and the whole \<^verbatim>\<open>try\<close> block.\<close>

definition remainingSteps :: "env \<Rightarrow> world \<Rightarrow> (error \<times> world) + world" where
  "remainingSteps e = andThen (copyConfigFiles e) (andThen updatePackageJson showSuccess)"

definition allSteps :: "env \<Rightarrow> world \<Rightarrow> (error \<times> world) + world" where
  "allSteps e =
     andThen (checkPrerequisites e)
       (andThen (installDependencies e)
          (andThen (initializeHusky e) (remainingSteps e)))"

text \<open>
  \<^verbatim>\<open>run\<close>: the exit code of the process (\<open>1\<close> from \<^verbatim>\<open>process.exit(1)\<close> in the
  \<^verbatim>\<open>catch\<close>, \<open>0\<close> otherwise) and the world it leaves.
\<close>

definition catchAndExit :: "(error \<times> world) + world \<Rightarrow> nat \<times> world" where
  "catchAndExit r =
     (case r of
        Inl (err, w) \<Rightarrow> (1, say_err (''Setup failed: '' @ message err) w)
      | Inr w \<Rightarrow> (0, w))"

definition run :: "env \<Rightarrow> world \<Rightarrow> nat \<times> world" where
  "run e w0 =
     catchAndExit (allSteps e (say ''Setting up development workflow configuration...'' w0))"

text \<open>The world a step leaves, whether it returned or threw.\<close>

definition worldOf :: "(error \<times> world) + world \<Rightarrow> world" where
  "worldOf r = (case r of Inl (err, w) \<Rightarrow> w | Inr w \<Rightarrow> w)"

section \<open>Notions for statements about whole runs\<close>

text \<open>
  The project tree that the two delegated commands leave behind them, that is, the
  tree on which template materialization starts (the precondition check changes
  nothing, and the installation command is chosen from the tree at the start).
\<close>

definition afterDelegated :: "env \<Rightarrow> world \<Rightarrow> (string \<rightharpoonup> node)" where
  "afterDelegated e w =
     snd (exec e ''npx husky init'' (snd (exec e (installCmd w) (files w))))"

text \<open>
  A manifest in which the fields the patch is about are still to be added: no
  \<^verbatim>\<open>commit\<close> script, no \<^verbatim>\<open>config.commitizen\<close>, no \<^verbatim>\<open>type\<close>, and no \<^verbatim>\<open>prepare\<close> script other
  than the one the hooks manager writes itself when it is initialized.
\<close>

definition targetsToAdd :: "json \<Rightarrow> bool" where
  "targetsToAdd m =
     (keyValueDocument m \<and>
      \<not> isSet (getProp2 m ''scripts'' ''commit'') \<and>
      (\<not> isSet (getProp2 m ''scripts'' ''prepare'') \<or>
       getProp2 m ''scripts'' ''prepare'' = Inr (Some (JStr ''husky''))) \<and>
      \<not> isSet (getProp2 m ''config'' ''commitizen'') \<and>
      \<not> isSet (getProp m ''type''))"

text \<open>The destinations under the hooks directory.\<close>

definition hookDestinations :: "string list" where
  "hookDestinations = map dest (filter (\<lambda>f. startsWith (dest f) ''.husky/'') filesToCopy)"

section \<open>Example projects and environments\<close>

text \<open>
  A template directory holding the eight shipped templates (content abbreviated to the
  file's name, mode \<open>0644\<close>), delegated commands that succeed and leave the tree alone,
  and a project that holds nothing but the manifest \<^verbatim>\<open>{"name":"x"}\<close>.
\<close>

definition exampleTemplates :: "string \<rightharpoonup> (content \<times> nat)" where
  "exampleTemplates =
     [''.lintstagedrc.js'' \<mapsto> (Text ''lintstagedrc'', 420),
      ''commitlint.config.js'' \<mapsto> (Text ''commitlint'', 420),
      ''.nvmrc'' \<mapsto> (Text ''20'', 420),
      ''.vscode/settings.json'' \<mapsto> (Text ''settings'', 420),
      ''.vscode/extensions.json'' \<mapsto> (Text ''extensions'', 420),
      ''.husky/pre-commit'' \<mapsto> (Text ''pre-commit'', 420),
      ''.husky/pre-push'' \<mapsto> (Text ''pre-push'', 420),
      ''.husky/commit-msg'' \<mapsto> (Text ''commit-msg'', 420)]"

definition quietEnv :: env where
  "quietEnv = \<lparr>git_probe = (\<lambda>f. True), exec = (\<lambda>cmd f. (ExecOk, f)),
               templates = exampleTemplates\<rparr>"

text \<open>The same, but the hooks manager exits with a failure.\<close>

definition huskyFailsEnv :: env where
  "huskyFailsEnv =
     \<lparr>git_probe = (\<lambda>f. True),
      exec = (\<lambda>cmd f. if cmd = ''npx husky init''
                       then (ExecFailed ''Command failed: npx husky init'', f)
                       else (ExecOk, f)),
      templates = exampleTemplates\<rparr>"

text \<open>The same, but outside any repository.\<close>

definition noGitEnv :: env where
  "noGitEnv = \<lparr>git_probe = (\<lambda>f. False), exec = (\<lambda>cmd f. (ExecOk, f)),
               templates = exampleTemplates\<rparr>"

text \<open>The same, but the package manager exits with a failure.\<close>

definition installFailsEnv :: env where
  "installFailsEnv =
     \<lparr>git_probe = (\<lambda>f. True),
      exec = (\<lambda>cmd f. if cmd = ''npx husky init''
                       then (ExecOk, f)
                       else (ExecFailed ''Command failed: npm install'', f)),
      templates = exampleTemplates\<rparr>"

text \<open>
  Delegated commands that behave like the real ones on the manifest. The package manager
  records development dependencies and leaves a lock file and a module directory. The
  hooks manager sets the \<^verbatim>\<open>prepare\<close> script the way its own code does
  (\<^verbatim>\<open>(o.scripts ||= {}).prepare = 'husky'\<close>, then the manifest is serialized), makes its
  directories and writes a sample \<^verbatim>\<open>pre-commit\<close> hook.
\<close>

definition npmInstallLike :: "(string \<rightharpoonup> node) \<Rightarrow> (string \<rightharpoonup> node)" where
  "npmInstallLike fs =
     (case fs ''package.json'' of
        Some (File (Json (JObj kvs)) mode) \<Rightarrow>
          fs(''package.json'' \<mapsto>
               File (Json (JObj (AList.update ''devDependencies''
                                   (JObj [(''husky'', JStr ''^9.1.7'')]) kvs))) mode,
             ''package-lock.json'' \<mapsto> File (Text ''lock'') 420,
             ''node_modules'' \<mapsto> Dir)
      | _ \<Rightarrow> fs)"

definition huskyInitLike :: "(string \<rightharpoonup> node) \<Rightarrow> (string \<rightharpoonup> node)" where
  "huskyInitLike fs =
     (case fs ''package.json'' of
        Some (File (Json (JObj kvs)) mode) \<Rightarrow>
          (case ensureObject ''scripts'' (JObj kvs) of
             Inr o1 \<Rightarrow>
               (case setProp2 o1 ''scripts'' ''prepare'' (JStr ''husky'') of
                  Inr o2 \<Rightarrow>
                    fs(''package.json'' \<mapsto> File (Json (stringify o2)) mode,
                       ''.husky'' \<mapsto> Dir,
                       ''.husky/_'' \<mapsto> Dir,
                       ''.husky/pre-commit'' \<mapsto> File (Text ''npm test'') 420)
                | Inl err \<Rightarrow> fs)
           | Inl err \<Rightarrow> fs)
      | _ \<Rightarrow> fs)"

definition realisticEnv :: env where
  "realisticEnv =
     \<lparr>git_probe = (\<lambda>f. True),
      exec = (\<lambda>cmd f. if cmd = ''npx husky init''
                       then (ExecOk, huskyInitLike f)
                       else (ExecOk, npmInstallLike f)),
      templates = exampleTemplates\<rparr>"

definition manifestOnly :: "json \<Rightarrow> world" where
  "manifestOnly j = \<lparr>files = [''package.json'' \<mapsto> File (Json j) 420], console = [], trace = []\<rparr>"

definition freshProject :: world where
  "freshProject = manifestOnly (JObj [(''name'', JStr ''x'')])"

definition emptyDirectory :: world where
  "emptyDirectory = \<lparr>files = Map.empty, console = [], trace = []\<rparr>"

definition yarnProject :: world where
  "yarnProject =
     \<lparr>files = [''package.json'' \<mapsto> File (Json (JObj [(''name'', JStr ''x'')])) 420,
               ''yarn.lock'' \<mapsto> File (Text ''lock'') 420],
      console = [], trace = []\<rparr>"

text \<open>
  Manifests: one whose \<^verbatim>\<open>commit\<close> script differs from the default; one whose target
  fields are all present with falsy values (two empty strings and \<^verbatim>\<open>null\<close>); one whose
  \<^verbatim>\<open>scripts\<close> is an empty array; one that has both scripts and neither \<^verbatim>\<open>config\<close> nor
  \<^verbatim>\<open>type\<close>.
\<close>

definition customCommitManifest :: json where
  "customCommitManifest =
     JObj [(''name'', JStr ''x''), (''scripts'', JObj [(''commit'', JStr ''git-cz'')])]"

definition falsyFieldsManifest :: json where
  "falsyFieldsManifest =
     JObj [(''scripts'', JObj [(''commit'', JStr [])]),
           (''config'', JObj [(''commitizen'', JNull)]),
           (''type'', JStr [])]"

definition arrayScriptsManifest :: json where
  "arrayScriptsManifest = JObj [(''name'', JStr ''x''), (''scripts'', JArr [] [])]"

definition scriptsOnlyManifest :: json where
  "scriptsOnlyManifest =
     JObj [(''name'', JStr ''x''),
           (''scripts'', JObj [(''prepare'', JStr ''husky''), (''commit'', JStr ''cz'')])]"

text \<open>
  The tree of a project that has been set up once in the environment with the realistic
  delegated commands, holding the manifest \<open>j\<close>.
\<close>

definition setUpTree :: "json \<Rightarrow> (string \<rightharpoonup> node)" where
  "setUpTree j =
     [''package-lock.json'' \<mapsto> File (Text ''lock'') 420,
      ''node_modules'' \<mapsto> Dir,
      ''.husky'' \<mapsto> Dir,
      ''.husky/_'' \<mapsto> Dir,
      ''.lintstagedrc.js'' \<mapsto> File (Text ''lintstagedrc'') 420,
      ''commitlint.config.js'' \<mapsto> File (Text ''commitlint'') 420,
      ''.nvmrc'' \<mapsto> File (Text ''20'') 420,
      ''.vscode'' \<mapsto> Dir,
      ''.vscode/settings.json'' \<mapsto> File (Text ''settings'') 420,
      ''.vscode/extensions.json'' \<mapsto> File (Text ''extensions'') 420,
      ''.husky/pre-commit'' \<mapsto> File (Text ''pre-commit'') 493,
      ''.husky/pre-push'' \<mapsto> File (Text ''pre-push'') 493,
      ''.husky/commit-msg'' \<mapsto> File (Text ''commit-msg'') 493,
      ''package.json'' \<mapsto> File (Json j) 420]"

section \<open>Basic facts about the console helpers\<close>

lemma files_say [simp]: "files (say s w) = files w"
  by (simp add: say_def)

lemma trace_say [simp]: "trace (say s w) = trace w"
  by (simp add: say_def)

lemma console_say [simp]: "console (say s w) = console w @ [Out s]"
  by (simp add: say_def)

lemma files_sayAll [simp]: "files (sayAll out w) = files w"
  by (simp add: sayAll_def)

lemma trace_sayAll [simp]: "trace (sayAll out w) = trace w"
  by (simp add: sayAll_def)

lemma console_sayAll [simp]: "console (sayAll out w) = console w @ map Out out"
  by (simp add: sayAll_def)

lemma pathExists_say [simp]: "pathExists (say s w) p = pathExists w p"
  by (simp add: pathExists_def)

lemma files_say_err [simp]: "files (say_err s w) = files w"
  by (simp add: say_err_def)

lemma trace_say_err [simp]: "trace (say_err s w) = trace w"
  by (simp add: say_err_def)

lemma console_say_err [simp]: "console (say_err s w) = console w @ [Err s]"
  by (simp add: say_err_def)

text \<open>The definitions to unfold when a step is evaluated on a concrete project.\<close>

lemmas step_defs =
  run_def allSteps_def remainingSteps_def andThen_def catchAndExit_def
  checkPrerequisites_def installDependencies_def initializeHusky_def
  copyConfigFiles_def copyOne_def filesToCopy_def ensureDir_def copy_def chmod_def
  updatePackageJson_def patchManifest_def ensureObject_def addCommitizen_def addType_def
  writeCondition_def readJson_def writeJson_def getProp2_def setProp2_def
  scriptsToAdd_def commitizenConfig_def showSuccess_def
  pathExists_def startsWith_def dirname_def packageJsonPath_def
  installCmd_def detectPackageManager_def deps_def say_def say_err_def sayAll_def

lemmas example_defs =
  quietEnv_def huskyFailsEnv_def noGitEnv_def installFailsEnv_def exampleTemplates_def
  yarnProject_def customCommitManifest_def falsyFieldsManifest_def scriptsOnlyManifest_def
  arrayScriptsManifest_def realisticEnv_def npmInstallLike_def huskyInitLike_def
  manifestOnly_def freshProject_def emptyDirectory_def

section \<open>Package-manager detection\<close>

text \<open>
  Claim C4. \<open>detectPackageManager\<close> returns a value and nothing else (it has no world to
  return, so it changes none), and that value is determined by the presence of two lock
  files at the project root: \<^verbatim>\<open>pnpm-lock.yaml\<close> present gives \<^verbatim>\<open>pnpm\<close>, whatever else is
  there; otherwise \<^verbatim>\<open>yarn.lock\<close> present gives \<^verbatim>\<open>yarn\<close>; otherwise the result is \<^verbatim>\<open>npm\<close>.
  Two worlds that agree on the presence of the two lock files get the same answer.
\<close>

theorem detectPackageManager_lock_files:
  "(pathExists w ''pnpm-lock.yaml'' \<longrightarrow> detectPackageManager w = ''pnpm'') \<and>
   (\<not> pathExists w ''pnpm-lock.yaml'' \<and> pathExists w ''yarn.lock'' \<longrightarrow>
      detectPackageManager w = ''yarn'') \<and>
   (\<not> pathExists w ''pnpm-lock.yaml'' \<and> \<not> pathExists w ''yarn.lock'' \<longrightarrow>
      detectPackageManager w = ''npm'') \<and>
   (\<forall>w'. pathExists w' ''pnpm-lock.yaml'' = pathExists w ''pnpm-lock.yaml'' \<and>
         pathExists w' ''yarn.lock'' = pathExists w ''yarn.lock'' \<longrightarrow>
         detectPackageManager w' = detectPackageManager w)"
  by (simp add: detectPackageManager_def)


text \<open>
  The three cases at concrete projects: both lock files, only \<^verbatim>\<open>yarn.lock\<close>, no lock file.
\<close>

theorem detectPackageManager_lock_files_witness:
  "pathExists \<lparr>files = [''yarn.lock'' \<mapsto> File (Text []) 420, ''pnpm-lock.yaml'' \<mapsto> File (Text []) 420],
               console = [], trace = []\<rparr> ''pnpm-lock.yaml'' \<and>
   detectPackageManager
     \<lparr>files = [''yarn.lock'' \<mapsto> File (Text []) 420, ''pnpm-lock.yaml'' \<mapsto> File (Text []) 420],
      console = [], trace = []\<rparr> = ''pnpm'' \<and>
   \<not> pathExists \<lparr>files = [''yarn.lock'' \<mapsto> File (Text []) 420], console = [], trace = []\<rparr>
       ''pnpm-lock.yaml'' \<and>
   pathExists \<lparr>files = [''yarn.lock'' \<mapsto> File (Text []) 420], console = [], trace = []\<rparr>
       ''yarn.lock'' \<and>
   detectPackageManager
     \<lparr>files = [''yarn.lock'' \<mapsto> File (Text []) 420], console = [], trace = []\<rparr> = ''yarn'' \<and>
   \<not> pathExists \<lparr>files = Map.empty, console = [], trace = []\<rparr> ''pnpm-lock.yaml'' \<and>
   \<not> pathExists \<lparr>files = Map.empty, console = [], trace = []\<rparr> ''yarn.lock'' \<and>
   detectPackageManager \<lparr>files = Map.empty, console = [], trace = []\<rparr> = ''npm''"
proof -
  let ?both = "\<lparr>files = [''yarn.lock'' \<mapsto> File (Text []) 420, ''pnpm-lock.yaml'' \<mapsto> File (Text []) 420],
                console = [], trace = []\<rparr>"
  let ?yarn = "\<lparr>files = [''yarn.lock'' \<mapsto> File (Text []) 420], console = [], trace = []\<rparr>"
  let ?none = "\<lparr>files = Map.empty, console = [], trace = []\<rparr>"
  have p1: "pathExists ?both ''pnpm-lock.yaml''"
    by (simp add: pathExists_def)
  have y1: "\<not> pathExists ?yarn ''pnpm-lock.yaml'' \<and> pathExists ?yarn ''yarn.lock''"
    by (simp add: pathExists_def)
  have n1: "\<not> pathExists ?none ''pnpm-lock.yaml'' \<and> \<not> pathExists ?none ''yarn.lock''"
    by (simp add: pathExists_def)
  have a: "detectPackageManager ?both = ''pnpm''"
    using detectPackageManager_lock_files [of ?both] p1 by blast
  have b: "detectPackageManager ?yarn = ''yarn''"
    using detectPackageManager_lock_files [of ?yarn] y1 by blast
  have c: "detectPackageManager ?none = ''npm''"
    using detectPackageManager_lock_files [of ?none] n1 by blast
  from p1 y1 n1 a b c show ?thesis by blast
qed


section \<open>The precondition check\<close>

lemma checkPrerequisites_fails:
  assumes "\<not> git_probe e (files w) \<or> files w packageJsonPath = None"
  shows "checkPrerequisites e w =
           Inl (if \<not> git_probe e (files w) then NotGitRepo else NoPackageJson,
                (say ''Checking prerequisites...'' w)
                  \<lparr>trace := trace w @ [Exec ''git rev-parse --git-dir'']\<rparr>)"
  using assms by (auto simp add: checkPrerequisites_def Let_def pathExists_def)

text \<open>
  Claim C6. If the working directory is not inside a repository, or the project root has
  no \<^verbatim>\<open>package.json\<close>, the run ends with exit code \<open>1\<close>; the last thing printed is the
  error line with the message of the failed check (\<open>message NotGitRepo\<close>, respectively
  \<open>message NoPackageJson\<close>); the project tree is exactly what it was; and the only thing
  the tool did is the read-only probe \<^verbatim>\<open>git rev-parse --git-dir\<close>: no directory made, no
  file written, no mode changed, no delegated command run.
\<close>

theorem run_aborts_without_prerequisites:
  assumes "\<not> git_probe e (files w) \<or> files w ''package.json'' = None"
  shows "fst (run e w) = 1 \<and>
         files (snd (run e w)) = files w \<and>
         trace (snd (run e w)) = trace w @ [Exec ''git rev-parse --git-dir''] \<and>
         console (snd (run e w)) =
           console w @
             [Out ''Setting up development workflow configuration...'',
              Out ''Checking prerequisites...'',
              Err (''Setup failed: '' @
                   (if \<not> git_probe e (files w) then message NotGitRepo
                    else message NoPackageJson))]"
proof -
  let ?w0 = "say ''Setting up development workflow configuration...'' w"
  have pre: "\<not> git_probe e (files ?w0) \<or> files ?w0 packageJsonPath = None"
    using assms by (simp add: packageJsonPath_def)
  have steps: "allSteps e ?w0 =
           Inl (if \<not> git_probe e (files ?w0) then NotGitRepo else NoPackageJson,
                (say ''Checking prerequisites...'' ?w0)
                  \<lparr>trace := trace ?w0 @ [Exec ''git rev-parse --git-dir'']\<rparr>)"
    by (simp only: allSteps_def andThen_def checkPrerequisites_fails [OF pre] sum.case)
  show ?thesis
    unfolding run_def steps catchAndExit_def
    by (simp del: message.simps)
qed

text \<open>An empty directory, outside a repository and inside one: both runs abort, nothing is created.\<close>

theorem run_aborts_without_prerequisites_witness:
  "\<not> git_probe noGitEnv (files emptyDirectory) \<and>
   fst (run noGitEnv emptyDirectory) = 1 \<and>
   files (snd (run noGitEnv emptyDirectory)) = Map.empty \<and>
   files emptyDirectory ''package.json'' = None \<and>
   fst (run quietEnv emptyDirectory) = 1 \<and>
   files (snd (run quietEnv emptyDirectory)) = Map.empty"
proof -
  have g: "\<not> git_probe noGitEnv (files emptyDirectory)"
    by (simp add: noGitEnv_def)
  have m: "files emptyDirectory ''package.json'' = None"
    by (simp add: emptyDirectory_def)
  from g have h1: "\<not> git_probe noGitEnv (files emptyDirectory) \<or>
      files emptyDirectory ''package.json'' = None" ..
  from m have h2: "\<not> git_probe quietEnv (files emptyDirectory) \<or>
      files emptyDirectory ''package.json'' = None" ..
  have e: "files emptyDirectory = Map.empty"
    by (simp add: emptyDirectory_def)
  from run_aborts_without_prerequisites [OF h1] run_aborts_without_prerequisites [OF h2] g m e
  show ?thesis by simp
qed

section \<open>Delegated commands\<close>

lemma installCmd_say [simp]: "installCmd (say s w) = installCmd w"
  by (simp add: installCmd_def detectPackageManager_def)

lemma initializeHusky_result:
  "initializeHusky e w =
     Inr (say (case fst (exec e ''npx husky init'' (files w)) of
                 ExecOk \<Rightarrow> ''Husky initialized''
               | ExecFailed m \<Rightarrow> ''Husky may already be initialized'')
            ((say ''Initializing Husky...'' w)
               \<lparr>files := snd (exec e ''npx husky init'' (files w)),
                trace := trace w @ [Exec ''npx husky init'']\<rparr>))"
  by (cases "exec e ''npx husky init'' (files w)"; cases "fst (exec e ''npx husky init'' (files w))")
     (simp_all add: initializeHusky_def)

lemma installDependencies_result:
  "installDependencies e w =
     (case fst (exec e (installCmd w) (files w)) of
        ExecOk \<Rightarrow>
          Inr (say ''Dependencies installed''
                 ((say ''Installing development dependencies...'' w)
                    \<lparr>files := snd (exec e (installCmd w) (files w)),
                     trace := trace w @ [Exec (installCmd w)]\<rparr>))
      | ExecFailed m \<Rightarrow>
          Inl (InstallFailed m,
               (say ''Installing development dependencies...'' w)
                 \<lparr>files := snd (exec e (installCmd w) (files w)),
                  trace := trace w @ [Exec (installCmd w)]\<rparr>))"
  by (cases "exec e (installCmd w) (files w)"; cases "fst (exec e (installCmd w) (files w))")
     (simp_all add: installDependencies_def)

text \<open>
  Claim C9. The command handed to \<^verbatim>\<open>execSync\<close> by \<open>installDependencies\<close> is the pnpm command
  exactly when \<^verbatim>\<open>pnpm-lock.yaml\<close> is present, which is exactly when detection returns
  \<^verbatim>\<open>pnpm\<close>; in every other case it is the npm command. In particular a project with
  \<^verbatim>\<open>yarn.lock\<close> and no \<^verbatim>\<open>pnpm-lock.yaml\<close> is detected as \<^verbatim>\<open>yarn\<close> and installed with npm:
  there is no yarn command.
\<close>

theorem installDependencies_command:
  "trace (worldOf (installDependencies e w)) =
     trace w @
       [Exec (if pathExists w ''pnpm-lock.yaml''
              then ''pnpm add -D husky@^9.1.7 lint-staged@^16.1.2 @commitlint/cli@^19.8.1 @commitlint/config-conventional@^19.8.1 commitizen@^4.3.1 cz-conventional-changelog@^3.3.0''
              else ''npm install --save-dev husky@^9.1.7 lint-staged@^16.1.2 @commitlint/cli@^19.8.1 @commitlint/config-conventional@^19.8.1 commitizen@^4.3.1 cz-conventional-changelog@^3.3.0'')] \<and>
   (detectPackageManager w = ''pnpm'') = pathExists w ''pnpm-lock.yaml'' \<and>
   (\<not> pathExists w ''pnpm-lock.yaml'' \<and> pathExists w ''yarn.lock'' \<longrightarrow>
      detectPackageManager w = ''yarn'' \<and>
      installCmd w = ''npm install --save-dev husky@^9.1.7 lint-staged@^16.1.2 @commitlint/cli@^19.8.1 @commitlint/config-conventional@^19.8.1 commitizen@^4.3.1 cz-conventional-changelog@^3.3.0'')"
proof -
  have cmd: "installCmd w =
     (if pathExists w ''pnpm-lock.yaml''
      then ''pnpm add -D husky@^9.1.7 lint-staged@^16.1.2 @commitlint/cli@^19.8.1 @commitlint/config-conventional@^19.8.1 commitizen@^4.3.1 cz-conventional-changelog@^3.3.0''
      else ''npm install --save-dev husky@^9.1.7 lint-staged@^16.1.2 @commitlint/cli@^19.8.1 @commitlint/config-conventional@^19.8.1 commitizen@^4.3.1 cz-conventional-changelog@^3.3.0'')"
    by (simp add: installCmd_def detectPackageManager_def deps_def)
  have tr: "trace (worldOf (installDependencies e w)) = trace w @ [Exec (installCmd w)]"
    by (cases "fst (exec e (installCmd w) (files w))")
       (simp_all add: installDependencies_result worldOf_def)
  have det: "(detectPackageManager w = ''pnpm'') = pathExists w ''pnpm-lock.yaml''"
    by (simp add: detectPackageManager_def)
  have yarn: "\<not> pathExists w ''pnpm-lock.yaml'' \<and> pathExists w ''yarn.lock'' \<longrightarrow>
      detectPackageManager w = ''yarn''"
    by (simp add: detectPackageManager_def)
  from cmd tr det yarn show ?thesis by simp
qed

text \<open>A project with \<^verbatim>\<open>yarn.lock\<close> and no \<^verbatim>\<open>pnpm-lock.yaml\<close>: detection says \<^verbatim>\<open>yarn\<close>, npm installs.\<close>

theorem installDependencies_command_witness:
  "\<not> pathExists yarnProject ''pnpm-lock.yaml'' \<and> pathExists yarnProject ''yarn.lock'' \<and>
   detectPackageManager yarnProject = ''yarn'' \<and>
   installCmd yarnProject = ''npm install --save-dev husky@^9.1.7 lint-staged@^16.1.2 @commitlint/cli@^19.8.1 @commitlint/config-conventional@^19.8.1 commitizen@^4.3.1 cz-conventional-changelog@^3.3.0''"
proof -
  have h: "\<not> pathExists yarnProject ''pnpm-lock.yaml'' \<and> pathExists yarnProject ''yarn.lock''"
    by (simp add: pathExists_def yarnProject_def)
  from installDependencies_command [of quietEnv yarnProject] h show ?thesis
    by blast
qed

section \<open>Template materialization\<close>

subsection \<open>The file-system primitives\<close>

lemma ensureDir_files:
  assumes "ensureDir w d = Inr w1"
  shows "files w1 = files w \<and> (d = ''.'' \<or> files w d = Some Dir) \<or>
         files w1 = (files w)(d \<mapsto> Dir) \<and> d \<noteq> ''.'' \<and> files w d = None"
  using assms by (auto simp add: ensureDir_def split: if_splits option.splits node.splits)

lemma ensureDir_console:
  "ensureDir w d = Inr w1 \<Longrightarrow> console w1 = console w"
  by (auto simp add: ensureDir_def split: if_splits option.splits node.splits)

lemma copy_files:
  assumes "copy e w s d = Inr w1"
  shows "\<exists>c m. templates e s = Some (c, m) \<and> files w1 = (files w)(d \<mapsto> File c m) \<and>
               files w d \<noteq> Some Dir \<and> trace w1 = trace w @ [WriteFile d] \<and>
               console w1 = console w"
  using assms by (auto simp add: copy_def split: option.splits node.splits)

lemma chmod_files:
  assumes "chmod w p mode = Inr w1" and "files w p = Some (File c m)"
  shows "files w1 = (files w)(p \<mapsto> File c mode) \<and> trace w1 = trace w @ [Chmod p] \<and>
         console w1 = console w"
  using assms by (auto simp add: chmod_def)

text \<open>What one pass of the loop body does to the tree, when it returns.\<close>

lemma copyOne_skip:
  assumes "copyOne e f w = Inr w'" and "\<not> startsWith (dest f) ''.husky/''"
    and "files w (dest f) \<noteq> None"
  shows "files w' (dest f) = files w (dest f) \<and>
         console w' = console w @ [Out (dest f @ '' already exists, skipping...'')] \<and>
         (\<forall>p. p \<noteq> dirname (dest f) \<longrightarrow> files w' p = files w p)"
proof -
  from assms(1) obtain w1 where w1: "ensureDir w (dirname (dest f)) = Inr w1"
    by (auto simp add: copyOne_def Let_def split: sum.splits)
  from ensureDir_files [OF w1] assms(3)
  have ex: "pathExists w1 (dest f)" and same: "files w1 (dest f) = files w (dest f)"
    and fr: "\<forall>p. p \<noteq> dirname (dest f) \<longrightarrow> files w1 p = files w p"
    by (auto simp add: pathExists_def)
  from assms(1) w1 ex assms(2) have "w' = say (dest f @ '' already exists, skipping...'') w1"
    by (simp add: copyOne_def Let_def)
  with same fr ensureDir_console [OF w1] show ?thesis by simp
qed


lemma copyOne_copied:
  assumes ok: "copyOne e f w = Inr w'"
    and br: "startsWith (dest f) ''.husky/'' \<or> files w (dest f) = None"
    and ne: "dest f \<noteq> dirname (dest f)"
  shows "\<exists>c m. templates e (src f) = Some (c, m) \<and>
           files w' (dest f) =
             Some (File c (if startsWith (dest f) ''.husky/'' then 493 else m)) \<and>
           (\<forall>p. p \<noteq> dest f \<and> p \<noteq> dirname (dest f) \<longrightarrow> files w' p = files w p) \<and>
           console w' =
             console w @
               [Out ((if startsWith (dest f) ''.husky/'' then ''Updated'' else ''Created'') @
                     '' '' @ dest f)]"
proof -
  from ok obtain w1 where w1: "ensureDir w (dirname (dest f)) = Inr w1"
    by (auto simp add: copyOne_def Let_def split: sum.splits)
  from ensureDir_files [OF w1] ne
  have same: "files w1 (dest f) = files w (dest f)"
    and fr1: "\<forall>p. p \<noteq> dirname (dest f) \<longrightarrow> files w1 p = files w p"
    by auto
  from br same have cond: "\<not> (pathExists w1 (dest f) \<and> \<not> startsWith (dest f) ''.husky/'')"
    by (auto simp add: pathExists_def)
  from ok w1 cond obtain w2 where w2: "copy e w1 (src f) (dest f) = Inr w2"
    by (auto simp add: copyOne_def Let_def split: sum.splits)
  from copy_files [OF w2] obtain c m where
    t: "templates e (src f) = Some (c, m)" and
    f2: "files w2 = (files w1)(dest f \<mapsto> File c m)" and
    c2: "console w2 = console w1"
    by blast
  show ?thesis
  proof (cases "startsWith (dest f) ''.husky/''")
    case True
    from ok w1 cond w2 True obtain w3 where w3: "chmod w2 (dest f) 493 = Inr w3"
      and w': "w' = say ((if pathExists w3 (dest f) then ''Updated'' else ''Created'') @
                          '' '' @ dest f) w3"
      by (auto simp add: copyOne_def Let_def split: sum.splits)
    from f2 have "files w2 (dest f) = Some (File c m)" by simp
    from chmod_files [OF w3 this] f2
    have f3: "files w3 = (files w1)(dest f \<mapsto> File c 493)" and c3: "console w3 = console w2"
      by auto
    from f3 have ex: "pathExists w3 (dest f)" by (simp add: pathExists_def)
    from w' ex f3 c3 c2 ensureDir_console [OF w1] fr1 t True show ?thesis
      by simp
  next
    case False
    from ok w1 cond w2 False have w': "w' = say (''Created'' @ '' '' @ dest f) w2"
      by (auto simp add: copyOne_def Let_def split: sum.splits)
    from w' f2 c2 ensureDir_console [OF w1] fr1 t False show ?thesis
      by simp
  qed
qed

lemma copyOne_dir:
  assumes ok: "copyOne e f w = Inr w'"
    and ne: "dest f \<noteq> dirname (dest f)" and nr: "dirname (dest f) \<noteq> ''.''"
  shows "files w' (dirname (dest f)) = Some Dir"
proof -
  from ok obtain w1 where w1: "ensureDir w (dirname (dest f)) = Inr w1"
    by (auto simp add: copyOne_def Let_def split: sum.splits)
  from ensureDir_files [OF w1] nr have d1: "files w1 (dirname (dest f)) = Some Dir"
    by auto
  show ?thesis
  proof (cases "pathExists w1 (dest f) \<and> \<not> startsWith (dest f) ''.husky/''")
    case True
    with ok w1 have "w' = say (dest f @ '' already exists, skipping...'') w1"
      by (simp add: copyOne_def Let_def)
    with d1 show ?thesis by simp
  next
    case False
    with ok w1 obtain w2 where w2: "copy e w1 (src f) (dest f) = Inr w2"
      by (auto simp add: copyOne_def Let_def split: sum.splits)
    from copy_files [OF w2] obtain c m where
      f2: "files w2 = (files w1)(dest f \<mapsto> File c m)"
      by blast
    show ?thesis
    proof (cases "startsWith (dest f) ''.husky/''")
      case True
      from ok w1 False w2 True obtain w3 where w3: "chmod w2 (dest f) 493 = Inr w3"
        and w': "w' = say ((if pathExists w3 (dest f) then ''Updated'' else ''Created'') @
                          '' '' @ dest f) w3"
        by (auto simp add: copyOne_def Let_def split: sum.splits)
      from f2 have "files w2 (dest f) = Some (File c m)" by simp
      from chmod_files [OF w3 this] f2
      have "files w3 = (files w1)(dest f \<mapsto> File c 493)" by auto
      with w' d1 ne show ?thesis by simp
    next
      case F: False
      from ok w1 False w2 F have "w' = say (''Created'' @ '' '' @ dest f) w2"
        by (auto simp add: copyOne_def Let_def split: sum.splits)
      with f2 d1 ne show ?thesis by simp
    qed
  qed
qed

text \<open>What the loop body may touch, whether it returns or throws.\<close>

lemma copyOne_files_shape:
  "\<exists>fs1. (fs1 = files w \<or>
           fs1 = (files w)(dirname (dest f) \<mapsto> Dir) \<and> files w (dirname (dest f)) = None \<and>
             dirname (dest f) \<noteq> ''.'') \<and>
         (files (worldOf (copyOne e f w)) = fs1 \<or>
          (\<exists>c m. files (worldOf (copyOne e f w)) = fs1(dest f \<mapsto> File c m)))"
proof (cases "ensureDir w (dirname (dest f))")
  case (Inl err)
  then have "worldOf (copyOne e f w) = w"
    by (simp add: copyOne_def worldOf_def)
  then show ?thesis by auto
next
  case (Inr w1)
  from ensureDir_files [OF Inr]
  have s1: "files w1 = files w \<or>
           files w1 = (files w)(dirname (dest f) \<mapsto> Dir) \<and> files w (dirname (dest f)) = None \<and>
             dirname (dest f) \<noteq> ''.''"
    by auto
  have "files (worldOf (copyOne e f w)) = files w1 \<or>
          (\<exists>c m. files (worldOf (copyOne e f w)) = (files w1)(dest f \<mapsto> File c m))"
  proof (cases "pathExists w1 (dest f) \<and> \<not> startsWith (dest f) ''.husky/''")
    case True
    with Inr have "worldOf (copyOne e f w) = say (dest f @ '' already exists, skipping...'') w1"
      by (simp add: copyOne_def Let_def worldOf_def)
    then show ?thesis by simp
  next
    case False
    show ?thesis
    proof (cases "copy e w1 (src f) (dest f)")
      case (Inl err)
      with Inr False have "worldOf (copyOne e f w) = w1"
        by (auto simp add: copyOne_def Let_def worldOf_def)
      then show ?thesis by simp
    next
      case w2: (Inr w2)
      from copy_files [OF w2] obtain c m where
        f2: "files w2 = (files w1)(dest f \<mapsto> File c m)"
        by blast
      show ?thesis
      proof (cases "startsWith (dest f) ''.husky/''")
        case True
        show ?thesis
        proof (cases "chmod w2 (dest f) 493")
          case (Inl err)
          with Inr False w2 True have "worldOf (copyOne e f w) = w2"
            by (auto simp add: copyOne_def Let_def worldOf_def)
          with f2 show ?thesis by auto
        next
          case w3: (Inr w3)
          from f2 have "files w2 (dest f) = Some (File c m)" by simp
          from chmod_files [OF w3 this] f2
          have f3: "files w3 = (files w1)(dest f \<mapsto> File c 493)" by auto
          from Inr False w2 True w3
          have "worldOf (copyOne e f w) =
                  say ((if pathExists w3 (dest f) then ''Updated'' else ''Created'') @
                          '' '' @ dest f) w3"
            by (auto simp add: copyOne_def Let_def worldOf_def)
          with f3 show ?thesis by auto
        qed
      next
        case F: False
        from Inr False w2 F have "worldOf (copyOne e f w) = say (''Created'' @ '' '' @ dest f) w2"
          by (auto simp add: copyOne_def Let_def worldOf_def)
        with f2 show ?thesis by auto
      qed
    qed
  qed
  with s1 show ?thesis by blast
qed

lemma copyOne_frame:
  assumes "p \<noteq> dest f"
  shows "files (worldOf (copyOne e f w)) p = files w p \<or>
         p = dirname (dest f) \<and> p \<noteq> ''.'' \<and> files w p = None \<and>
           files (worldOf (copyOne e f w)) p = Some Dir"
  using copyOne_files_shape [of w f e] assms by (auto split: if_splits)

lemma copyOne_keeps:
  assumes "files w p \<noteq> None"
  shows "files (worldOf (copyOne e f w)) p \<noteq> None"
  using copyOne_files_shape [of w f e] assms by (auto split: if_splits)


subsection \<open>The whole loop\<close>

lemma copyLoop_Cons_world:
  "worldOf (copyLoop e (f # rest) w) =
     (case copyOne e f w of
        Inl x \<Rightarrow> worldOf (copyOne e f w)
      | Inr w1 \<Rightarrow> worldOf (copyLoop e rest w1))"
  by (simp add: worldOf_def split: sum.splits)

lemma copyLoop_frame:
  assumes "p \<notin> dest ` set fs"
  shows "files (worldOf (copyLoop e fs w)) p = files w p \<or>
         p \<in> dirname ` dest ` set fs \<and> p \<noteq> ''.'' \<and> files w p = None \<and>
           files (worldOf (copyLoop e fs w)) p = Some Dir"
  using assms
proof (induction fs arbitrary: w)
  case Nil
  show ?case by (simp add: worldOf_def)
next
  case (Cons f rest)
  from Cons.prems have pf: "p \<noteq> dest f" and pr: "p \<notin> dest ` set rest"
    by auto
  note one = copyOne_frame [OF pf, of e w]
  show ?case
  proof (cases "copyOne e f w")
    case (Inl x)
    then have "worldOf (copyLoop e (f # rest) w) = worldOf (copyOne e f w)"
      by (simp add: copyLoop_Cons_world)
    with one show ?thesis by auto
  next
    case (Inr w1)
    then have eq: "worldOf (copyLoop e (f # rest) w) = worldOf (copyLoop e rest w1)"
      and w1: "worldOf (copyOne e f w) = w1"
      by (simp_all add: copyLoop_Cons_world worldOf_def)
    from Cons.IH [OF pr, of w1] one show ?thesis
      unfolding eq w1 by auto
  qed
qed

lemma copyLoop_keeps:
  assumes "files w p \<noteq> None"
  shows "files (worldOf (copyLoop e fs w)) p \<noteq> None"
  using assms
proof (induction fs arbitrary: w)
  case Nil
  then show ?case by (simp add: worldOf_def)
next
  case (Cons f rest)
  note one = copyOne_keeps [OF Cons.prems, of e f]
  show ?case
  proof (cases "copyOne e f w")
    case (Inl x)
    then have "worldOf (copyLoop e (f # rest) w) = worldOf (copyOne e f w)"
      by (simp add: copyLoop_Cons_world)
    with one show ?thesis by simp
  next
    case (Inr w1)
    then have eq: "worldOf (copyLoop e (f # rest) w) = worldOf (copyLoop e rest w1)"
      and w1: "worldOf (copyOne e f w) = w1"
      by (simp_all add: copyLoop_Cons_world worldOf_def)
    from one w1 have "files w1 p \<noteq> None" by simp
    from Cons.IH [OF this] show ?thesis
      unfolding eq .
  qed
qed

lemma copyLoop_keeps_node:
  assumes "files w p = Some n" and "p \<notin> dest ` set fs"
  shows "files (worldOf (copyLoop e fs w)) p = Some n"
  using copyLoop_frame [OF assms(2), of e w] assms(1) by auto

lemma copyConfigFiles_world:
  "files (worldOf (copyConfigFiles e w)) =
     files (worldOf (copyLoop e filesToCopy (say ''Copying configuration files...'' w)))"
  by (simp add: copyConfigFiles_def worldOf_def split: sum.splits prod.splits)

lemma dests_filesToCopy:
  "dest ` set filesToCopy =
     {''.lintstagedrc.js'', ''commitlint.config.js'', ''.nvmrc'', ''.vscode/settings.json'',
      ''.vscode/extensions.json'', ''.husky/pre-commit'', ''.husky/pre-push'',
      ''.husky/commit-msg''}"
  by (simp add: filesToCopy_def)

lemma dirnames_filesToCopy:
  "dirname ` dest ` set filesToCopy = {''.'', ''.vscode'', ''.husky''}"
  by (simp add: filesToCopy_def dirname_def)

text \<open>
  Claim C10. Whatever \<open>copyConfigFiles\<close> does, and whether it returns or throws part-way:
  a path other than the eight destinations holds after the step exactly what it held
  before, with one exception, a directory \<^verbatim>\<open>.vscode\<close> or \<^verbatim>\<open>.husky\<close> that did not exist and
  has been created; so no file outside the eight destinations is created, changed or
  removed. And every path that held something before the step still holds something
  after it: nothing is deleted.
\<close>

theorem copyConfigFiles_frame:
  "(\<forall>p. p \<notin> {''.lintstagedrc.js'', ''commitlint.config.js'', ''.nvmrc'',
              ''.vscode/settings.json'', ''.vscode/extensions.json'', ''.husky/pre-commit'',
              ''.husky/pre-push'', ''.husky/commit-msg''} \<longrightarrow>
        files (worldOf (copyConfigFiles e w)) p = files w p \<or>
        p \<in> {''.vscode'', ''.husky''} \<and> files w p = None \<and>
          files (worldOf (copyConfigFiles e w)) p = Some Dir) \<and>
   (\<forall>p. files w p \<noteq> None \<longrightarrow> files (worldOf (copyConfigFiles e w)) p \<noteq> None)"
proof (intro conjI allI impI)
  fix p
  assume "p \<notin> {''.lintstagedrc.js'', ''commitlint.config.js'', ''.nvmrc'',
              ''.vscode/settings.json'', ''.vscode/extensions.json'', ''.husky/pre-commit'',
              ''.husky/pre-push'', ''.husky/commit-msg''}"
  then have "p \<notin> dest ` set filesToCopy"
    unfolding dests_filesToCopy .
  from copyLoop_frame [OF this, of e "say ''Copying configuration files...'' w"]
  show "files (worldOf (copyConfigFiles e w)) p = files w p \<or>
        p \<in> {''.vscode'', ''.husky''} \<and> files w p = None \<and>
          files (worldOf (copyConfigFiles e w)) p = Some Dir"
    unfolding copyConfigFiles_world dirnames_filesToCopy files_say by blast
next
  fix p
  assume "files w p \<noteq> None"
  then have "files (say ''Copying configuration files...'' w) p \<noteq> None"
    by simp
  from copyLoop_keeps [OF this]
  show "files (worldOf (copyConfigFiles e w)) p \<noteq> None"
    unfolding copyConfigFiles_world .
qed

text \<open>
  On the fresh project: the manifest is not a destination and is left as it was; the
  directory \<^verbatim>\<open>.vscode\<close> did not exist and is created.
\<close>

theorem copyConfigFiles_frame_witness:
  "''package.json'' \<notin> {''.lintstagedrc.js'', ''commitlint.config.js'', ''.nvmrc'',
              ''.vscode/settings.json'', ''.vscode/extensions.json'', ''.husky/pre-commit'',
              ''.husky/pre-push'', ''.husky/commit-msg''} \<and>
   files freshProject ''package.json'' \<noteq> None \<and>
   files (worldOf (copyConfigFiles quietEnv freshProject)) ''package.json'' =
     files freshProject ''package.json'' \<and>
   ''.vscode'' \<notin> {''.lintstagedrc.js'', ''commitlint.config.js'', ''.nvmrc'',
              ''.vscode/settings.json'', ''.vscode/extensions.json'', ''.husky/pre-commit'',
              ''.husky/pre-push'', ''.husky/commit-msg''} \<and>
   files freshProject ''.vscode'' = None \<and>
   files (worldOf (copyConfigFiles quietEnv freshProject)) ''.vscode'' = Some Dir"
proof -
  have a: "''package.json'' \<notin> {''.lintstagedrc.js'', ''commitlint.config.js'', ''.nvmrc'',
              ''.vscode/settings.json'', ''.vscode/extensions.json'', ''.husky/pre-commit'',
              ''.husky/pre-push'', ''.husky/commit-msg''}"
    by simp
  have b: "files freshProject ''package.json'' \<noteq> None"
    by (simp add: freshProject_def manifestOnly_def)
  have c: "''package.json'' \<notin> {''.vscode'', ''.husky''}"
    by simp
  have d: "''.vscode'' \<notin> {''.lintstagedrc.js'', ''commitlint.config.js'', ''.nvmrc'',
              ''.vscode/settings.json'', ''.vscode/extensions.json'', ''.husky/pre-commit'',
              ''.husky/pre-push'', ''.husky/commit-msg''}"
    by simp
  have e: "files freshProject ''.vscode'' = None"
    by (simp add: freshProject_def manifestOnly_def)
  have f: "files (worldOf (copyConfigFiles quietEnv freshProject)) ''.vscode'' = Some Dir"
    by (simp add: step_defs example_defs worldOf_def)
  note fr = copyConfigFiles_frame [of quietEnv freshProject, THEN conjunct1, THEN spec,
      of "''package.json''", THEN mp, OF a]
  from fr c
  have g: "files (worldOf (copyConfigFiles quietEnv freshProject)) ''package.json'' =
     files freshProject ''package.json''"
    by (elim disjE conjE) (assumption, erule notE, assumption)
  from a b g d e f show ?thesis
    by (intro conjI)
qed


subsection \<open>After a loop that returned\<close>

lemma copyLoop_Cons_ok:
  assumes "copyLoop e (f # rest) w = Inr w'"
  obtains w1 where "copyOne e f w = Inr w1" and "copyLoop e rest w1 = Inr w'"
  using assms by (auto split: sum.splits)

lemma worldOf_Inr [simp]: "worldOf (Inr w) = w"
  by (simp add: worldOf_def)

lemma copyLoop_post:
  assumes "copyLoop e fs w = Inr w'"
    and "distinct (map dest fs)"
    and "\<forall>f \<in> set fs. \<forall>g \<in> set fs. dest f \<noteq> dirname (dest g)"
    and "f \<in> set fs"
  shows "(startsWith (dest f) ''.husky/'' \<or> files w (dest f) = None \<longrightarrow>
            (\<exists>c m. templates e (src f) = Some (c, m) \<and>
               files w' (dest f) =
                 Some (File c (if startsWith (dest f) ''.husky/'' then 493 else m)))) \<and>
         (\<not> startsWith (dest f) ''.husky/'' \<and> files w (dest f) \<noteq> None \<longrightarrow>
            files w' (dest f) = files w (dest f)) \<and>
         (dirname (dest f) \<noteq> ''.'' \<longrightarrow> files w' (dirname (dest f)) = Some Dir)"
  using assms
proof (induction fs arbitrary: w)
  case Nil
  then show ?case by simp
next
  case (Cons g rest)
  from Cons.prems(1) obtain w1 where one: "copyOne e g w = Inr w1"
    and loop: "copyLoop e rest w1 = Inr w'"
    by (rule copyLoop_Cons_ok)
  from loop have wl: "worldOf (copyLoop e rest w1) = w'" by simp
  from one have wo: "worldOf (copyOne e g w) = w1" by simp
  from Cons.prems(2) have dist: "distinct (map dest rest)" and gn: "dest g \<notin> dest ` set rest"
    by auto
  from Cons.prems(3) have sep: "\<forall>f \<in> set rest. \<forall>g \<in> set rest. dest f \<noteq> dirname (dest g)"
    by auto
  show ?case
  proof (cases "f = g")
    case True
    from Cons.prems(3) have ne: "dest g \<noteq> dirname (dest g)" by auto
    from Cons.prems(3) have dn: "dirname (dest g) \<notin> dest ` set rest" by auto
    have a: "startsWith (dest g) ''.husky/'' \<or> files w (dest g) = None \<longrightarrow>
            (\<exists>c m. templates e (src g) = Some (c, m) \<and>
               files w' (dest g) =
                 Some (File c (if startsWith (dest g) ''.husky/'' then 493 else m)))"
    proof
      assume br: "startsWith (dest g) ''.husky/'' \<or> files w (dest g) = None"
      from copyOne_copied [OF one br ne] obtain c m where
        t: "templates e (src g) = Some (c, m)" and
        f1: "files w1 (dest g) =
               Some (File c (if startsWith (dest g) ''.husky/'' then 493 else m))"
        by blast
      from copyLoop_keeps_node [OF f1 gn, of e] wl
      have "files w' (dest g) =
               Some (File c (if startsWith (dest g) ''.husky/'' then 493 else m))"
        by simp
      with t show "\<exists>c m. templates e (src g) = Some (c, m) \<and>
               files w' (dest g) =
                 Some (File c (if startsWith (dest g) ''.husky/'' then 493 else m))"
        by blast
    qed
    have b: "\<not> startsWith (dest g) ''.husky/'' \<and> files w (dest g) \<noteq> None \<longrightarrow>
            files w' (dest g) = files w (dest g)"
    proof
      assume sk: "\<not> startsWith (dest g) ''.husky/'' \<and> files w (dest g) \<noteq> None"
      then obtain n where n: "files w (dest g) = Some n" by auto
      from copyOne_skip [OF one] sk have "files w1 (dest g) = files w (dest g)" by blast
      with n have "files w1 (dest g) = Some n" by simp
      from copyLoop_keeps_node [OF this gn, of e] wl n
      show "files w' (dest g) = files w (dest g)" by simp
    qed
    have c: "dirname (dest g) \<noteq> ''.'' \<longrightarrow> files w' (dirname (dest g)) = Some Dir"
    proof
      assume nr: "dirname (dest g) \<noteq> ''.''"
      from copyOne_dir [OF one ne nr] have "files w1 (dirname (dest g)) = Some Dir" .
      from copyLoop_keeps_node [OF this dn, of e] wl
      show "files w' (dirname (dest g)) = Some Dir" by simp
    qed
    from a b c True show ?thesis by simp
  next
    case False
    with Cons.prems(4) have fin: "f \<in> set rest" by simp
    note ih = Cons.IH [OF loop dist sep fin]
    from fin gn have fg: "dest f \<noteq> dest g" by (metis imageI)
    from Cons.prems(3) fin have "dest f \<noteq> dirname (dest g)" by auto
    with copyOne_frame [OF fg, of e w] wo
    have same: "files w1 (dest f) = files w (dest f)" by auto
    from ih show ?thesis unfolding same .
  qed
qed

subsection \<open>A loop over a tree that holds everything but, possibly, the hooks\<close>

lemma copyOne_rewrite:
  assumes dir: "dirname (dest f) = ''.'' \<or> files w (dirname (dest f)) = Some Dir"
    and hook: "startsWith (dest f) ''.husky/'' \<longrightarrow>
                 (\<exists>c m. templates e (src f) = Some (c, m)) \<and> files w (dest f) \<noteq> Some Dir"
    and other: "\<not> startsWith (dest f) ''.husky/'' \<longrightarrow> files w (dest f) \<noteq> None"
  shows "\<exists>w'. copyOne e f w = Inr w' \<and>
           console w' = console w @
             [Out (if startsWith (dest f) ''.husky/'' then ''Updated '' @ dest f
                   else dest f @ '' already exists, skipping...'')] \<and>
           trace w' = trace w @
             (if startsWith (dest f) ''.husky/''
              then [WriteFile (dest f), Chmod (dest f)] else []) \<and>
           (\<forall>p. p \<noteq> dest f \<or> \<not> startsWith (dest f) ''.husky/'' \<longrightarrow> files w' p = files w p) \<and>
           (startsWith (dest f) ''.husky/'' \<longrightarrow> files w' (dest f) \<noteq> Some Dir) \<and>
           files w' (dest f) \<noteq> None"
proof -
  from dir have ed: "ensureDir w (dirname (dest f)) = Inr w"
    by (auto simp add: ensureDir_def)
  show ?thesis
  proof (cases "startsWith (dest f) ''.husky/''")
    case True
    with hook obtain c m where t: "templates e (src f) = Some (c, m)"
      and h: "files w (dest f) \<noteq> Some Dir"
      by blast
    from t h have cp: "copy e w (src f) (dest f) =
        Inr (w\<lparr>files := (files w)(dest f \<mapsto> File c m), trace := trace w @ [WriteFile (dest f)]\<rparr>)"
      by (cases "files w (dest f)") (auto simp add: copy_def split: node.splits)
    show ?thesis
      using True
      by (simp add: copyOne_def ed cp chmod_def pathExists_def say_def)
  next
    case False
    with other have "pathExists w (dest f)" by (simp add: pathExists_def)
    with False other show ?thesis
      by (auto simp add: copyOne_def ed say_def dest: spec)
  qed
qed

lemma copyLoop_rewrite:
  assumes "\<forall>f \<in> set fs. dirname (dest f) = ''.'' \<or> files w (dirname (dest f)) = Some Dir"
    and "\<forall>f \<in> set fs. startsWith (dest f) ''.husky/'' \<longrightarrow>
           (\<exists>c m. templates e (src f) = Some (c, m)) \<and> files w (dest f) \<noteq> Some Dir"
    and "\<forall>f \<in> set fs. \<not> startsWith (dest f) ''.husky/'' \<longrightarrow> files w (dest f) \<noteq> None"
    and "\<forall>f \<in> set fs. \<forall>g \<in> set fs. dest f \<noteq> dirname (dest g)"
  shows "\<exists>w'. copyLoop e fs w = Inr w' \<and>
           console w' = console w @
             map (\<lambda>f. Out (if startsWith (dest f) ''.husky/'' then ''Updated '' @ dest f
                            else dest f @ '' already exists, skipping...'')) fs \<and>
           trace w' = trace w @
             concat (map (\<lambda>f. if startsWith (dest f) ''.husky/''
                               then [WriteFile (dest f), Chmod (dest f)] else []) fs) \<and>
           (\<forall>p. (\<forall>f \<in> set fs. startsWith (dest f) ''.husky/'' \<longrightarrow> p \<noteq> dest f) \<longrightarrow>
                files w' p = files w p)"
  using assms
proof (induction fs arbitrary: w)
  case Nil
  show ?case by simp
next
  case (Cons g rest)
  from Cons.prems have
    "dirname (dest g) = ''.'' \<or> files w (dirname (dest g)) = Some Dir"
    "startsWith (dest g) ''.husky/'' \<longrightarrow>
       (\<exists>c m. templates e (src g) = Some (c, m)) \<and> files w (dest g) \<noteq> Some Dir"
    "\<not> startsWith (dest g) ''.husky/'' \<longrightarrow> files w (dest g) \<noteq> None"
    by simp_all
  from copyOne_rewrite [OF this] obtain w1 where
    one: "copyOne e g w = Inr w1" and
    c1: "console w1 = console w @
             [Out (if startsWith (dest g) ''.husky/'' then ''Updated '' @ dest g
                   else dest g @ '' already exists, skipping...'')]" and
    t1: "trace w1 = trace w @
             (if startsWith (dest g) ''.husky/''
              then [WriteFile (dest g), Chmod (dest g)] else [])" and
    f1: "\<forall>p. p \<noteq> dest g \<or> \<not> startsWith (dest g) ''.husky/'' \<longrightarrow> files w1 p = files w p" and
    d1: "startsWith (dest g) ''.husky/'' \<longrightarrow> files w1 (dest g) \<noteq> Some Dir"
        "files w1 (dest g) \<noteq> None"
    by blast
  have same: "files w1 p = files w p" if "p \<noteq> dest g" for p
    using f1 that by blast
  have p1: "\<forall>f \<in> set rest. dirname (dest f) = ''.'' \<or> files w1 (dirname (dest f)) = Some Dir"
  proof
    fix f assume f: "f \<in> set rest"
    with Cons.prems(4) have "dest g \<noteq> dirname (dest f)" by simp
    then have "files w1 (dirname (dest f)) = files w (dirname (dest f))"
      by (intro same) simp
    with Cons.prems(1) f
    show "dirname (dest f) = ''.'' \<or> files w1 (dirname (dest f)) = Some Dir"
      by simp
  qed
  have p2: "\<forall>f \<in> set rest. startsWith (dest f) ''.husky/'' \<longrightarrow>
           (\<exists>c m. templates e (src f) = Some (c, m)) \<and> files w1 (dest f) \<noteq> Some Dir"
  proof (intro ballI impI)
    fix f assume f: "f \<in> set rest" and h: "startsWith (dest f) ''.husky/''"
    from Cons.prems(2) f h have a: "\<exists>c m. templates e (src f) = Some (c, m)"
      and b: "files w (dest f) \<noteq> Some Dir"
      by simp_all
    have "files w1 (dest f) \<noteq> Some Dir"
    proof (cases "dest f = dest g")
      case True
      with d1 h show ?thesis by simp
    next
      case False
      from same [OF this] b show ?thesis by simp
    qed
    with a show "(\<exists>c m. templates e (src f) = Some (c, m)) \<and> files w1 (dest f) \<noteq> Some Dir"
      by (intro conjI)
  qed
  have p3: "\<forall>f \<in> set rest. \<not> startsWith (dest f) ''.husky/'' \<longrightarrow> files w1 (dest f) \<noteq> None"
  proof (intro ballI impI)
    fix f assume f: "f \<in> set rest" and h: "\<not> startsWith (dest f) ''.husky/''"
    from Cons.prems(3) f h have b: "files w (dest f) \<noteq> None" by simp
    show "files w1 (dest f) \<noteq> None"
    proof (cases "dest f = dest g")
      case True
      with d1 show ?thesis by simp
    next
      case False
      from same [OF this] b show ?thesis by simp
    qed
  qed
  from Cons.prems(4) have p4: "\<forall>f \<in> set rest. \<forall>g \<in> set rest. dest f \<noteq> dirname (dest g)"
    by simp
  from Cons.IH [OF p1 p2 p3 p4] obtain w' where
    l: "copyLoop e rest w1 = Inr w'" and
    c2: "console w' = console w1 @
             map (\<lambda>f. Out (if startsWith (dest f) ''.husky/'' then ''Updated '' @ dest f
                            else dest f @ '' already exists, skipping...'')) rest" and
    t2: "trace w' = trace w1 @
             concat (map (\<lambda>f. if startsWith (dest f) ''.husky/''
                               then [WriteFile (dest f), Chmod (dest f)] else []) rest)" and
    f2: "\<forall>p. (\<forall>f \<in> set rest. startsWith (dest f) ''.husky/'' \<longrightarrow> p \<noteq> dest f) \<longrightarrow>
                files w' p = files w1 p"
    by blast
  have l': "copyLoop e (g # rest) w = Inr w'"
    using one l by simp
  have c': "console w' = console w @
             map (\<lambda>f. Out (if startsWith (dest f) ''.husky/'' then ''Updated '' @ dest f
                            else dest f @ '' already exists, skipping...'')) (g # rest)"
    unfolding c2 c1 by simp
  have t': "trace w' = trace w @
             concat (map (\<lambda>f. if startsWith (dest f) ''.husky/''
                               then [WriteFile (dest f), Chmod (dest f)] else []) (g # rest))"
    unfolding t2 t1 by simp
  have f': "\<forall>p. (\<forall>f \<in> set (g # rest). startsWith (dest f) ''.husky/'' \<longrightarrow> p \<noteq> dest f) \<longrightarrow>
                files w' p = files w p"
  proof (intro allI impI)
    fix p
    assume a: "\<forall>f \<in> set (g # rest). startsWith (dest f) ''.husky/'' \<longrightarrow> p \<noteq> dest f"
    then have "\<forall>f \<in> set rest. startsWith (dest f) ''.husky/'' \<longrightarrow> p \<noteq> dest f"
      by simp
    with f2 have "files w' p = files w1 p" by blast
    moreover from a have "p \<noteq> dest g \<or> \<not> startsWith (dest g) ''.husky/''" by auto
    with f1 have "files w1 p = files w p" by blast
    ultimately show "files w' p = files w p" by simp
  qed
  from l' c' t' f' show ?case by blast
qed

text \<open>
  Claim C3, at a project where no hook file exists yet. The materialization returns and
  creates the three hook files, but each of them is reported as \<^verbatim>\<open>Updated\<close>, the report
  for an overwritten hook: \<^verbatim>\<open>action\<close> is computed from \<^verbatim>\<open>pathExists(destPath)\<close> after the
  copy, when the destination always exists. The five other files are reported as
  \<^verbatim>\<open>Created\<close>.
\<close>

theorem copyConfigFiles_reports_new_hooks_as_updated:
  "files freshProject ''.husky/pre-commit'' = None \<and>
   files freshProject ''.husky/pre-push'' = None \<and>
   files freshProject ''.husky/commit-msg'' = None \<and>
   \<not> isl (copyConfigFiles quietEnv freshProject) \<and>
   console (worldOf (copyConfigFiles quietEnv freshProject)) =
     [Out ''Copying configuration files...'',
      Out ''Created .lintstagedrc.js'',
      Out ''Created commitlint.config.js'',
      Out ''Created .nvmrc'',
      Out ''Created .vscode/settings.json'',
      Out ''Created .vscode/extensions.json'',
      Out ''Updated .husky/pre-commit'',
      Out ''Updated .husky/pre-push'',
      Out ''Updated .husky/commit-msg'',
      Out ''Configuration files copied'']"
  by (simp add: step_defs example_defs worldOf_def)

section \<open>The manifest patch\<close>

subsection \<open>Reading and assigning properties\<close>

lemma setProp_get:
  assumes "setProp v k x = Inr v'"
  shows "getProp v' k' = (if k' = k then Inr (Some x) else getProp v k')"
  using assms by (cases v) (auto simp add: update_conv')

lemma setProp2_get:
  assumes "setProp2 v a b x = Inr v'"
  shows "getProp2 v' a' b' =
           (if a' = a \<and> b' = b then Inr (Some x) else getProp2 v a' b')"
proof -
  from assms obtain o1 o2 where g: "getProp v a = Inr (Some o1)"
    and s1: "setProp o1 b x = Inr o2" and s2: "setProp v a o2 = Inr v'"
    by (auto simp add: setProp2_def split: sum.splits option.splits)
  show ?thesis
    using setProp_get [OF s2, of a'] setProp_get [OF s1, of b'] g
    by (auto simp add: getProp2_def)
qed

lemma setProp2_get1:
  assumes "setProp2 v a b x = Inr v'" and "a' \<noteq> a"
  shows "getProp v' a' = getProp v a'"
proof -
  from assms obtain o1 o2 where g: "getProp v a = Inr (Some o1)"
    and s1: "setProp o1 b x = Inr o2" and s2: "setProp v a o2 = Inr v'"
    by (auto simp add: setProp2_def split: sum.splits option.splits)
  show ?thesis
    using setProp_get [OF s2, of a'] assms(2) by simp
qed

lemma getProp2_cong:
  assumes "getProp v' a = getProp v a"
  shows "getProp2 v' a b = getProp2 v a b"
  using assms by (simp add: getProp2_def)

lemma falsy_getProp:
  assumes "\<not> truthy v"
  shows "getProp v k \<noteq> Inr (Some x)"
  using assms by (cases v) auto

lemma js_not_getProp2:
  assumes "getProp v a = Inr r" and "js_not r"
  shows "getProp2 v a b \<noteq> Inr (Some x)"
  using assms falsy_getProp [of _ b x]
  by (cases r) (auto simp add: getProp2_def)

subsection \<open>The blocks of the manifest patch, one by one\<close>

lemma ensureObject_props:
  assumes "ensureObject a pj = Inr pj1"
  shows "(\<forall>k. k \<noteq> a \<longrightarrow> getProp pj1 k = getProp pj k) \<and>
         (\<forall>b v. getProp2 pj a b = Inr (Some v) \<longrightarrow> getProp2 pj1 a b = Inr (Some v)) \<and>
         (\<exists>v. getProp pj1 a = Inr (Some v) \<and> truthy v)"
proof -
  from assms obtain r where r: "getProp pj a = Inr r"
    by (auto simp add: ensureObject_def split: sum.splits)
  show ?thesis
  proof (cases "js_not r")
    case True
    with assms r have s: "setProp pj a (JObj []) = Inr pj1"
      by (simp add: ensureObject_def)
    from setProp_get [OF s] js_not_getProp2 [OF r True] show ?thesis
      by auto
  next
    case False
    with assms r have "pj1 = pj"
      by (simp add: ensureObject_def)
    with r False show ?thesis
      by (cases r) auto
  qed
qed

lemma ensureObject_id:
  assumes "getProp pj a = Inr (Some v)" and "truthy v"
  shows "ensureObject a pj = Inr pj"
  using assms by (simp add: ensureObject_def)

lemma addScripts_props:
  assumes "addScripts l (pj, a, out) = Inr (pj', a', out')"
    and "\<forall>sc \<in> set l. snd sc \<noteq> []"
  shows "(\<forall>k. k \<noteq> ''scripts'' \<longrightarrow> getProp pj' k = getProp pj k) \<and>
         (\<forall>b v. getProp2 pj ''scripts'' b = Inr (Some v) \<and> (b \<in> fst ` set l \<longrightarrow> truthy v) \<longrightarrow>
                getProp2 pj' ''scripts'' b = Inr (Some v)) \<and>
         (\<forall>b \<in> fst ` set l. \<exists>v. getProp2 pj' ''scripts'' b = Inr (Some v) \<and> truthy v) \<and>
         (a' = (a \<or> (\<exists>b \<in> fst ` set l. \<forall>v. getProp2 pj ''scripts'' b = Inr (Some v) \<longrightarrow> \<not> truthy v))) \<and>
         ((\<forall>b \<in> fst ` set l. \<exists>v. getProp2 pj ''scripts'' b = Inr (Some v) \<and> truthy v) \<longrightarrow>
            pj' = pj \<and> out' = out)"
  using assms
proof (induction l arbitrary: pj a out)
  case Nil
  then show ?case by simp
next
  case (Cons sc rest)
  obtain script command where sc: "sc = (script, command)" by (cases sc)
  from Cons.prems(2) sc have cmd: "command \<noteq> []" and rest: "\<forall>sc \<in> set rest. snd sc \<noteq> []"
    by auto
  from Cons.prems(1) sc obtain r where r: "getProp2 pj ''scripts'' script = Inr r"
    by (auto split: sum.splits)
  show ?case
  proof (cases "js_not r")
    case True
    with Cons.prems(1) sc r obtain pj1 where
      s: "setProp2 pj ''scripts'' script (JStr command) = Inr pj1" and
      go: "addScripts rest (pj1, True, out @ [''Added script: '' @ script]) = Inr (pj', a', out')"
      by (auto split: sum.splits)
    note ih = Cons.IH [OF go rest]
    note g2 = setProp2_get [OF s]
    note g1 = setProp2_get1 [OF s]
    from True r have falsy: "\<forall>v. getProp2 pj ''scripts'' script = Inr (Some v) \<longrightarrow> \<not> truthy v"
      by (cases r) auto
    have c1: "\<forall>k. k \<noteq> ''scripts'' \<longrightarrow> getProp pj' k = getProp pj k"
      using ih g1 by simp
    have c2: "\<forall>b v. getProp2 pj ''scripts'' b = Inr (Some v) \<and>
                 (b \<in> fst ` set (sc # rest) \<longrightarrow> truthy v) \<longrightarrow>
                getProp2 pj' ''scripts'' b = Inr (Some v)"
    proof (intro allI impI)
      fix b v
      assume h: "getProp2 pj ''scripts'' b = Inr (Some v) \<and>
                 (b \<in> fst ` set (sc # rest) \<longrightarrow> truthy v)"
      with falsy sc have "b \<noteq> script" by auto
      with g2 h have "getProp2 pj1 ''scripts'' b = Inr (Some v)" by simp
      with ih h show "getProp2 pj' ''scripts'' b = Inr (Some v)" by auto
    qed
    have c3: "\<forall>b \<in> fst ` set (sc # rest). \<exists>v. getProp2 pj' ''scripts'' b = Inr (Some v) \<and> truthy v"
    proof
      fix b
      assume b: "b \<in> fst ` set (sc # rest)"
      show "\<exists>v. getProp2 pj' ''scripts'' b = Inr (Some v) \<and> truthy v"
      proof (cases "b \<in> fst ` set rest")
        case True
        with ih show ?thesis by blast
      next
        case False
        with b sc have bs: "b = script" by auto
        from g2 have "getProp2 pj1 ''scripts'' script = Inr (Some (JStr command))" by simp
        with ih cmd False bs have "getProp2 pj' ''scripts'' script = Inr (Some (JStr command))"
          by auto
        with cmd bs show ?thesis by auto
      qed
    qed
    from ih have a'T: "a'" by simp
    have c6: "a' = (a \<or> (\<exists>b \<in> fst ` set (sc # rest).
                 \<forall>v. getProp2 pj ''scripts'' b = Inr (Some v) \<longrightarrow> \<not> truthy v))"
      using a'T falsy sc by auto
    have c7: "(\<forall>b \<in> fst ` set (sc # rest).
                 \<exists>v. getProp2 pj ''scripts'' b = Inr (Some v) \<and> truthy v) \<longrightarrow>
            pj' = pj \<and> out' = out"
      using falsy sc by auto
    from c1 c2 c3 c6 c7 show ?thesis by blast
  next
    case False
    with Cons.prems(1) sc r have
      go: "addScripts rest (pj, a, out) = Inr (pj', a', out')"
      by (auto split: sum.splits)
    note ih = Cons.IH [OF go rest]
    from False r obtain v0 where v0: "getProp2 pj ''scripts'' script = Inr (Some v0)" "truthy v0"
      by (cases r) auto
    have c2: "\<forall>b v. getProp2 pj ''scripts'' b = Inr (Some v) \<and>
                 (b \<in> fst ` set (sc # rest) \<longrightarrow> truthy v) \<longrightarrow>
                getProp2 pj' ''scripts'' b = Inr (Some v)"
    proof (intro allI impI)
      fix b v
      assume h: "getProp2 pj ''scripts'' b = Inr (Some v) \<and>
                 (b \<in> fst ` set (sc # rest) \<longrightarrow> truthy v)"
      with ih show "getProp2 pj' ''scripts'' b = Inr (Some v)" by auto
    qed
    have c3: "\<forall>b \<in> fst ` set (sc # rest). \<exists>v. getProp2 pj' ''scripts'' b = Inr (Some v) \<and> truthy v"
    proof
      fix b
      assume b: "b \<in> fst ` set (sc # rest)"
      show "\<exists>v. getProp2 pj' ''scripts'' b = Inr (Some v) \<and> truthy v"
      proof (cases "b \<in> fst ` set rest")
        case True
        with ih show ?thesis by blast
      next
        case F: False
        with b sc have bs: "b = script" by auto
        from ih v0 F bs have "getProp2 pj' ''scripts'' script = Inr (Some v0)"
          by auto
        with v0 bs show ?thesis by auto
      qed
    qed
    have c6: "a' = (a \<or> (\<exists>b \<in> fst ` set (sc # rest).
                 \<forall>v. getProp2 pj ''scripts'' b = Inr (Some v) \<longrightarrow> \<not> truthy v))"
      using ih v0 sc by auto
    have c7: "(\<forall>b \<in> fst ` set (sc # rest).
                 \<exists>v. getProp2 pj ''scripts'' b = Inr (Some v) \<and> truthy v) \<longrightarrow>
            pj' = pj \<and> out' = out"
      using ih by auto
    from ih c2 c3 c6 c7 show ?thesis by blast
  qed
qed

lemma addScripts_id:
  assumes "\<forall>b \<in> fst ` set l. \<exists>v. getProp2 pj ''scripts'' b = Inr (Some v) \<and> truthy v"
  shows "addScripts l (pj, a, out) = Inr (pj, a, out)"
  using assms
proof (induction l)
  case Nil
  show ?case by simp
next
  case (Cons sc rest)
  obtain script command where sc: "sc = (script, command)" by (cases sc)
  from Cons.prems sc obtain v where "getProp2 pj ''scripts'' script = Inr (Some v)" "truthy v"
    by auto
  moreover from Cons have "addScripts rest (pj, a, out) = Inr (pj, a, out)" by simp
  ultimately show ?case using sc by simp
qed

lemma addCommitizen_props:
  assumes "addCommitizen (pj, out) = Inr (pj', out')"
  shows "(\<forall>k. k \<noteq> ''config'' \<longrightarrow> getProp pj' k = getProp pj k) \<and>
         (\<forall>b v. getProp2 pj ''config'' b = Inr (Some v) \<and> (b = ''commitizen'' \<longrightarrow> truthy v) \<longrightarrow>
                getProp2 pj' ''config'' b = Inr (Some v)) \<and>
         (\<exists>v. getProp2 pj' ''config'' ''commitizen'' = Inr (Some v) \<and> truthy v)"
proof -
  from assms obtain pj1 r where e: "ensureObject ''config'' pj = Inr pj1"
    and r: "getProp2 pj1 ''config'' ''commitizen'' = Inr r"
    by (auto simp add: addCommitizen_def split: sum.splits)
  note ep = ensureObject_props [OF e]
  show ?thesis
  proof (cases "js_not r")
    case True
    with assms e r have s: "setProp2 pj1 ''config'' ''commitizen'' commitizenConfig = Inr pj'"
      by (auto simp add: addCommitizen_def split: sum.splits)
    note g2 = setProp2_get [OF s]
    note g1 = setProp2_get1 [OF s]
    from True r have falsy: "\<forall>v. getProp2 pj1 ''config'' ''commitizen'' = Inr (Some v) \<longrightarrow> \<not> truthy v"
      by (cases r) auto
    have c1: "\<forall>k. k \<noteq> ''config'' \<longrightarrow> getProp pj' k = getProp pj k"
      using ep g1 by simp
    have c2: "\<forall>b v. getProp2 pj ''config'' b = Inr (Some v) \<and> (b = ''commitizen'' \<longrightarrow> truthy v) \<longrightarrow>
                getProp2 pj' ''config'' b = Inr (Some v)"
    proof (intro allI impI)
      fix b v
      assume h: "getProp2 pj ''config'' b = Inr (Some v) \<and> (b = ''commitizen'' \<longrightarrow> truthy v)"
      with ep have h1: "getProp2 pj1 ''config'' b = Inr (Some v)" by blast
      with falsy h have "b \<noteq> ''commitizen''" by auto
      with g2 h1 show "getProp2 pj' ''config'' b = Inr (Some v)" by simp
    qed
    have c3: "\<exists>v. getProp2 pj' ''config'' ''commitizen'' = Inr (Some v) \<and> truthy v"
      using g2 by (simp add: commitizenConfig_def)
    from c1 c2 c3 show ?thesis by blast
  next
    case False
    with assms e r have eq: "pj' = pj1"
      by (auto simp add: addCommitizen_def split: sum.splits)
    from False r have "\<exists>v. getProp2 pj1 ''config'' ''commitizen'' = Inr (Some v) \<and> truthy v"
      by (cases r) auto
    with ep eq show ?thesis by blast
  qed
qed

lemma addType_props:
  assumes "addType (pj, out) = Inr (pj', out')"
  shows "(\<forall>k. k \<noteq> ''type'' \<longrightarrow> getProp pj' k = getProp pj k) \<and>
         (\<forall>v. getProp pj ''type'' = Inr (Some v) \<and> truthy v \<longrightarrow>
              getProp pj' ''type'' = Inr (Some v)) \<and>
         (\<exists>v. getProp pj' ''type'' = Inr (Some v) \<and> truthy v)"
proof -
  from assms obtain r where r: "getProp pj ''type'' = Inr r"
    by (auto simp add: addType_def split: sum.splits)
  show ?thesis
  proof (cases "js_not r")
    case True
    with assms r have s: "setProp pj ''type'' (JStr ''module'') = Inr pj'"
      by (auto simp add: addType_def split: sum.splits)
    from setProp_get [OF s] True r show ?thesis
      by (cases r) auto
  next
    case False
    with assms r have "pj' = pj"
      by (auto simp add: addType_def split: sum.splits)
    with False r show ?thesis
      by (cases r) auto
  qed
qed

lemma scriptsToAdd_names: "fst ` set scriptsToAdd = {''prepare'', ''commit''}"
  by (simp add: scriptsToAdd_def)

lemma scriptsToAdd_commands: "\<forall>sc \<in> set scriptsToAdd. snd sc \<noteq> []"
  by (simp add: scriptsToAdd_def)

lemma patchManifest_steps:
  assumes "patchManifest pj = Inr (pj4, a, out4)"
  obtains pj1 pj2 out2 pj3 out3 where
    "ensureObject ''scripts'' pj = Inr pj1"
    "addScripts scriptsToAdd (pj1, False, []) = Inr (pj2, a, out2)"
    "addCommitizen (pj2, out2) = Inr (pj3, out3)"
    "addType (pj3, out3) = Inr (pj4, out4)"
  using assms
  by (auto simp add: patchManifest_def split: sum.splits prod.splits)


lemma patchManifest_post:
  assumes "patchManifest pj = Inr (pj', a, out)"
  shows "(\<forall>b \<in> {''prepare'', ''commit''}.
            \<exists>v. getProp2 pj' ''scripts'' b = Inr (Some v) \<and> truthy v) \<and>
         (\<exists>v. getProp2 pj' ''config'' ''commitizen'' = Inr (Some v) \<and> truthy v) \<and>
         (\<exists>v. getProp pj' ''type'' = Inr (Some v) \<and> truthy v) \<and>
         a = (\<exists>b \<in> {''prepare'', ''commit''}.
                \<forall>v. getProp2 pj ''scripts'' b = Inr (Some v) \<longrightarrow> \<not> truthy v)"
proof -
  from assms obtain pj1 pj2 out2 pj3 out3 where
    e: "ensureObject ''scripts'' pj = Inr pj1" and
    s: "addScripts scriptsToAdd (pj1, False, []) = Inr (pj2, a, out2)" and
    c: "addCommitizen (pj2, out2) = Inr (pj3, out3)" and
    t: "addType (pj3, out3) = Inr (pj', out)"
    by (rule patchManifest_steps)
  note ep = ensureObject_props [OF e]
  note sp = addScripts_props [OF s scriptsToAdd_commands, unfolded scriptsToAdd_names]
  note cp = addCommitizen_props [OF c]
  note tp = addType_props [OF t]
  have sc3: "getProp pj3 ''scripts'' = getProp pj2 ''scripts''"
    using cp by simp
  have sc4: "getProp pj' ''scripts'' = getProp pj3 ''scripts''"
    using tp by simp
  have cf4: "getProp pj' ''config'' = getProp pj3 ''config''"
    using tp by simp
  have q1: "\<forall>b \<in> {''prepare'', ''commit''}.
            \<exists>v. getProp2 pj' ''scripts'' b = Inr (Some v) \<and> truthy v"
    using sp by (simp add: getProp2_cong [OF sc3] getProp2_cong [OF sc4])
  have q2: "\<exists>v. getProp2 pj' ''config'' ''commitizen'' = Inr (Some v) \<and> truthy v"
    using cp by (simp add: getProp2_cong [OF cf4])
  have q3: "\<exists>v. getProp pj' ''type'' = Inr (Some v) \<and> truthy v"
    using tp by simp
  have same: "\<forall>b. (\<forall>v. getProp2 pj1 ''scripts'' b = Inr (Some v) \<longrightarrow> \<not> truthy v) =
                  (\<forall>v. getProp2 pj ''scripts'' b = Inr (Some v) \<longrightarrow> \<not> truthy v)"
  proof
    fix b
    from e obtain r where r: "getProp pj ''scripts'' = Inr r"
      by (auto simp add: ensureObject_def split: sum.splits)
    show "(\<forall>v. getProp2 pj1 ''scripts'' b = Inr (Some v) \<longrightarrow> \<not> truthy v) =
                  (\<forall>v. getProp2 pj ''scripts'' b = Inr (Some v) \<longrightarrow> \<not> truthy v)"
    proof (cases "js_not r")
      case True
      with e r have "setProp pj ''scripts'' (JObj []) = Inr pj1"
        by (simp add: ensureObject_def)
      from setProp_get [OF this, of "''scripts''"]
      have "getProp2 pj1 ''scripts'' b = Inr None"
        by (simp add: getProp2_def)
      with js_not_getProp2 [OF r True, of b] show ?thesis by simp
    next
      case False
      with e r have "pj1 = pj" by (simp add: ensureObject_def)
      then show ?thesis by simp
    qed
  qed
  have q4: "a = (\<exists>b \<in> {''prepare'', ''commit''}.
                \<forall>v. getProp2 pj ''scripts'' b = Inr (Some v) \<longrightarrow> \<not> truthy v)"
    using sp same by simp
  from q1 q2 q3 q4 show ?thesis by blast
qed

lemma writeCondition_after_patch:
  assumes "patchManifest pj = Inr (pj', a, out)"
  shows "writeCondition a pj' = Inr a"
proof -
  from patchManifest_post [OF assms] obtain c t where
    "getProp2 pj' ''config'' ''commitizen'' = Inr (Some c)" "truthy c"
    "getProp pj' ''type'' = Inr (Some t)" "truthy t"
    by blast
  then show ?thesis
    by (simp add: writeCondition_def)
qed

subsection \<open>Objects stay objects\<close>

lemma setProp_isObject:
  assumes "setProp v k x = Inr v'"
  shows "isObject v' = isObject v"
  using assms by (cases v) auto

lemma setProp2_isObject:
  assumes "setProp2 v a b x = Inr v'"
  shows "isObject v' = isObject v \<and>
         (\<exists>o1 o2. getProp v a = Inr (Some o1) \<and> getProp v' a = Inr (Some o2) \<and>
                  isObject o2 = isObject o1)"
proof -
  from assms obtain o1 o2 where g: "getProp v a = Inr (Some o1)"
    and s1: "setProp o1 b x = Inr o2" and s2: "setProp v a o2 = Inr v'"
    by (auto simp add: setProp2_def split: sum.splits option.splits)
  from setProp_get [OF s2, of a] have "getProp v' a = Inr (Some o2)" by simp
  with g setProp_isObject [OF s1] setProp_isObject [OF s2] show ?thesis by simp
qed

lemma ensureObject_isObject:
  assumes "ensureObject a pj = Inr pj1"
  shows "isObject pj1 = isObject pj"
  using assms setProp_isObject [of pj a "JObj []" pj1]
  by (auto simp add: ensureObject_def split: sum.splits if_splits)

lemma addScripts_isObject:
  assumes "addScripts l (pj, a, out) = Inr (pj', a', out')"
  shows "isObject pj' = isObject pj \<and>
         (\<forall>o1. getProp pj ''scripts'' = Inr (Some o1) \<longrightarrow>
            (\<exists>o2. getProp pj' ''scripts'' = Inr (Some o2) \<and> isObject o2 = isObject o1))"
  using assms
proof (induction l arbitrary: pj a out)
  case Nil
  then show ?case by simp
next
  case (Cons sc rest)
  obtain script command where sc: "sc = (script, command)" by (cases sc)
  from Cons.prems(1) sc obtain r where r: "getProp2 pj ''scripts'' script = Inr r"
    by (auto split: sum.splits)
  show ?case
  proof (cases "js_not r")
    case True
    with Cons.prems(1) sc r obtain pj1 where
      s: "setProp2 pj ''scripts'' script (JStr command) = Inr pj1" and
      go: "addScripts rest (pj1, True, out @ [''Added script: '' @ script]) = Inr (pj', a', out')"
      by (auto split: sum.splits)
    from Cons.IH [OF go] setProp2_isObject [OF s] show ?thesis
      by auto
  next
    case False
    with Cons.prems(1) sc r have
      go: "addScripts rest (pj, a, out) = Inr (pj', a', out')"
      by (auto split: sum.splits)
    from Cons.IH [OF go] show ?thesis .
  qed
qed

lemma addCommitizen_isObject:
  assumes "addCommitizen (pj, out) = Inr (pj', out')"
  shows "isObject pj' = isObject pj \<and>
         (\<forall>o1. getProp pj ''config'' = Inr (Some o1) \<and> isObject o1 \<longrightarrow>
            (\<exists>o2. getProp pj' ''config'' = Inr (Some o2) \<and> isObject o2))"
proof -
  from assms obtain pj1 r where e: "ensureObject ''config'' pj = Inr pj1"
    and r: "getProp2 pj1 ''config'' ''commitizen'' = Inr r"
    by (auto simp add: addCommitizen_def split: sum.splits)
  have keep: "\<forall>o1. getProp pj ''config'' = Inr (Some o1) \<and> isObject o1 \<longrightarrow> pj1 = pj"
  proof (intro allI impI)
    fix o1
    assume h: "getProp pj ''config'' = Inr (Some o1) \<and> isObject o1"
    then have "truthy o1" by (cases o1) auto
    with h have "ensureObject ''config'' pj = Inr pj" by (simp add: ensureObject_id)
    with e show "pj1 = pj" by simp
  qed
  show ?thesis
  proof (cases "js_not r")
    case True
    with assms e r have s: "setProp2 pj1 ''config'' ''commitizen'' commitizenConfig = Inr pj'"
      by (auto simp add: addCommitizen_def split: sum.splits)
    from setProp2_isObject [OF s] ensureObject_isObject [OF e] keep show ?thesis
      by auto
  next
    case False
    with assms e r have "pj' = pj1"
      by (auto simp add: addCommitizen_def split: sum.splits)
    with ensureObject_isObject [OF e] keep show ?thesis by auto
  qed
qed

lemma addType_isObject:
  assumes "addType (pj, out) = Inr (pj', out')"
  shows "isObject pj' = isObject pj"
  using assms setProp_isObject [of pj "''type''" "JStr ''module''" pj']
  by (auto simp add: addType_def split: sum.splits if_splits)

lemma patchManifest_isObject:
  assumes "patchManifest pj = Inr (pj', a, out)"
  shows "isObject pj' = isObject pj \<and>
         (\<forall>o1. getProp pj ''scripts'' = Inr (Some o1) \<and> isObject o1 \<longrightarrow>
            (\<exists>o2. getProp pj' ''scripts'' = Inr (Some o2) \<and> isObject o2)) \<and>
         (\<forall>o1. getProp pj ''config'' = Inr (Some o1) \<and> isObject o1 \<longrightarrow>
            (\<exists>o2. getProp pj' ''config'' = Inr (Some o2) \<and> isObject o2))"
proof -
  from assms obtain pj1 pj2 out2 pj3 out3 where
    e: "ensureObject ''scripts'' pj = Inr pj1" and
    s: "addScripts scriptsToAdd (pj1, False, []) = Inr (pj2, a, out2)" and
    c: "addCommitizen (pj2, out2) = Inr (pj3, out3)" and
    t: "addType (pj3, out3) = Inr (pj', out)"
    by (rule patchManifest_steps)
  note ep = ensureObject_props [OF e]
  note sp = addScripts_props [OF s scriptsToAdd_commands, unfolded scriptsToAdd_names]
  note cp = addCommitizen_props [OF c]
  note tp = addType_props [OF t]
  have k0: "isObject pj' = isObject pj"
    using ensureObject_isObject [OF e] addScripts_isObject [OF s]
      addCommitizen_isObject [OF c] addType_isObject [OF t]
    by simp
  have k1: "\<forall>o1. getProp pj ''scripts'' = Inr (Some o1) \<and> isObject o1 \<longrightarrow>
            (\<exists>o2. getProp pj' ''scripts'' = Inr (Some o2) \<and> isObject o2)"
  proof (intro allI impI)
    fix o1
    assume h: "getProp pj ''scripts'' = Inr (Some o1) \<and> isObject o1"
    then have "truthy o1" by (cases o1) auto
    with h have "ensureObject ''scripts'' pj = Inr pj" by (simp add: ensureObject_id)
    with e have "pj1 = pj" by simp
    with h addScripts_isObject [OF s]
    obtain o2 where "getProp pj2 ''scripts'' = Inr (Some o2)" "isObject o2"
      by auto
    with cp tp show "\<exists>o2. getProp pj' ''scripts'' = Inr (Some o2) \<and> isObject o2"
      by simp
  qed
  have k2: "\<forall>o1. getProp pj ''config'' = Inr (Some o1) \<and> isObject o1 \<longrightarrow>
            (\<exists>o2. getProp pj' ''config'' = Inr (Some o2) \<and> isObject o2)"
  proof (intro allI impI)
    fix o1
    assume h: "getProp pj ''config'' = Inr (Some o1) \<and> isObject o1"
    with ep sp have "getProp pj2 ''config'' = Inr (Some o1) \<and> isObject o1" by simp
    with addCommitizen_isObject [OF c]
    obtain o2 where "getProp pj3 ''config'' = Inr (Some o2)" "isObject o2"
      by blast
    with tp show "\<exists>o2. getProp pj' ''config'' = Inr (Some o2) \<and> isObject o2"
      by simp
  qed
  from k0 k1 k2 show ?thesis by blast
qed

subsection \<open>Serialization\<close>

lemma truthy_stringify [simp]: "truthy (stringify v) = truthy v"
  by (cases v) auto

lemma isObject_stringify [simp]: "isObject (stringify v) = isObject v"
  by (cases v) auto

lemma map_of_stringify:
  "map_of (map (map_prod id stringify) kvs) k = map_option stringify (map_of kvs k)"
  by (induction kvs) auto

lemma getProp_stringify:
  assumes "isObject v"
  shows "getProp (stringify v) k = map_sum id (map_option stringify) (getProp v k)"
  using assms by (cases v) (auto simp add: map_of_stringify)

lemma getProp2_stringify:
  assumes "isObject v" and "getProp v a = Inr (Some o1)" and "isObject o1"
  shows "getProp2 (stringify v) a b = map_sum id (map_option stringify) (getProp2 v a b)"
  using assms by (simp add: getProp2_def getProp_stringify)

lemma isJson_getProp:
  assumes "isJson v" and "getProp v k = Inr (Some x)"
  shows "isObject v \<and> isJson x"
proof (cases v)
  case (JObj kvs)
  with assms(1) have m: "map (map_prod id stringify) kvs = map id kvs"
    by (simp add: isJson_def)
  from JObj assms(2) have "(k, x) \<in> set kvs"
    by (auto dest: map_of_SomeD)
  with m have "map_prod id stringify (k, x) = id (k, x)"
    unfolding map_eq_conv by blast
  with JObj show ?thesis by (simp add: isJson_def)
next
  case (JArr xs ps)
  with assms show ?thesis by (auto simp add: isJson_def)
qed (use assms in auto)

subsection \<open>The whole manifest step\<close>

lemma readJson_ok:
  assumes "readJson w p = Inr pj"
  shows "\<exists>m. files w p = Some (File (Json pj) m)"
  using assms by (auto simp add: readJson_def split: option.splits node.splits content.splits)

lemma updatePackageJson_result:
  assumes f: "files w packageJsonPath = Some (File (Json pj) m)"
    and p: "patchManifest pj = Inr (pj', a, out)"
  shows "updatePackageJson w =
           Inr (say ''package.json updated''
                  (if a
                   then (sayAll out (say ''Updating package.json...'' w))
                          \<lparr>files := (files w)(packageJsonPath \<mapsto> File (Json (stringify pj')) m),
                           trace := trace w @ [WriteFile packageJsonPath]\<rparr>
                   else sayAll out (say ''Updating package.json...'' w)))"
proof -
  have r: "readJson (say ''Updating package.json...'' w) packageJsonPath = Inr pj"
    using f by (simp add: readJson_def)
  note wc = writeCondition_after_patch [OF p]
  show ?thesis
  proof (cases a)
    case True
    with wc r p f show ?thesis
      by (simp add: updatePackageJson_def writeJson_def)
  next
    case False
    with wc r p show ?thesis
      by (simp add: updatePackageJson_def)
  qed
qed

lemma updatePackageJson_failure:
  assumes "\<forall>pj m. files w packageJsonPath = Some (File (Json pj) m) \<longrightarrow>
             (\<forall>r. patchManifest pj \<noteq> Inr r)"
  shows "files (worldOf (updatePackageJson w)) = files w \<and>
         trace (worldOf (updatePackageJson w)) = trace w \<and>
         isl (updatePackageJson w)"
proof (cases "readJson (say ''Updating package.json...'' w) packageJsonPath")
  case (Inl err)
  then show ?thesis
    by (simp add: updatePackageJson_def worldOf_def)
next
  case (Inr pj)
  from readJson_ok [OF this] obtain m where "files w packageJsonPath = Some (File (Json pj) m)"
    by auto
  with assms have "\<forall>r. patchManifest pj \<noteq> Inr r" by blast
  then obtain err out where "patchManifest pj = Inl (err, out)"
    by (cases "patchManifest pj") auto
  with Inr show ?thesis
    by (simp add: updatePackageJson_def worldOf_def)
qed

lemma updatePackageJson_cases:
  obtains
    (failed) "isl (updatePackageJson w)"
      "files (worldOf (updatePackageJson w)) = files w"
      "trace (worldOf (updatePackageJson w)) = trace w"
  | (patched) pj m pj' a out where
      "files w packageJsonPath = Some (File (Json pj) m)"
      "patchManifest pj = Inr (pj', a, out)"
proof (cases "\<exists>pj m r. files w packageJsonPath = Some (File (Json pj) m) \<and> patchManifest pj = Inr r")
  case True
  then obtain pj m pj' a out where
    "files w packageJsonPath = Some (File (Json pj) m)" "patchManifest pj = Inr (pj', a, out)"
    by (metis prod_cases3)
  then show ?thesis by (rule patched)
next
  case False
  then have "\<forall>pj m. files w packageJsonPath = Some (File (Json pj) m) \<longrightarrow>
             (\<forall>r. patchManifest pj \<noteq> Inr r)"
    by blast
  from updatePackageJson_failure [OF this] show ?thesis
    by (intro failed) simp_all
qed

lemma updatePackageJson_frame:
  assumes "p \<noteq> packageJsonPath"
  shows "files (worldOf (updatePackageJson w)) p = files w p"
proof (cases w rule: updatePackageJson_cases)
  case failed
  then show ?thesis by simp
next
  case (patched pj m pj' a out)
  from updatePackageJson_result [OF patched] assms show ?thesis
    by (simp add: worldOf_def)
qed

subsection \<open>What serialization keeps of the patched manifest\<close>



subsection \<open>The values the patch leaves under the guarded keys\<close>

lemma isSet_iff: "isSet r = (\<exists>v. r = Inr (Some v) \<and> truthy v)"
proof (cases r)
  case (Inl err)
  then show ?thesis by simp
next
  case (Inr b)
  then show ?thesis by (cases b) auto
qed

lemma orDefault_unset:
  assumes "\<forall>x. r \<noteq> Inr (Some x)"
  shows "orDefault r d = d"
proof (cases r)
  case (Inl err)
  then show ?thesis by simp
next
  case (Inr b)
  with assms show ?thesis by (cases b) auto
qed

lemma ensureObject_orDefault:
  assumes "ensureObject a pj = Inr pj1"
  shows "orDefault (getProp2 pj1 a b) d = orDefault (getProp2 pj a b) d \<and>
         isSet (getProp2 pj1 a b) = isSet (getProp2 pj a b)"
proof -
  from assms obtain r where r: "getProp pj a = Inr r"
    by (auto simp add: ensureObject_def split: sum.splits)
  show ?thesis
  proof (cases "js_not r")
    case True
    with assms r have s: "setProp pj a (JObj []) = Inr pj1"
      by (simp add: ensureObject_def)
    from setProp_get [OF s, of a] have "getProp2 pj1 a b = Inr None"
      by (simp add: getProp2_def)
    moreover from js_not_getProp2 [OF r True, of b]
    have "\<forall>x. getProp2 pj a b \<noteq> Inr (Some x)" by blast
    ultimately show ?thesis
      using orDefault_unset [of "getProp2 pj a b" d] by (auto simp add: isSet_iff)
  next
    case False
    with assms r have "pj1 = pj" by (simp add: ensureObject_def)
    then show ?thesis by simp
  qed
qed

lemma addScripts_values:
  assumes "addScripts l (pj, a, out) = Inr (pj', a', out')"
    and "\<forall>sc \<in> set l. snd sc \<noteq> []"
    and "distinct (map fst l)"
    and "(b, c) \<in> set l"
  shows "getProp2 pj' ''scripts'' b = Inr (Some (orDefault (getProp2 pj ''scripts'' b) (JStr c)))"
  using assms
proof (induction l arbitrary: pj a out)
  case Nil
  then show ?case by simp
next
  case (Cons sc rest)
  obtain script command where sc: "sc = (script, command)" by (cases sc)
  from Cons.prems(2) sc have cmd: "command \<noteq> []" and rest: "\<forall>sc \<in> set rest. snd sc \<noteq> []"
    by auto
  from Cons.prems(3) sc have dist: "distinct (map fst rest)" and fresh: "script \<notin> fst ` set rest"
    by auto
  from Cons.prems(1) sc obtain r where r: "getProp2 pj ''scripts'' script = Inr r"
    by (auto split: sum.splits)
  show ?case
  proof (cases "js_not r")
    case True
    with Cons.prems(1) sc r obtain pj1 where
      s: "setProp2 pj ''scripts'' script (JStr command) = Inr pj1" and
      go: "addScripts rest (pj1, True, out @ [''Added script: '' @ script]) = Inr (pj', a', out')"
      by (auto split: sum.splits)
    note g2 = setProp2_get [OF s]
    note keep = addScripts_props [OF go rest]
    show ?thesis
    proof (cases "(b, c) \<in> set rest")
      case True
      with fresh have "b \<noteq> script" by force
      with g2 have "getProp2 pj1 ''scripts'' b = getProp2 pj ''scripts'' b" by simp
      with Cons.IH [OF go rest dist True] show ?thesis by simp
    next
      case False
      with Cons.prems(4) sc have bc: "b = script" "c = command" by auto
      from g2 have "getProp2 pj1 ''scripts'' script = Inr (Some (JStr command))" by simp
      with keep cmd fresh have "getProp2 pj' ''scripts'' script = Inr (Some (JStr command))"
        by auto
      moreover from True r have "orDefault (getProp2 pj ''scripts'' script) (JStr command) = JStr command"
        by (cases r) auto
      ultimately show ?thesis using bc by simp
    qed
  next
    case False
    with Cons.prems(1) sc r have
      go: "addScripts rest (pj, a, out) = Inr (pj', a', out')"
      by (auto split: sum.splits)
    note keep = addScripts_props [OF go rest]
    show ?thesis
    proof (cases "(b, c) \<in> set rest")
      case True
      from Cons.IH [OF go rest dist True] show ?thesis .
    next
      case F: False
      with Cons.prems(4) sc have bc: "b = script" "c = command" by auto
      from False r obtain v0 where v0: "r = Some v0" "truthy v0"
        by (cases r) auto
      with r keep fresh have "getProp2 pj' ''scripts'' script = Inr (Some v0)"
        by auto
      with r v0 bc show ?thesis by simp
    qed
  qed
qed

lemma addCommitizen_value:
  assumes "addCommitizen (pj, out) = Inr (pj', out')"
  shows "getProp2 pj' ''config'' ''commitizen'' =
           Inr (Some (orDefault (getProp2 pj ''config'' ''commitizen'') commitizenConfig))"
proof -
  from assms obtain pj1 r where e: "ensureObject ''config'' pj = Inr pj1"
    and r: "getProp2 pj1 ''config'' ''commitizen'' = Inr r"
    by (auto simp add: addCommitizen_def split: sum.splits)
  note eo = ensureObject_orDefault [OF e, of "''commitizen''" commitizenConfig]
  show ?thesis
  proof (cases "js_not r")
    case True
    with assms e r have s: "setProp2 pj1 ''config'' ''commitizen'' commitizenConfig = Inr pj'"
      by (auto simp add: addCommitizen_def split: sum.splits)
    from True r have "orDefault (getProp2 pj1 ''config'' ''commitizen'') commitizenConfig =
        commitizenConfig"
      by (cases r) auto
    with setProp2_get [OF s] eo show ?thesis by simp
  next
    case False
    with assms e r have eq: "pj' = pj1"
      by (auto simp add: addCommitizen_def split: sum.splits)
    from False r obtain v where "r = Some v" "truthy v" by (cases r) auto
    with r eo eq show ?thesis by simp
  qed
qed

lemma addType_value:
  assumes "addType (pj, out) = Inr (pj', out')"
  shows "getProp pj' ''type'' = Inr (Some (orDefault (getProp pj ''type'') (JStr ''module'')))"
proof -
  from assms obtain r where r: "getProp pj ''type'' = Inr r"
    by (auto simp add: addType_def split: sum.splits)
  show ?thesis
  proof (cases "js_not r")
    case True
    with assms r have s: "setProp pj ''type'' (JStr ''module'') = Inr pj'"
      by (auto simp add: addType_def split: sum.splits)
    from setProp_get [OF s] True r show ?thesis
      by (cases r) auto
  next
    case False
    with assms r have "pj' = pj"
      by (auto simp add: addType_def split: sum.splits)
    with False r show ?thesis
      by (cases r) auto
  qed
qed

lemma scriptsToAdd_distinct: "distinct (map fst scriptsToAdd)"
  by (simp add: scriptsToAdd_def)

lemma patchManifest_values:
  assumes "patchManifest pj = Inr (pj', a, out)"
  shows "getProp2 pj' ''scripts'' ''prepare'' =
           Inr (Some (orDefault (getProp2 pj ''scripts'' ''prepare'') (JStr ''husky''))) \<and>
         getProp2 pj' ''scripts'' ''commit'' =
           Inr (Some (orDefault (getProp2 pj ''scripts'' ''commit'') (JStr ''cz''))) \<and>
         getProp2 pj' ''config'' ''commitizen'' =
           Inr (Some (orDefault (getProp2 pj ''config'' ''commitizen'') commitizenConfig)) \<and>
         getProp pj' ''type'' = Inr (Some (orDefault (getProp pj ''type'') (JStr ''module''))) \<and>
         a = (\<not> isSet (getProp2 pj ''scripts'' ''prepare'') \<or>
              \<not> isSet (getProp2 pj ''scripts'' ''commit''))"
proof -
  from assms obtain pj1 pj2 out2 pj3 out3 where
    e: "ensureObject ''scripts'' pj = Inr pj1" and
    s: "addScripts scriptsToAdd (pj1, False, []) = Inr (pj2, a, out2)" and
    c: "addCommitizen (pj2, out2) = Inr (pj3, out3)" and
    t: "addType (pj3, out3) = Inr (pj', out)"
    by (rule patchManifest_steps)
  note ep = ensureObject_props [OF e]
  note sp = addScripts_props [OF s scriptsToAdd_commands, unfolded scriptsToAdd_names]
  note cp = addCommitizen_props [OF c]
  note tp = addType_props [OF t]
  note sv = addScripts_values [OF s scriptsToAdd_commands scriptsToAdd_distinct]
  have sc3: "getProp pj3 ''scripts'' = getProp pj2 ''scripts''"
    using cp by simp
  have sc4: "getProp pj' ''scripts'' = getProp pj3 ''scripts''"
    using tp by simp
  have cf1: "getProp pj1 ''config'' = getProp pj ''config''"
    using ep by simp
  have cf2: "getProp pj2 ''config'' = getProp pj1 ''config''"
    using sp by simp
  have cf4: "getProp pj' ''config'' = getProp pj3 ''config''"
    using tp by simp
  have ty: "getProp pj3 ''type'' = getProp pj ''type''"
    using ep sp cp by simp
  have m1: "(''prepare'', ''husky'') \<in> set scriptsToAdd" and m2: "(''commit'', ''cz'') \<in> set scriptsToAdd"
    by (simp_all add: scriptsToAdd_def)
  have v1: "getProp2 pj' ''scripts'' ''prepare'' =
           Inr (Some (orDefault (getProp2 pj ''scripts'' ''prepare'') (JStr ''husky'')))"
    using sv [OF m1] ensureObject_orDefault [OF e, of "''prepare''" "JStr ''husky''"]
    by (simp add: getProp2_cong [OF sc3] getProp2_cong [OF sc4])
  have v2: "getProp2 pj' ''scripts'' ''commit'' =
           Inr (Some (orDefault (getProp2 pj ''scripts'' ''commit'') (JStr ''cz'')))"
    using sv [OF m2] ensureObject_orDefault [OF e, of "''commit''" "JStr ''cz''"]
    by (simp add: getProp2_cong [OF sc3] getProp2_cong [OF sc4])
  have v3: "getProp2 pj' ''config'' ''commitizen'' =
           Inr (Some (orDefault (getProp2 pj ''config'' ''commitizen'') commitizenConfig))"
    using addCommitizen_value [OF c]
    by (simp add: getProp2_cong [OF cf1] getProp2_cong [OF cf2] getProp2_cong [OF cf4])
  have v4: "getProp pj' ''type'' = Inr (Some (orDefault (getProp pj ''type'') (JStr ''module'')))"
    using addType_value [OF t] ty by simp
  from patchManifest_post [OF assms]
  have "a = (\<exists>b \<in> {''prepare'', ''commit''}.
                \<forall>v. getProp2 pj ''scripts'' b = Inr (Some v) \<longrightarrow> \<not> truthy v)"
    by (elim conjE)
  then have v5: "a = (\<not> isSet (getProp2 pj ''scripts'' ''prepare'') \<or>
              \<not> isSet (getProp2 pj ''scripts'' ''commit''))"
    by (auto simp add: isSet_iff)
  from v1 v2 v3 v4 v5 show ?thesis by (intro conjI)
qed

subsection \<open>On a key-value document the patch returns\<close>

lemma isObject_getProp:
  assumes "isObject v"
  shows "\<exists>r. getProp v k = Inr r"
  using assms by (cases v) auto

lemma isObject_setProp:
  assumes "isObject v"
  shows "\<exists>v'. setProp v k x = Inr v'"
  using assms by (cases v) auto

lemma isObject_truthy:
  assumes "isObject v"
  shows "truthy v"
  using assms by (cases v) auto

lemma ensureObject_total:
  assumes "isObject pj"
  shows "\<exists>pj1. ensureObject a pj = Inr pj1"
proof -
  from isObject_getProp [OF assms] obtain r where "getProp pj a = Inr r" ..
  moreover from isObject_setProp [OF assms] obtain v' where "setProp pj a (JObj []) = Inr v'" ..
  ultimately show ?thesis by (simp add: ensureObject_def)
qed

lemma ensureObject_mapping:
  assumes e: "ensureObject a pj = Inr pj1" and m: "mappingOrUnset (getProp pj a)"
  shows "\<exists>o1. getProp pj1 a = Inr (Some o1) \<and> isObject o1"
proof -
  from e obtain r where r: "getProp pj a = Inr r"
    by (auto simp add: ensureObject_def split: sum.splits)
  show ?thesis
  proof (cases "js_not r")
    case True
    with e r have s: "setProp pj a (JObj []) = Inr pj1"
      by (simp add: ensureObject_def)
    from setProp_get [OF s, of a] show ?thesis by simp
  next
    case False
    with e r have "pj1 = pj" by (simp add: ensureObject_def)
    with False r m show ?thesis by (cases r) auto
  qed
qed

lemma setProp2_total:
  assumes "isObject v" and "getProp v a = Inr (Some o1)" and "isObject o1"
  shows "\<exists>v'. setProp2 v a b x = Inr v'"
proof -
  from isObject_setProp [OF assms(3)] obtain o2 where "setProp o1 b x = Inr o2" ..
  moreover from isObject_setProp [OF assms(1)] obtain v' where "setProp v a o2 = Inr v'" ..
  ultimately show ?thesis using assms(2) by (simp add: setProp2_def)
qed

lemma addScripts_total:
  assumes "isObject pj" and "getProp pj ''scripts'' = Inr (Some o1)" and "isObject o1"
  shows "\<exists>r. addScripts l (pj, a, out) = Inr r"
  using assms
proof (induction l arbitrary: pj a out o1)
  case Nil
  show ?case by simp
next
  case (Cons sc rest)
  obtain script command where sc: "sc = (script, command)" by (cases sc)
  from isObject_getProp [OF Cons.prems(3)] obtain r where "getProp o1 script = Inr r" ..
  with Cons.prems(2) have r: "getProp2 pj ''scripts'' script = Inr r"
    by (simp add: getProp2_def)
  show ?case
  proof (cases "js_not r")
    case True
    from setProp2_total [OF Cons.prems] obtain pj1 where
      s: "setProp2 pj ''scripts'' script (JStr command) = Inr pj1" ..
    from setProp2_isObject [OF s] Cons.prems obtain o2 where
      "isObject pj1" "getProp pj1 ''scripts'' = Inr (Some o2)" "isObject o2"
      by auto
    from Cons.IH [OF this] sc r True s show ?thesis by simp
  next
    case False
    with Cons.IH [OF Cons.prems] sc r show ?thesis by simp
  qed
qed

lemma addCommitizen_total:
  assumes o: "isObject pj" and m: "mappingOrUnset (getProp pj ''config'')"
  shows "\<exists>r. addCommitizen (pj, out) = Inr r"
proof -
  from ensureObject_total [OF o] obtain pj1 where e: "ensureObject ''config'' pj = Inr pj1" ..
  from ensureObject_isObject [OF e] o have o1: "isObject pj1" by simp
  from ensureObject_mapping [OF e m] obtain c where c: "getProp pj1 ''config'' = Inr (Some c)"
    and oc: "isObject c" by blast
  from isObject_getProp [OF oc] obtain r where "getProp c ''commitizen'' = Inr r" ..
  with c have r: "getProp2 pj1 ''config'' ''commitizen'' = Inr r"
    by (simp add: getProp2_def)
  from setProp2_total [OF o1 c oc] obtain pj2 where
    "setProp2 pj1 ''config'' ''commitizen'' commitizenConfig = Inr pj2" ..
  with e r show ?thesis
    by (simp add: addCommitizen_def)
qed

lemma addType_total:
  assumes "isObject pj"
  shows "\<exists>r. addType (pj, out) = Inr r"
proof -
  from isObject_getProp [OF assms] obtain r where "getProp pj ''type'' = Inr r" ..
  moreover from isObject_setProp [OF assms] obtain v' where
    "setProp pj ''type'' (JStr ''module'') = Inr v'" ..
  ultimately show ?thesis by (simp add: addType_def)
qed

lemma patchManifest_total:
  assumes "keyValueDocument pj"
  shows "\<exists>pj' a out. patchManifest pj = Inr (pj', a, out)"
proof -
  from assms have o: "isObject pj" and ms: "mappingOrUnset (getProp pj ''scripts'')"
    and mc: "mappingOrUnset (getProp pj ''config'')"
    by (simp_all add: keyValueDocument_def)
  from ensureObject_total [OF o] obtain pj1 where e: "ensureObject ''scripts'' pj = Inr pj1" ..
  from ensureObject_isObject [OF e] o have o1: "isObject pj1" by simp
  from ensureObject_mapping [OF e ms] obtain s1 where s1: "getProp pj1 ''scripts'' = Inr (Some s1)"
    and os1: "isObject s1" by blast
  from addScripts_total [OF o1 s1 os1] obtain r where
    "addScripts scriptsToAdd (pj1, False, []) = Inr r" ..
  then obtain pj2 a out2 where s: "addScripts scriptsToAdd (pj1, False, []) = Inr (pj2, a, out2)"
    by (cases r) auto
  from addScripts_isObject [OF s] o1 have o2: "isObject pj2" by simp
  from ensureObject_props [OF e] addScripts_props [OF s scriptsToAdd_commands] mc
  have mc2: "mappingOrUnset (getProp pj2 ''config'')" by simp
  from addCommitizen_total [OF o2 mc2] obtain r3 where "addCommitizen (pj2, out2) = Inr r3" ..
  then obtain pj3 out3 where c: "addCommitizen (pj2, out2) = Inr (pj3, out3)"
    by (cases r3) auto
  from addCommitizen_isObject [OF c] o2 have o3: "isObject pj3" by simp
  from addType_total [OF o3] obtain r4 where "addType (pj3, out3) = Inr r4" ..
  then obtain pj4 out4 where t: "addType (pj3, out3) = Inr (pj4, out4)"
    by (cases r4) auto
  from e s c t have "patchManifest pj = Inr (pj4, a, out4)"
    by (simp add: patchManifest_def)
  then show ?thesis by blast
qed

lemma patchManifest_mappings:
  assumes k: "keyValueDocument pj" and p: "patchManifest pj = Inr (pj', a, out)"
  shows "isObject pj' \<and>
         (\<exists>o1. getProp pj' ''scripts'' = Inr (Some o1) \<and> isObject o1) \<and>
         (\<exists>o1. getProp pj' ''config'' = Inr (Some o1) \<and> isObject o1)"
proof -
  from k have o: "isObject pj" and ms: "mappingOrUnset (getProp pj ''scripts'')"
    and mc: "mappingOrUnset (getProp pj ''config'')"
    by (simp_all add: keyValueDocument_def)
  from p obtain pj1 pj2 out2 pj3 out3 where
    e: "ensureObject ''scripts'' pj = Inr pj1" and
    s: "addScripts scriptsToAdd (pj1, False, []) = Inr (pj2, a, out2)" and
    c: "addCommitizen (pj2, out2) = Inr (pj3, out3)" and
    t: "addType (pj3, out3) = Inr (pj', out)"
    by (rule patchManifest_steps)
  note ep = ensureObject_props [OF e]
  note sp = addScripts_props [OF s scriptsToAdd_commands]
  note cp = addCommitizen_props [OF c]
  note tp = addType_props [OF t]
  from patchManifest_isObject [OF p] o have a1: "isObject pj'" by simp
  from ensureObject_mapping [OF e ms] obtain s1 where "getProp pj1 ''scripts'' = Inr (Some s1)"
    "isObject s1" by blast
  with addScripts_isObject [OF s] obtain s2 where "getProp pj2 ''scripts'' = Inr (Some s2)"
    "isObject s2" by auto
  with cp tp have a2: "\<exists>o1. getProp pj' ''scripts'' = Inr (Some o1) \<and> isObject o1"
    by simp
  from c obtain pj2' where e2: "ensureObject ''config'' pj2 = Inr pj2'"
    by (auto simp add: addCommitizen_def split: sum.splits)
  from ep sp mc have mc2: "mappingOrUnset (getProp pj2 ''config'')" by simp
  from ensureObject_mapping [OF e2 mc2] obtain c1 where c1: "getProp pj2' ''config'' = Inr (Some c1)"
    "isObject c1" by blast
  have "\<exists>o1. getProp pj3 ''config'' = Inr (Some o1) \<and> isObject o1"
  proof (cases "pj3 = pj2'")
    case True
    with c1 show ?thesis by simp
  next
    case False
    with c e2 have s2: "setProp2 pj2' ''config'' ''commitizen'' commitizenConfig = Inr pj3"
      by (auto simp add: addCommitizen_def split: sum.splits if_splits)
    from setProp2_isObject [OF s2] c1 show ?thesis by auto
  qed
  with tp have a3: "\<exists>o1. getProp pj' ''config'' = Inr (Some o1) \<and> isObject o1"
    by simp
  from a1 a2 a3 show ?thesis by (intro conjI)
qed

subsection \<open>The values on disk after a write-back\<close>

lemma isJson_getProp2:
  assumes "isJson pj" and "getProp2 pj a b = Inr (Some v)"
  shows "isJson v"
proof -
  from assms(2) obtain o1 where "getProp pj a = Inr (Some o1)" "getProp o1 b = Inr (Some v)"
    by (auto simp add: getProp2_def split: sum.splits option.splits)
  with isJson_getProp [OF assms(1)] isJson_getProp [of o1 b v] show ?thesis by blast
qed

lemma stringify_orDefault:
  assumes "\<forall>v. r = Inr (Some v) \<longrightarrow> isJson v" and "isJson d"
  shows "stringify (orDefault r d) = orDefault r d"
proof (cases r)
  case (Inl err)
  with assms show ?thesis by (simp add: isJson_def)
next
  case (Inr b)
  with assms show ?thesis by (cases b) (auto simp add: isJson_def)
qed

lemma written_values:
  assumes j: "isJson pj" and k: "keyValueDocument pj"
    and p: "patchManifest pj = Inr (pj', a, out)"
  shows "getProp2 (stringify pj') ''scripts'' ''prepare'' =
           Inr (Some (orDefault (getProp2 pj ''scripts'' ''prepare'') (JStr ''husky''))) \<and>
         getProp2 (stringify pj') ''scripts'' ''commit'' =
           Inr (Some (orDefault (getProp2 pj ''scripts'' ''commit'') (JStr ''cz''))) \<and>
         getProp2 (stringify pj') ''config'' ''commitizen'' =
           Inr (Some (orDefault (getProp2 pj ''config'' ''commitizen'') commitizenConfig)) \<and>
         getProp (stringify pj') ''type'' =
           Inr (Some (orDefault (getProp pj ''type'') (JStr ''module'')))"
proof -
  note v = patchManifest_values [OF p]
  from patchManifest_mappings [OF k p] obtain s1 c1 where
    o: "isObject pj'" and
    s1: "getProp pj' ''scripts'' = Inr (Some s1)" "isObject s1" and
    c1: "getProp pj' ''config'' = Inr (Some c1)" "isObject c1"
    by blast
  note gs = getProp2_stringify [OF o s1]
  note gc = getProp2_stringify [OF o c1]
  note gt = getProp_stringify [OF o]
  have j2: "\<forall>v. getProp2 pj x y = Inr (Some v) \<longrightarrow> isJson v" for x y
    using isJson_getProp2 [OF j] by blast
  have j1: "\<forall>v. getProp pj x = Inr (Some v) \<longrightarrow> isJson v" for x
    using isJson_getProp [OF j] by blast
  have d1: "isJson (JStr ''husky'')" "isJson (JStr ''cz'')" "isJson (JStr ''module'')"
    "isJson commitizenConfig"
    by (simp_all add: isJson_def commitizenConfig_def)
  from v gs [of "''prepare''"] stringify_orDefault [OF j2 d1(1)]
  have a1: "getProp2 (stringify pj') ''scripts'' ''prepare'' =
           Inr (Some (orDefault (getProp2 pj ''scripts'' ''prepare'') (JStr ''husky'')))"
    by simp
  from v gs [of "''commit''"] stringify_orDefault [OF j2 d1(2)]
  have a2: "getProp2 (stringify pj') ''scripts'' ''commit'' =
           Inr (Some (orDefault (getProp2 pj ''scripts'' ''commit'') (JStr ''cz'')))"
    by simp
  from v gc [of "''commitizen''"] stringify_orDefault [OF j2 d1(4)]
  have a3: "getProp2 (stringify pj') ''config'' ''commitizen'' =
           Inr (Some (orDefault (getProp2 pj ''config'' ''commitizen'') commitizenConfig))"
    by simp
  from v gt [of "''type''"] stringify_orDefault [OF j1 d1(3)]
  have a4: "getProp (stringify pj') ''type'' =
           Inr (Some (orDefault (getProp pj ''type'') (JStr ''module'')))"
    by simp
  from a1 a2 a3 a4 show ?thesis by (intro conjI)
qed



text \<open>
  Claim C2, at a manifest that has both scripts and neither \<^verbatim>\<open>config\<close> nor \<^verbatim>\<open>type\<close>. The
  step adds \<^verbatim>\<open>config.commitizen\<close> and \<^verbatim>\<open>type\<close> to the manifest in memory and says so, but
  performs no write: the file is what it was. In the condition of the write-back,
  \<^verbatim>\<open>!packageJson.config.commitizen\<close> and \<^verbatim>\<open>!packageJson.type\<close> are evaluated after both
  fields have been set, so they are always false (lemma \<open>writeCondition_after_patch\<close>)
  and the write happens exactly when a script was added.
\<close>

theorem updatePackageJson_skips_write_back:
  "getProp scriptsOnlyManifest ''config'' = Inr None \<and>
   getProp scriptsOnlyManifest ''type'' = Inr None \<and>
   \<not> isl (updatePackageJson (manifestOnly scriptsOnlyManifest)) \<and>
   console (worldOf (updatePackageJson (manifestOnly scriptsOnlyManifest))) =
     [Out ''Updating package.json...'',
      Out ''Added commitizen configuration'',
      Out ''Added ES module support'',
      Out ''package.json updated''] \<and>
   trace (worldOf (updatePackageJson (manifestOnly scriptsOnlyManifest))) = [] \<and>
   files (worldOf (updatePackageJson (manifestOnly scriptsOnlyManifest))) ''package.json'' =
     Some (File (Json scriptsOnlyManifest) 420)"
  by (simp add: step_defs example_defs worldOf_def)



section \<open>Whole runs\<close>

subsection \<open>What the steps print\<close>

lemma copyOne_console:
  "\<exists>l. console (worldOf (copyOne e f w)) = console w @ l"
proof (cases "ensureDir w (dirname (dest f))")
  case (Inl err)
  then have "worldOf (copyOne e f w) = w"
    by (simp add: copyOne_def worldOf_def)
  then show ?thesis by simp
next
  case (Inr w1)
  note c1 = ensureDir_console [OF Inr]
  show ?thesis
  proof (cases "pathExists w1 (dest f) \<and> \<not> startsWith (dest f) ''.husky/''")
    case True
    with Inr have "worldOf (copyOne e f w) = say (dest f @ '' already exists, skipping...'') w1"
      by (simp add: copyOne_def Let_def worldOf_def)
    with c1 show ?thesis by simp
  next
    case False
    show ?thesis
    proof (cases "copy e w1 (src f) (dest f)")
      case (Inl err)
      with Inr False have "worldOf (copyOne e f w) = w1"
        by (auto simp add: copyOne_def Let_def worldOf_def)
      with c1 show ?thesis by simp
    next
      case w2: (Inr w2)
      from copy_files [OF w2] have c2: "console w2 = console w1" by blast
      from copy_files [OF w2] obtain c m where
        f2: "files w2 = (files w1)(dest f \<mapsto> File c m)"
        by blast
      show ?thesis
      proof (cases "startsWith (dest f) ''.husky/''")
        case True
        show ?thesis
        proof (cases "chmod w2 (dest f) 493")
          case (Inl err)
          with Inr False w2 True have "worldOf (copyOne e f w) = w2"
            by (auto simp add: copyOne_def Let_def worldOf_def)
          with c1 c2 show ?thesis by simp
        next
          case w3: (Inr w3)
          from f2 have "files w2 (dest f) = Some (File c m)" by simp
          from chmod_files [OF w3 this] have c3: "console w3 = console w2" by simp
          from Inr False w2 True w3
          have "worldOf (copyOne e f w) =
                  say ((if pathExists w3 (dest f) then ''Updated'' else ''Created'') @
                          '' '' @ dest f) w3"
            by (auto simp add: copyOne_def Let_def worldOf_def)
          with c1 c2 c3 show ?thesis by simp
        qed
      next
        case F: False
        from Inr False w2 F have "worldOf (copyOne e f w) = say (''Created'' @ '' '' @ dest f) w2"
          by (auto simp add: copyOne_def Let_def worldOf_def)
        with c1 c2 show ?thesis by simp
      qed
    qed
  qed
qed

lemma copyLoop_console:
  "\<exists>l. console (worldOf (copyLoop e fs w)) = console w @ l"
proof (induction fs arbitrary: w)
  case Nil
  show ?case by simp
next
  case (Cons f rest)
  from copyOne_console [of e f w] obtain l1 where
    one: "console (worldOf (copyOne e f w)) = console w @ l1" ..
  show ?case
  proof (cases "copyOne e f w")
    case (Inl x)
    then have "worldOf (copyLoop e (f # rest) w) = worldOf (copyOne e f w)"
      by (simp add: copyLoop_Cons_world)
    with one show ?thesis by simp
  next
    case (Inr w1)
    then have eq: "worldOf (copyLoop e (f # rest) w) = worldOf (copyLoop e rest w1)"
      and w1: "worldOf (copyOne e f w) = w1"
      by (simp_all add: copyLoop_Cons_world)
    from Cons.IH [of w1] obtain l2 where "console (worldOf (copyLoop e rest w1)) = console w1 @ l2" ..
    with one w1 eq show ?thesis by simp
  qed
qed

lemma copyConfigFiles_console:
  "\<exists>l. console (worldOf (copyConfigFiles e w)) =
         console w @ Out ''Copying configuration files...'' # l"
proof -
  let ?w0 = "say ''Copying configuration files...'' w"
  from copyLoop_console [of e filesToCopy ?w0] obtain l where
    l: "console (worldOf (copyLoop e filesToCopy ?w0)) = console ?w0 @ l" ..
  show ?thesis
  proof (cases "copyLoop e filesToCopy ?w0")
    case (Inl x)
    then have "worldOf (copyConfigFiles e w) = worldOf (copyLoop e filesToCopy ?w0)"
      by (simp add: copyConfigFiles_def worldOf_def)
    with l show ?thesis by simp
  next
    case (Inr w1)
    then have "worldOf (copyConfigFiles e w) = say ''Configuration files copied'' w1"
      by (simp add: copyConfigFiles_def)
    with l Inr show ?thesis by simp
  qed
qed

lemma updatePackageJson_console:
  "\<exists>l. console (worldOf (updatePackageJson w)) = console w @ Out ''Updating package.json...'' # l"
proof (cases "readJson (say ''Updating package.json...'' w) packageJsonPath")
  case (Inl err)
  then show ?thesis
    by (simp add: updatePackageJson_def worldOf_def)
next
  case (Inr pj)
  from readJson_ok [OF this] obtain m where f: "files w packageJsonPath = Some (File (Json pj) m)"
    by auto
  show ?thesis
  proof (cases "patchManifest pj")
    case (Inl x)
    with Inr show ?thesis
      by (cases x) (simp add: updatePackageJson_def worldOf_def)
  next
    case r: (Inr r)
    obtain pj' a out where "r = (pj', a, out)" by (cases r)
    with r updatePackageJson_result [OF f] show ?thesis
      by (cases a) simp_all
  qed
qed

text \<open>
  Claim C7. Once the precondition check has passed: if the installation succeeds, then
  whatever the hooks manager does (exit status and changes to the tree alike)
  \<open>initializeHusky\<close> returns normally, prints the progress line and either the success line
  or the warning, and the run goes on from the world \<open>w3\<close> it leaves with template
  materialization, then the manifest patch, then the summary:
  \<^item> the outcome of the run is the outcome of \<open>copyConfigFiles\<close> on \<open>w3\<close>, then of
    \<open>updatePackageJson\<close> on what it returns, then of \<open>showSuccess\<close>, the first error (if any)
    ending the run with exit code \<open>1\<close>;
  \<^item> the first line printed after those of \<open>initializeHusky\<close> is the progress line of
    template materialization;
  \<^item> if materialization returns, the next line printed is the progress line of the
    manifest patch;
  \<^item> if the patch returns too, the summary is printed and the exit code is \<open>0\<close>.
  If instead the installation command fails, the run ends there with exit code \<open>1\<close> and
  the error line: the installation command is the last thing the tool did.
\<close>

theorem husky_failure_is_not_fatal:
  assumes pre: "checkPrerequisites e (say ''Setting up development workflow configuration...'' w) = Inr w1"
  shows "(\<forall>w2. installDependencies e w1 = Inr w2 \<longrightarrow>
            (\<exists>w3. initializeHusky e w2 = Inr w3 \<and>
                  files w3 = snd (exec e ''npx husky init'' (files w2)) \<and>
                  trace w3 = trace w2 @ [Exec ''npx husky init''] \<and>
                  console w3 =
                    console w2 @
                      [Out ''Initializing Husky...'',
                       Out (case fst (exec e ''npx husky init'' (files w2)) of
                              ExecOk \<Rightarrow> ''Husky initialized''
                            | ExecFailed m \<Rightarrow> ''Husky may already be initialized'')] \<and>
                  run e w =
                    (case copyConfigFiles e w3 of
                       Inl (err, w') \<Rightarrow> (1, say_err (''Setup failed: '' @ message err) w')
                     | Inr w4 \<Rightarrow>
                         (case updatePackageJson w4 of
                            Inl (err, w') \<Rightarrow> (1, say_err (''Setup failed: '' @ message err) w')
                          | Inr w5 \<Rightarrow>
                              (case showSuccess w5 of
                                 Inl (err, w') \<Rightarrow>
                                   (1, say_err (''Setup failed: '' @ message err) w')
                               | Inr w6 \<Rightarrow> (0, w6)))) \<and>
                  (\<exists>l. console (snd (run e w)) =
                         console w3 @ Out ''Copying configuration files...'' # l) \<and>
                  (\<forall>w4. copyConfigFiles e w3 = Inr w4 \<longrightarrow>
                     (\<exists>l. console (snd (run e w)) =
                            console w4 @ Out ''Updating package.json...'' # l)) \<and>
                  (\<forall>w4 w5. copyConfigFiles e w3 = Inr w4 \<and> updatePackageJson w4 = Inr w5 \<longrightarrow>
                     fst (run e w) = 0 \<and>
                     (\<exists>l. console (snd (run e w)) =
                            console w5 @ Out ''Development workflow setup complete!'' # l)))) \<and>
         (\<forall>m. fst (exec e (installCmd w1) (files w1)) = ExecFailed m \<longrightarrow>
            fst (run e w) = 1 \<and>
            trace (snd (run e w)) = trace w1 @ [Exec (installCmd w1)] \<and>
            console (snd (run e w)) =
              console w1 @
                [Out ''Installing development dependencies...'',
                 Err (''Setup failed: Failed to install dependencies: '' @ m)])"
proof (intro conjI allI impI)
  fix w2
  assume inst: "installDependencies e w1 = Inr w2"
  let ?w3 = "say (case fst (exec e ''npx husky init'' (files w2)) of
                 ExecOk \<Rightarrow> ''Husky initialized''
               | ExecFailed m \<Rightarrow> ''Husky may already be initialized'')
            ((say ''Initializing Husky...'' w2)
               \<lparr>files := snd (exec e ''npx husky init'' (files w2)),
                trace := trace w2 @ [Exec ''npx husky init'']\<rparr>)"
  have h: "initializeHusky e w2 = Inr ?w3"
    by (rule initializeHusky_result)
  have r: "run e w =
                    (case copyConfigFiles e ?w3 of
                       Inl (err, w') \<Rightarrow> (1, say_err (''Setup failed: '' @ message err) w')
                     | Inr w4 \<Rightarrow>
                         (case updatePackageJson w4 of
                            Inl (err, w') \<Rightarrow> (1, say_err (''Setup failed: '' @ message err) w')
                          | Inr w5 \<Rightarrow>
                              (case showSuccess w5 of
                                 Inl (err, w') \<Rightarrow>
                                   (1, say_err (''Setup failed: '' @ message err) w')
                               | Inr w6 \<Rightarrow> (0, w6))))"
    by (simp add: run_def allSteps_def remainingSteps_def andThen_def catchAndExit_def pre inst h
          split: sum.splits prod.splits)
  have p: "\<exists>l. console (snd (run e w)) =
                         console ?w3 @ Out ''Copying configuration files...'' # l"
  proof -
    from copyConfigFiles_console [of e ?w3] obtain l1 where
      l1: "console (worldOf (copyConfigFiles e ?w3)) =
             console ?w3 @ Out ''Copying configuration files...'' # l1" ..
    show ?thesis
    proof (cases "copyConfigFiles e ?w3")
      case (Inl x)
      obtain err w' where x: "x = (err, w')" by (cases x)
      with Inl l1 have "console w' = console ?w3 @ Out ''Copying configuration files...'' # l1"
        by (simp add: worldOf_def)
      with Inl x show ?thesis
        unfolding r by simp
    next
      case (Inr w4)
      with l1 have c4: "console w4 = console ?w3 @ Out ''Copying configuration files...'' # l1"
        by simp
      from updatePackageJson_console [of w4] obtain l2 where
        l2: "console (worldOf (updatePackageJson w4)) =
               console w4 @ Out ''Updating package.json...'' # l2" ..
      show ?thesis
      proof (cases "updatePackageJson w4")
        case (Inl x)
        obtain err w' where x: "x = (err, w')" by (cases x)
        with Inl l2 have "console w' = console w4 @ Out ''Updating package.json...'' # l2"
          by (simp add: worldOf_def)
        with Inr Inl x c4 show ?thesis
          unfolding r by simp
      next
        case w5: (Inr w5)
        with l2 have "console w5 = console w4 @ Out ''Updating package.json...'' # l2" by simp
        with Inr w5 c4 show ?thesis
          unfolding r by (simp add: showSuccess_def)
      qed
    qed
  qed
  have q1: "\<forall>w4. copyConfigFiles e ?w3 = Inr w4 \<longrightarrow>
                     (\<exists>l. console (snd (run e w)) =
                            console w4 @ Out ''Updating package.json...'' # l)"
  proof (intro allI impI)
    fix w4
    assume c4: "copyConfigFiles e ?w3 = Inr w4"
    from updatePackageJson_console [of w4] obtain l2 where
      l2: "console (worldOf (updatePackageJson w4)) =
             console w4 @ Out ''Updating package.json...'' # l2" ..
    show "\<exists>l. console (snd (run e w)) = console w4 @ Out ''Updating package.json...'' # l"
    proof (cases "updatePackageJson w4")
      case (Inl x)
      obtain err w' where x: "x = (err, w')" by (cases x)
      with Inl l2 have "console w' = console w4 @ Out ''Updating package.json...'' # l2"
        by (simp add: worldOf_def)
      with c4 Inl x show ?thesis
        unfolding r by simp
    next
      case w5: (Inr w5)
      with l2 have "console w5 = console w4 @ Out ''Updating package.json...'' # l2" by simp
      with c4 w5 show ?thesis
        unfolding r by (simp add: showSuccess_def)
    qed
  qed
  have q2: "\<forall>w4 w5. copyConfigFiles e ?w3 = Inr w4 \<and> updatePackageJson w4 = Inr w5 \<longrightarrow>
                     fst (run e w) = 0 \<and>
                     (\<exists>l. console (snd (run e w)) =
                            console w5 @ Out ''Development workflow setup complete!'' # l)"
    unfolding r by (auto simp add: showSuccess_def)
  have f: "files ?w3 = snd (exec e ''npx husky init'' (files w2))"
    by simp
  have t: "trace ?w3 = trace w2 @ [Exec ''npx husky init'']"
    by simp
  have c: "console ?w3 = console w2 @
                      [Out ''Initializing Husky...'',
                       Out (case fst (exec e ''npx husky init'' (files w2)) of
                              ExecOk \<Rightarrow> ''Husky initialized''
                            | ExecFailed m \<Rightarrow> ''Husky may already be initialized'')]"
    by simp
  from h r p q1 q2 f t c
  show "\<exists>w3. initializeHusky e w2 = Inr w3 \<and>
                  files w3 = snd (exec e ''npx husky init'' (files w2)) \<and>
                  trace w3 = trace w2 @ [Exec ''npx husky init''] \<and>
                  console w3 =
                    console w2 @
                      [Out ''Initializing Husky...'',
                       Out (case fst (exec e ''npx husky init'' (files w2)) of
                              ExecOk \<Rightarrow> ''Husky initialized''
                            | ExecFailed m \<Rightarrow> ''Husky may already be initialized'')] \<and>
                  run e w =
                    (case copyConfigFiles e w3 of
                       Inl (err, w') \<Rightarrow> (1, say_err (''Setup failed: '' @ message err) w')
                     | Inr w4 \<Rightarrow>
                         (case updatePackageJson w4 of
                            Inl (err, w') \<Rightarrow> (1, say_err (''Setup failed: '' @ message err) w')
                          | Inr w5 \<Rightarrow>
                              (case showSuccess w5 of
                                 Inl (err, w') \<Rightarrow>
                                   (1, say_err (''Setup failed: '' @ message err) w')
                               | Inr w6 \<Rightarrow> (0, w6)))) \<and>
                  (\<exists>l. console (snd (run e w)) =
                         console w3 @ Out ''Copying configuration files...'' # l) \<and>
                  (\<forall>w4. copyConfigFiles e w3 = Inr w4 \<longrightarrow>
                     (\<exists>l. console (snd (run e w)) =
                            console w4 @ Out ''Updating package.json...'' # l)) \<and>
                  (\<forall>w4 w5. copyConfigFiles e w3 = Inr w4 \<and> updatePackageJson w4 = Inr w5 \<longrightarrow>
                     fst (run e w) = 0 \<and>
                     (\<exists>l. console (snd (run e w)) =
                            console w5 @ Out ''Development workflow setup complete!'' # l))"
    by blast
next
  fix m
  assume ex: "fst (exec e (installCmd w1) (files w1)) = ExecFailed m"
  have inst: "installDependencies e w1 =
          Inl (InstallFailed m,
               (say ''Installing development dependencies...'' w1)
                 \<lparr>files := snd (exec e (installCmd w1) (files w1)),
                  trace := trace w1 @ [Exec (installCmd w1)]\<rparr>)"
    by (simp add: installDependencies_result ex)
  have r: "run e w = (1, say_err (''Setup failed: '' @ message (InstallFailed m))
               ((say ''Installing development dependencies...'' w1)
                 \<lparr>files := snd (exec e (installCmd w1) (files w1)),
                  trace := trace w1 @ [Exec (installCmd w1)]\<rparr>))"
    by (simp add: run_def allSteps_def andThen_def pre inst catchAndExit_def)
  show "fst (run e w) = 1" by (simp add: r)
  show "trace (snd (run e w)) = trace w1 @ [Exec (installCmd w1)]" by (simp add: r)
  show "console (snd (run e w)) =
              console w1 @
                [Out ''Installing development dependencies...'',
                 Err (''Setup failed: Failed to install dependencies: '' @ m)]"
    by (simp add: r)
qed

text \<open>
  A fresh project where the hooks manager fails (the run still ends with exit code \<open>0\<close>,
  and the templates are there), and one where the package manager fails (exit code \<open>1\<close>).
\<close>

theorem husky_failure_is_not_fatal_witness:
  "(\<exists>w1 w2.
      checkPrerequisites huskyFailsEnv
        (say ''Setting up development workflow configuration...'' freshProject) = Inr w1 \<and>
      installDependencies huskyFailsEnv w1 = Inr w2 \<and>
      fst (exec huskyFailsEnv ''npx husky init'' (files w2)) =
        ExecFailed ''Command failed: npx husky init'' \<and>
      (\<exists>w3. initializeHusky huskyFailsEnv w2 = Inr w3 \<and>
            last (console w3) = Out ''Husky may already be initialized'' \<and>
            (\<exists>l. console (snd (run huskyFailsEnv freshProject)) =
                   console w3 @ Out ''Copying configuration files...'' # l))) \<and>
   fst (run huskyFailsEnv freshProject) = 0 \<and>
   files (snd (run huskyFailsEnv freshProject)) ''.nvmrc'' = Some (File (Text ''20'') 420) \<and>
   (\<exists>w1.
      checkPrerequisites installFailsEnv
        (say ''Setting up development workflow configuration...'' freshProject) = Inr w1 \<and>
      fst (exec installFailsEnv (installCmd w1) (files w1)) =
        ExecFailed ''Command failed: npm install'' \<and>
      fst (run installFailsEnv freshProject) = 1)"
proof -
  let ?w0 = "say ''Setting up development workflow configuration...'' freshProject"
  let ?w1 = "say ''Prerequisites check passed''
               ((say ''Checking prerequisites...'' ?w0)
                  \<lparr>trace := trace ?w0 @ [Exec ''git rev-parse --git-dir'']\<rparr>)"
  let ?w2 = "say ''Dependencies installed''
                 ((say ''Installing development dependencies...'' ?w1)
                    \<lparr>files := snd (exec huskyFailsEnv (installCmd ?w1) (files ?w1)),
                     trace := trace ?w1 @ [Exec (installCmd ?w1)]\<rparr>)"
  have pre: "checkPrerequisites huskyFailsEnv ?w0 = Inr ?w1"
    by (simp add: checkPrerequisites_def Let_def pathExists_def packageJsonPath_def
          huskyFailsEnv_def freshProject_def manifestOnly_def)
  have cmd: "installCmd ?w1 \<noteq> ''npx husky init''"
    by (simp add: installCmd_def detectPackageManager_def pathExists_def deps_def
          freshProject_def manifestOnly_def)
  have inst: "installDependencies huskyFailsEnv ?w1 = Inr ?w2"
    unfolding installDependencies_result using cmd by (simp add: huskyFailsEnv_def)
  have ex: "fst (exec huskyFailsEnv ''npx husky init'' (files ?w2)) =
              ExecFailed ''Command failed: npx husky init''"
    by (simp add: huskyFailsEnv_def)
  from husky_failure_is_not_fatal [OF pre] inst
  obtain w3 where w3: "initializeHusky huskyFailsEnv ?w2 = Inr w3"
      "console w3 = console ?w2 @
                      [Out ''Initializing Husky...'',
                       Out (case fst (exec huskyFailsEnv ''npx husky init'' (files ?w2)) of
                              ExecOk \<Rightarrow> ''Husky initialized''
                            | ExecFailed m \<Rightarrow> ''Husky may already be initialized'')]"
      "\<exists>l. console (snd (run huskyFailsEnv freshProject)) =
                   console w3 @ Out ''Copying configuration files...'' # l"
    by blast
  have lastc: "last (console w3) = Out ''Husky may already be initialized''"
    unfolding w3(2) ex by simp
  have ok: "fst (run huskyFailsEnv freshProject) = 0"
    by (simp add: step_defs example_defs)
  have nv: "files (snd (run huskyFailsEnv freshProject)) ''.nvmrc'' = Some (File (Text ''20'') 420)"
    by (simp add: step_defs example_defs)
  have pre': "checkPrerequisites installFailsEnv ?w0 = Inr ?w1"
    by (simp add: checkPrerequisites_def Let_def pathExists_def packageJsonPath_def
          installFailsEnv_def freshProject_def manifestOnly_def)
  have ex': "fst (exec installFailsEnv (installCmd ?w1) (files ?w1)) =
               ExecFailed ''Command failed: npm install''"
    using cmd by (simp add: installFailsEnv_def)
  from husky_failure_is_not_fatal [OF pre'] ex'
  have bad: "fst (run installFailsEnv freshProject) = 1"
    by blast
  from pre inst ex w3(1) lastc w3(3) ok nv pre' ex' bad show ?thesis
    by blast
qed

subsection \<open>A run that exits with code 0\<close>

lemma run_ok_steps:
  assumes "fst (run e w) = 0"
  obtains w1 w2 w3 w4 w5 where
    "checkPrerequisites e (say ''Setting up development workflow configuration...'' w) = Inr w1"
    "installDependencies e w1 = Inr w2"
    "initializeHusky e w2 = Inr w3"
    "copyConfigFiles e w3 = Inr w4"
    "updatePackageJson w4 = Inr w5"
    "showSuccess w5 = Inr (snd (run e w))"
proof -
  from assms obtain w6 where
    a: "allSteps e (say ''Setting up development workflow configuration...'' w) = Inr w6"
    by (auto simp add: run_def catchAndExit_def split: sum.splits prod.splits)
  then have r: "snd (run e w) = w6"
    by (simp add: run_def catchAndExit_def)
  from a obtain w1 w2 w3 w4 w5 where
    "checkPrerequisites e (say ''Setting up development workflow configuration...'' w) = Inr w1"
    "installDependencies e w1 = Inr w2"
    "initializeHusky e w2 = Inr w3"
    "copyConfigFiles e w3 = Inr w4"
    "updatePackageJson w4 = Inr w5"
    "showSuccess w5 = Inr w6"
    by (auto simp add: allSteps_def remainingSteps_def andThen_def split: sum.splits)
  with r that show ?thesis by simp
qed

lemma checkPrerequisites_ok:
  assumes "checkPrerequisites e w = Inr w1"
  shows "files w1 = files w \<and> trace w1 = trace w @ [Exec ''git rev-parse --git-dir''] \<and>
         console w1 = console w @ [Out ''Checking prerequisites...'', Out ''Prerequisites check passed'']"
  using assms
  by (auto simp add: checkPrerequisites_def Let_def split: if_splits)

lemma checkPrerequisites_passes:
  assumes "git_probe e (files w)" and "files w packageJsonPath \<noteq> None"
  shows "\<exists>w1. checkPrerequisites e w = Inr w1"
  using assms by (simp add: checkPrerequisites_def Let_def pathExists_def)

lemma installCmd_files:
  assumes "files w' = files w"
  shows "installCmd w' = installCmd w"
  using assms by (simp add: installCmd_def detectPackageManager_def pathExists_def)

lemma installDependencies_ok:
  assumes "installDependencies e w = Inr w1"
  shows "files w1 = snd (exec e (installCmd w) (files w)) \<and>
         trace w1 = trace w @ [Exec (installCmd w)] \<and>
         console w1 = console w @ [Out ''Installing development dependencies...'',
                                   Out ''Dependencies installed'']"
  using assms unfolding installDependencies_result
  by (cases "fst (exec e (installCmd w) (files w))") auto

lemma initializeHusky_ok:
  assumes "initializeHusky e w = Inr w1"
  shows "files w1 = snd (exec e ''npx husky init'' (files w)) \<and>
         trace w1 = trace w @ [Exec ''npx husky init'']"
  using assms unfolding initializeHusky_result by auto

lemma showSuccess_ok:
  assumes "showSuccess w = Inr w1"
  shows "files w1 = files w \<and> trace w1 = trace w"
  using assms by (auto simp add: showSuccess_def)

lemma copyConfigFiles_ok:
  assumes "copyConfigFiles e w = Inr w1"
  obtains w0 where "copyLoop e filesToCopy (say ''Copying configuration files...'' w) = Inr w0"
    and "w1 = say ''Configuration files copied'' w0"
  using assms by (auto simp add: copyConfigFiles_def split: sum.splits)

lemma filesToCopy_distinct: "distinct (map dest filesToCopy)"
  by (simp add: filesToCopy_def)

lemma filesToCopy_separate:
  "\<forall>f \<in> set filesToCopy. \<forall>g \<in> set filesToCopy. dest f \<noteq> dirname (dest g)"
  by (simp add: filesToCopy_def dirname_def)

lemma packageJson_no_dest: "packageJsonPath \<notin> dest ` set filesToCopy"
  by (simp add: filesToCopy_def packageJsonPath_def)

lemma packageJson_no_dirname: "packageJsonPath \<notin> dirname ` dest ` set filesToCopy"
  by (simp add: filesToCopy_def packageJsonPath_def dirname_def)

text \<open>After a materialization that returned: every destination and every directory is there.\<close>

lemma copyConfigFiles_post:
  assumes ok: "copyConfigFiles e w = Inr w1" and f: "f \<in> set filesToCopy"
  shows "(startsWith (dest f) ''.husky/'' \<or> files w (dest f) = None \<longrightarrow>
            (\<exists>c m. templates e (src f) = Some (c, m) \<and>
               files w1 (dest f) =
                 Some (File c (if startsWith (dest f) ''.husky/'' then 493 else m)))) \<and>
         files w1 (dest f) \<noteq> None \<and>
         (dirname (dest f) \<noteq> ''.'' \<longrightarrow> files w1 (dirname (dest f)) = Some Dir)"
proof -
  from ok obtain w0 where
    l: "copyLoop e filesToCopy (say ''Copying configuration files...'' w) = Inr w0"
    and w1: "w1 = say ''Configuration files copied'' w0"
    by (rule copyConfigFiles_ok)
  note post = copyLoop_post [OF l filesToCopy_distinct filesToCopy_separate f]
  from post w1 show ?thesis
    by (cases "startsWith (dest f) ''.husky/'' \<or> files w (dest f) = None") auto
qed

lemma copyConfigFiles_manifest:
  assumes ok: "copyConfigFiles e w = Inr w1"
  shows "files w1 packageJsonPath = files w packageJsonPath"
proof -
  from ok have "worldOf (copyConfigFiles e w) = w1" by simp
  moreover have "files (worldOf (copyConfigFiles e w)) packageJsonPath = files w packageJsonPath"
    using copyLoop_frame [OF packageJson_no_dest, of e "say ''Copying configuration files...'' w"]
      packageJson_no_dirname
    by (auto simp add: copyConfigFiles_world)
  ultimately show ?thesis by simp
qed

lemma afterDelegated_steps:
  assumes s1: "checkPrerequisites e (say s w) = Inr w1"
    and s2: "installDependencies e w1 = Inr w2"
    and s3: "initializeHusky e w2 = Inr w3"
  shows "files w3 = afterDelegated e w"
proof -
  from checkPrerequisites_ok [OF s1] have f1: "files w1 = files w" by simp
  from installCmd_files [OF f1] have c: "installCmd w1 = installCmd w" .
  from installDependencies_ok [OF s2]
  have f2: "files w2 = snd (exec e (installCmd w1) (files w1))" by simp
  from initializeHusky_ok [OF s3]
  have f3: "files w3 = snd (exec e ''npx husky init'' (files w2))" by simp
  show ?thesis
    unfolding f3 f2 f1 c afterDelegated_def ..
qed

lemma targetsToAdd_defaults:
  assumes t: "targetsToAdd m"
  shows "orDefault (getProp2 m ''scripts'' ''prepare'') (JStr ''husky'') = JStr ''husky'' \<and>
         orDefault (getProp2 m ''scripts'' ''commit'') (JStr ''cz'') = JStr ''cz'' \<and>
         orDefault (getProp2 m ''config'' ''commitizen'') commitizenConfig = commitizenConfig \<and>
         orDefault (getProp m ''type'') (JStr ''module'') = JStr ''module''"
proof -
  have un: "orDefault r d = d" if "\<not> isSet r" for r d
  proof (cases r)
    case (Inl err)
    then show ?thesis by simp
  next
    case (Inr b)
    with that show ?thesis by (cases b) auto
  qed
  from t have "\<not> isSet (getProp2 m ''scripts'' ''prepare'') \<or>
       getProp2 m ''scripts'' ''prepare'' = Inr (Some (JStr ''husky''))"
    by (simp add: targetsToAdd_def)
  then have a1: "orDefault (getProp2 m ''scripts'' ''prepare'') (JStr ''husky'') = JStr ''husky''"
    by (auto simp add: un)
  from t have a2: "orDefault (getProp2 m ''scripts'' ''commit'') (JStr ''cz'') = JStr ''cz''"
    and a3: "orDefault (getProp2 m ''config'' ''commitizen'') commitizenConfig = commitizenConfig"
    and a4: "orDefault (getProp m ''type'') (JStr ''module'') = JStr ''module''"
    by (simp_all add: targetsToAdd_def un)
  from a1 a2 a3 a4 show ?thesis by (intro conjI)
qed

text \<open>
  Claim C5. Start from a project whose manifest is exactly \<^verbatim>\<open>{"name":"x"}\<close> and let the run
  end with exit code \<open>0\<close>. What the two delegated commands (package manager, hooks
  manager) do to the tree is taken as it is; of the manifest they leave behind, the
  statement asks only that it is a JSON key-value document in which \<^verbatim>\<open>commit\<close>,
  \<^verbatim>\<open>config.commitizen\<close> and \<^verbatim>\<open>type\<close> are not set, and \<^verbatim>\<open>prepare\<close> is not set or is the
  \<^verbatim>\<open>husky\<close> that the hooks manager writes itself (so the package manager may record the
  dependencies, and the hooks manager may set its script and write its own hook). Then
  \<^item> the manifest file holds a document with \<^verbatim>\<open>scripts.prepare = "husky"\<close>,
    \<^verbatim>\<open>scripts.commit = "cz"\<close>, \<^verbatim>\<open>config.commitizen = {path: "cz-conventional-changelog"}\<close> and
    \<^verbatim>\<open>type = "module"\<close>, and writing it was the last thing the tool did;
  \<^item> each of the eight destinations exists; each of the three under \<^verbatim>\<open>.husky/\<close> is a file
    with the content of its template and mode \<open>0755\<close>, which is executable, whatever the
    hooks manager had put there; each of the five others that the delegated commands did
    not create is a file with the content and the mode of its template.
\<close>

theorem run_on_fresh_project:
  assumes manifest: "files w ''package.json'' = Some (File (Json (JObj [(''name'', JStr ''x'')])) m)"
    and ok: "fst (run e w) = 0"
    and delegated: "afterDelegated e w ''package.json'' = Some (File (Json m') md)"
    and json: "isJson m'"
    and unset: "targetsToAdd m'"
  shows "(\<exists>pj. files (snd (run e w)) ''package.json'' = Some (File (Json pj) md) \<and>
              getProp2 pj ''scripts'' ''prepare'' = Inr (Some (JStr ''husky'')) \<and>
              getProp2 pj ''scripts'' ''commit'' = Inr (Some (JStr ''cz'')) \<and>
              getProp2 pj ''config'' ''commitizen'' =
                Inr (Some (JObj [(''path'', JStr ''cz-conventional-changelog'')])) \<and>
              getProp pj ''type'' = Inr (Some (JStr ''module''))) \<and>
         last (trace (snd (run e w))) = WriteFile ''package.json'' \<and>
         (\<forall>f \<in> set filesToCopy.
            files (snd (run e w)) (dest f) \<noteq> None \<and>
            (startsWith (dest f) ''.husky/'' \<or> afterDelegated e w (dest f) = None \<longrightarrow>
               (\<exists>c md. templates e (src f) = Some (c, md) \<and>
                  files (snd (run e w)) (dest f) =
                    Some (File c (if startsWith (dest f) ''.husky/'' then 493 else md))))) \<and>
         map dest filesToCopy =
           [''.lintstagedrc.js'', ''commitlint.config.js'', ''.nvmrc'', ''.vscode/settings.json'',
            ''.vscode/extensions.json'', ''.husky/pre-commit'', ''.husky/pre-push'',
            ''.husky/commit-msg''] \<and>
         filter (\<lambda>f. startsWith (dest f) ''.husky/'') filesToCopy =
           [\<lparr>src = ''.husky/pre-commit'', dest = ''.husky/pre-commit''\<rparr>,
            \<lparr>src = ''.husky/pre-push'', dest = ''.husky/pre-push''\<rparr>,
            \<lparr>src = ''.husky/commit-msg'', dest = ''.husky/commit-msg''\<rparr>] \<and>
         executable 493"
proof -
  from ok obtain w1 w2 w3 w4 w5 where
    s1: "checkPrerequisites e (say ''Setting up development workflow configuration...'' w) = Inr w1" and
    s2: "installDependencies e w1 = Inr w2" and
    s3: "initializeHusky e w2 = Inr w3" and
    s4: "copyConfigFiles e w3 = Inr w4" and
    s5: "updatePackageJson w4 = Inr w5" and
    s6: "showSuccess w5 = Inr (snd (run e w))"
    by (rule run_ok_steps)
  note f3 = afterDelegated_steps [OF s1 s2 s3]
  \<comment> \<open>the manifest\<close>
  from delegated f3 copyConfigFiles_manifest [OF s4]
  have m4: "files w4 packageJsonPath = Some (File (Json m') md)"
    by (simp add: packageJsonPath_def)
  from unset have k: "keyValueDocument m'"
    and nc: "\<not> isSet (getProp2 m' ''scripts'' ''commit'')"
    by (simp_all add: targetsToAdd_def)
  from patchManifest_total [OF k] obtain pj' a out where
    p: "patchManifest m' = Inr (pj', a, out)"
    by blast
  from patchManifest_values [OF p]
  have "a = (\<not> isSet (getProp2 m' ''scripts'' ''prepare'') \<or>
             \<not> isSet (getProp2 m' ''scripts'' ''commit''))"
    by (elim conjE)
  with nc have a by simp
  with updatePackageJson_result [OF m4 p] s5
  have f5: "files w5 = (files w4)(packageJsonPath \<mapsto> File (Json (stringify pj')) md)"
    and t5: "trace w5 = trace w4 @ [WriteFile packageJsonPath]"
    by auto
  from showSuccess_ok [OF s6] have f6: "files (snd (run e w)) = files w5"
    and t6: "trace (snd (run e w)) = trace w5"
    by simp_all
  have d: "files (snd (run e w)) ''package.json'' = Some (File (Json (stringify pj')) md)"
    unfolding f6 f5 by (simp add: packageJsonPath_def)
  from written_values [OF json k p] targetsToAdd_defaults [OF unset]
  have v: "getProp2 (stringify pj') ''scripts'' ''prepare'' = Inr (Some (JStr ''husky''))"
      "getProp2 (stringify pj') ''scripts'' ''commit'' = Inr (Some (JStr ''cz''))"
      "getProp2 (stringify pj') ''config'' ''commitizen'' =
         Inr (Some (JObj [(''path'', JStr ''cz-conventional-changelog'')]))"
      "getProp (stringify pj') ''type'' = Inr (Some (JStr ''module''))"
    by (simp_all add: commitizenConfig_def)
  from d v have c1: "\<exists>pj. files (snd (run e w)) ''package.json'' = Some (File (Json pj) md) \<and>
              getProp2 pj ''scripts'' ''prepare'' = Inr (Some (JStr ''husky'')) \<and>
              getProp2 pj ''scripts'' ''commit'' = Inr (Some (JStr ''cz'')) \<and>
              getProp2 pj ''config'' ''commitizen'' =
                Inr (Some (JObj [(''path'', JStr ''cz-conventional-changelog'')])) \<and>
              getProp pj ''type'' = Inr (Some (JStr ''module''))"
    by (intro exI [of _ "stringify pj'"] conjI)
  have c2: "last (trace (snd (run e w))) = WriteFile ''package.json''"
    unfolding t6 t5 by (simp add: packageJsonPath_def)
  \<comment> \<open>the templates\<close>
  have c3: "\<forall>f \<in> set filesToCopy.
            files (snd (run e w)) (dest f) \<noteq> None \<and>
            (startsWith (dest f) ''.husky/'' \<or> afterDelegated e w (dest f) = None \<longrightarrow>
               (\<exists>c md. templates e (src f) = Some (c, md) \<and>
                  files (snd (run e w)) (dest f) =
                    Some (File c (if startsWith (dest f) ''.husky/'' then 493 else md))))"
  proof
    fix f
    assume f: "f \<in> set filesToCopy"
    from f packageJson_no_dest have "dest f \<noteq> packageJsonPath" by (metis imageI)
    then have same: "files (snd (run e w)) (dest f) = files w4 (dest f)"
      unfolding f6 f5 by simp
    from copyConfigFiles_post [OF s4 f] same
    show "files (snd (run e w)) (dest f) \<noteq> None \<and>
            (startsWith (dest f) ''.husky/'' \<or> afterDelegated e w (dest f) = None \<longrightarrow>
               (\<exists>c md. templates e (src f) = Some (c, md) \<and>
                  files (snd (run e w)) (dest f) =
                    Some (File c (if startsWith (dest f) ''.husky/'' then 493 else md))))"
      unfolding f3 by simp
  qed
  have c4: "map dest filesToCopy =
           [''.lintstagedrc.js'', ''commitlint.config.js'', ''.nvmrc'', ''.vscode/settings.json'',
            ''.vscode/extensions.json'', ''.husky/pre-commit'', ''.husky/pre-push'',
            ''.husky/commit-msg'']"
    by (simp add: filesToCopy_def)
  have c5: "filter (\<lambda>f. startsWith (dest f) ''.husky/'') filesToCopy =
           [\<lparr>src = ''.husky/pre-commit'', dest = ''.husky/pre-commit''\<rparr>,
            \<lparr>src = ''.husky/pre-push'', dest = ''.husky/pre-push''\<rparr>,
            \<lparr>src = ''.husky/commit-msg'', dest = ''.husky/commit-msg''\<rparr>]"
    by (simp add: filesToCopy_def startsWith_def)
  have c6: "executable 493"
    by (simp add: executable_def)
  from c1 c2 c3 c4 c5 c6 show ?thesis
    by (intro conjI)
qed

lemma afterDelegated_realistic:
  "afterDelegated realisticEnv freshProject =
     [''package-lock.json'' \<mapsto> File (Text ''lock'') 420,
      ''node_modules'' \<mapsto> Dir,
      ''package.json'' \<mapsto>
        File (Json (JObj [(''name'', JStr ''x''),
                          (''devDependencies'', JObj [(''husky'', JStr ''^9.1.7'')]),
                          (''scripts'', JObj [(''prepare'', JStr ''husky'')])])) 420,
      ''.husky'' \<mapsto> Dir,
      ''.husky/_'' \<mapsto> Dir,
      ''.husky/pre-commit'' \<mapsto> File (Text ''npm test'') 420]"
  by (simp add: afterDelegated_def installCmd_def detectPackageManager_def pathExists_def deps_def
        realisticEnv_def npmInstallLike_def huskyInitLike_def freshProject_def manifestOnly_def
        ensureObject_def setProp2_def)

lemma run_realistic_exit: "fst (run realisticEnv freshProject) = 0"
  by (simp add: step_defs example_defs)

text \<open>
  The fresh example project with the realistic delegated commands: the package manager
  has recorded the dependencies, the hooks manager has set \<^verbatim>\<open>prepare\<close> and written its own
  \<^verbatim>\<open>pre-commit\<close> hook, which the template replaces.
\<close>

theorem run_on_fresh_project_witness:
  "files freshProject = [''package.json'' \<mapsto> File (Json (JObj [(''name'', JStr ''x'')])) 420] \<and>
   fst (run realisticEnv freshProject) = 0 \<and>
   afterDelegated realisticEnv freshProject ''package.json'' =
     Some (File (Json (JObj [(''name'', JStr ''x''),
                             (''devDependencies'', JObj [(''husky'', JStr ''^9.1.7'')]),
                             (''scripts'', JObj [(''prepare'', JStr ''husky'')])])) 420) \<and>
   isJson (JObj [(''name'', JStr ''x''),
                 (''devDependencies'', JObj [(''husky'', JStr ''^9.1.7'')]),
                 (''scripts'', JObj [(''prepare'', JStr ''husky'')])]) \<and>
   targetsToAdd (JObj [(''name'', JStr ''x''),
                       (''devDependencies'', JObj [(''husky'', JStr ''^9.1.7'')]),
                       (''scripts'', JObj [(''prepare'', JStr ''husky'')])]) \<and>
   afterDelegated realisticEnv freshProject ''.husky/pre-commit'' =
     Some (File (Text ''npm test'') 420) \<and>
   afterDelegated realisticEnv freshProject ''.nvmrc'' = None \<and>
   (\<exists>pj. files (snd (run realisticEnv freshProject)) ''package.json'' = Some (File (Json pj) 420) \<and>
         getProp2 pj ''scripts'' ''prepare'' = Inr (Some (JStr ''husky'')) \<and>
         getProp2 pj ''scripts'' ''commit'' = Inr (Some (JStr ''cz'')) \<and>
         getProp2 pj ''config'' ''commitizen'' =
           Inr (Some (JObj [(''path'', JStr ''cz-conventional-changelog'')])) \<and>
         getProp pj ''type'' = Inr (Some (JStr ''module''))) \<and>
   last (trace (snd (run realisticEnv freshProject))) = WriteFile ''package.json'' \<and>
   files (snd (run realisticEnv freshProject)) ''.husky/pre-commit'' =
     Some (File (Text ''pre-commit'') 493) \<and>
   files (snd (run realisticEnv freshProject)) ''.nvmrc'' = Some (File (Text ''20'') 420)"
proof -
  let ?m = "JObj [(''name'', JStr ''x''),
                  (''devDependencies'', JObj [(''husky'', JStr ''^9.1.7'')]),
                  (''scripts'', JObj [(''prepare'', JStr ''husky'')])]"
  have g1: "files freshProject = [''package.json'' \<mapsto> File (Json (JObj [(''name'', JStr ''x'')])) 420]"
    by (simp add: freshProject_def manifestOnly_def)
  have h1: "files freshProject ''package.json'' =
              Some (File (Json (JObj [(''name'', JStr ''x'')])) 420)"
    by (simp add: g1)
  have h2: "fst (run realisticEnv freshProject) = 0"
    by (rule run_realistic_exit)
  have h3: "afterDelegated realisticEnv freshProject ''package.json'' = Some (File (Json ?m) 420)"
    by (simp add: afterDelegated_realistic)
  have h4: "isJson ?m"
    by (simp add: isJson_def)
  have h5: "targetsToAdd ?m"
    by (simp add: targetsToAdd_def keyValueDocument_def getProp2_def)
  have a1: "afterDelegated realisticEnv freshProject ''.husky/pre-commit'' =
              Some (File (Text ''npm test'') 420)"
    by (simp add: afterDelegated_realistic)
  have a2: "afterDelegated realisticEnv freshProject ''.nvmrc'' = None"
    by (simp add: afterDelegated_realistic)
  note concl = run_on_fresh_project [OF h1 h2 h3 h4 h5]
  from concl have c1: "\<exists>pj. files (snd (run realisticEnv freshProject)) ''package.json'' =
           Some (File (Json pj) 420) \<and>
         getProp2 pj ''scripts'' ''prepare'' = Inr (Some (JStr ''husky'')) \<and>
         getProp2 pj ''scripts'' ''commit'' = Inr (Some (JStr ''cz'')) \<and>
         getProp2 pj ''config'' ''commitizen'' =
           Inr (Some (JObj [(''path'', JStr ''cz-conventional-changelog'')])) \<and>
         getProp pj ''type'' = Inr (Some (JStr ''module''))"
    by (rule conjunct1)
  from concl have c2: "last (trace (snd (run realisticEnv freshProject))) = WriteFile ''package.json''"
    by (elim conjE)
  from concl have all: "\<forall>f \<in> set filesToCopy.
            files (snd (run realisticEnv freshProject)) (dest f) \<noteq> None \<and>
            (startsWith (dest f) ''.husky/'' \<or>
             afterDelegated realisticEnv freshProject (dest f) = None \<longrightarrow>
               (\<exists>c md. templates realisticEnv (src f) = Some (c, md) \<and>
                  files (snd (run realisticEnv freshProject)) (dest f) =
                    Some (File c (if startsWith (dest f) ''.husky/'' then 493 else md))))"
    by (elim conjE)
  have mem1: "\<lparr>src = ''.husky/pre-commit'', dest = ''.husky/pre-commit''\<rparr> \<in> set filesToCopy"
    by (simp add: filesToCopy_def)
  have mem2: "\<lparr>src = ''.nvmrc'', dest = ''.nvmrc''\<rparr> \<in> set filesToCopy"
    by (simp add: filesToCopy_def)
  have hk: "startsWith ''.husky/pre-commit'' ''.husky/''"
    by (simp add: startsWith_def)
  have nk: "\<not> startsWith ''.nvmrc'' ''.husky/''"
    by (simp add: startsWith_def)
  from all [rule_format, OF mem1, THEN conjunct2] hk
  obtain c md where t: "templates realisticEnv ''.husky/pre-commit'' = Some (c, md)"
    and d: "files (snd (run realisticEnv freshProject)) ''.husky/pre-commit'' = Some (File c 493)"
    by auto
  have "templates realisticEnv ''.husky/pre-commit'' = Some (Text ''pre-commit'', 420)"
    by (simp add: realisticEnv_def exampleTemplates_def)
  with t d have c3: "files (snd (run realisticEnv freshProject)) ''.husky/pre-commit'' =
     Some (File (Text ''pre-commit'') 493)"
    by simp
  from all [rule_format, OF mem2, THEN conjunct2] a2 nk
  obtain c' md' where t': "templates realisticEnv ''.nvmrc'' = Some (c', md')"
    and d': "files (snd (run realisticEnv freshProject)) ''.nvmrc'' = Some (File c' md')"
    by auto
  have "templates realisticEnv ''.nvmrc'' = Some (Text ''20'', 420)"
    by (simp add: realisticEnv_def exampleTemplates_def)
  with t' d' have c4: "files (snd (run realisticEnv freshProject)) ''.nvmrc'' =
     Some (File (Text ''20'') 420)"
    by simp
  from g1 h2 h3 h4 h5 a1 a2 c1 c2 c3 c4 show ?thesis
    by (intro conjI)
qed

subsection \<open>The manifest a returned step leaves\<close>

lemma stringify_JObj:
  assumes "stringify v = JObj kvs"
  shows "isObject v"
  using assms by (cases v) auto

lemma addCommitizen_succeeds:
  assumes o: "isObject pj" and g: "getProp pj ''config'' = Inr (Some c)"
    and c: "\<exists>xs ps kvs. c = JArr xs ps \<or> c = JObj kvs"
  shows "\<exists>pj' out'. addCommitizen (pj, out) = Inr (pj', out') \<and>
           (\<forall>k. k \<noteq> ''config'' \<longrightarrow> getProp pj' k = getProp pj k)"
proof -
  from c have tc: "truthy c" by auto
  from ensureObject_id [OF g tc] have e: "ensureObject ''config'' pj = Inr pj" .
  from c obtain r where r: "getProp c ''commitizen'' = Inr r"
    by auto
  with g have r2: "getProp2 pj ''config'' ''commitizen'' = Inr r"
    by (simp add: getProp2_def)
  show ?thesis
  proof (cases "js_not r")
    case True
    from c obtain c' where c': "setProp c ''commitizen'' commitizenConfig = Inr c'"
      by auto
    from o obtain pj' where pj': "setProp pj ''config'' c' = Inr pj'"
      by (cases pj) auto
    from g c' pj' have s: "setProp2 pj ''config'' ''commitizen'' commitizenConfig = Inr pj'"
      by (simp add: setProp2_def)
    from e r2 True s have "addCommitizen (pj, out) = Inr (pj', out @ [''Added commitizen configuration''])"
      by (simp add: addCommitizen_def)
    with setProp2_get1 [OF s] show ?thesis by simp
  next
    case False
    with e r2 have "addCommitizen (pj, out) = Inr (pj, out)"
      by (simp add: addCommitizen_def)
    then show ?thesis by simp
  qed
qed

lemma addType_id:
  assumes "getProp pj ''type'' = Inr (Some t)" and "truthy t"
  shows "addType (pj, out) = Inr (pj, out)"
  using assms by (simp add: addType_def)

text \<open>
  Serializing a patched manifest and patching it again: if the root and \<^verbatim>\<open>scripts\<close> are
  objects, no script is added.
\<close>

lemma patchManifest_stringify:
  assumes p: "patchManifest pj = Inr (pj4, a, out)"
    and root: "stringify pj4 = JObj kvs" and scr: "map_of kvs ''scripts'' = Some (JObj s)"
  shows "\<exists>pj' out'. patchManifest (JObj kvs) = Inr (pj', False, out')"
proof -
  note post = patchManifest_post [OF p]
  from root have o4: "isObject pj4" by (rule stringify_JObj)
  have oM: "isObject (JObj kvs)" by simp
  note gs = getProp_stringify [OF o4, unfolded root]
  \<comment> \<open>scripts\<close>
  from post obtain vp vc where
    vp: "getProp2 pj4 ''scripts'' ''prepare'' = Inr (Some vp)" "truthy vp" and
    vc: "getProp2 pj4 ''scripts'' ''commit'' = Inr (Some vc)" "truthy vc"
    by auto
  from vp(1) obtain s4 where s4: "getProp pj4 ''scripts'' = Inr (Some s4)"
    by (auto simp add: getProp2_def split: sum.splits option.splits)
  from gs [of "''scripts''"] s4 scr have "stringify s4 = JObj s" by simp
  then have os4: "isObject s4" by (rule stringify_JObj)
  note g2 = getProp2_stringify [OF o4 s4 os4, unfolded root]
  from g2 [of "''prepare''"] vp have mp: "getProp2 (JObj kvs) ''scripts'' ''prepare'' =
      Inr (Some (stringify vp))" by simp
  from g2 [of "''commit''"] vc have mc: "getProp2 (JObj kvs) ''scripts'' ''commit'' =
      Inr (Some (stringify vc))" by simp
  from scr have e: "ensureObject ''scripts'' (JObj kvs) = Inr (JObj kvs)"
    by (simp add: ensureObject_def)
  have "\<forall>b \<in> fst ` set scriptsToAdd.
          \<exists>v. getProp2 (JObj kvs) ''scripts'' b = Inr (Some v) \<and> truthy v"
    unfolding scriptsToAdd_names using mp mc vp(2) vc(2) by simp
  from addScripts_id [OF this]
  have sa: "addScripts scriptsToAdd (JObj kvs, False, []) = Inr (JObj kvs, False, [])" .
  \<comment> \<open>config\<close>
  from post obtain vz where vz: "getProp2 pj4 ''config'' ''commitizen'' = Inr (Some vz)"
    by auto
  then obtain c4 where c4: "getProp pj4 ''config'' = Inr (Some c4)"
    and cz: "getProp c4 ''commitizen'' = Inr (Some vz)"
    by (auto simp add: getProp2_def split: sum.splits option.splits)
  from cz have shape: "\<exists>xs ps kvs. c4 = JArr xs ps \<or> c4 = JObj kvs"
    by (cases c4) auto
  then have shape': "\<exists>xs ps kvs. stringify c4 = JArr xs ps \<or> stringify c4 = JObj kvs"
    by auto
  from gs [of "''config''"] c4 have gc: "getProp (JObj kvs) ''config'' = Inr (Some (stringify c4))"
    by simp
  from addCommitizen_succeeds [OF oM gc shape', of "[]"]
  obtain pj3 out3 where ac: "addCommitizen (JObj kvs, []) = Inr (pj3, out3)"
    and same: "\<forall>k. k \<noteq> ''config'' \<longrightarrow> getProp pj3 k = getProp (JObj kvs) k"
    by blast
  \<comment> \<open>type\<close>
  from post obtain vt where vt: "getProp pj4 ''type'' = Inr (Some vt)" "truthy vt"
    by auto
  from gs [of "''type''"] vt same have "getProp pj3 ''type'' = Inr (Some (stringify vt))"
    by simp
  from addType_id [OF this] vt(2) have at: "addType (pj3, out3) = Inr (pj3, out3)"
    by simp
  from e sa ac at have "patchManifest (JObj kvs) = Inr (pj3, False, out3)"
    by (simp add: patchManifest_def)
  then show ?thesis by blast
qed

lemma updatePackageJson_second_time:
  assumes ok: "updatePackageJson w = Inr w'"
    and root: "files w' packageJsonPath = Some (File (Json (JObj kvs)) m)"
    and scr: "map_of kvs ''scripts'' = Some (JObj s)"
  shows "\<exists>pj' out'. patchManifest (JObj kvs) = Inr (pj', False, out')"
proof (cases w rule: updatePackageJson_cases)
  case failed
  with ok show ?thesis by simp
next
  case (patched pj m0 pj4 a out)
  note res = updatePackageJson_result [OF patched]
  show ?thesis
  proof (cases a)
    case True
    with res ok root have "stringify pj4 = JObj kvs"
      by auto
    from patchManifest_stringify [OF patched(2) this scr] show ?thesis .
  next
    case False
    with res ok root patched(1) have "pj = JObj kvs"
      by auto
    with patched(2) False show ?thesis by auto
  qed
qed

subsection \<open>Two runs in the example environment\<close>

lemma hookDestinations_iff:
  "p \<in> set hookDestinations \<longleftrightarrow>
     (\<exists>f \<in> set filesToCopy. startsWith (dest f) ''.husky/'' \<and> p = dest f)"
  by (auto simp add: hookDestinations_def)

lemma hookDestinations_list:
  "hookDestinations = [''.husky/pre-commit'', ''.husky/pre-push'', ''.husky/commit-msg'']"
  by (simp add: hookDestinations_def filesToCopy_def startsWith_def)

lemma world_eta: "w = \<lparr>files = files w, console = console w, trace = trace w\<rparr>"
  by simp

lemma run_realistic_files:
  "files (snd (run realisticEnv freshProject)) =
     setUpTree (JObj
       [(''name'', JStr ''x''),
        (''devDependencies'', JObj [(''husky'', JStr ''^9.1.7'')]),
        (''scripts'', JObj [(''prepare'', JStr ''husky''), (''commit'', JStr ''cz'')]),
        (''config'', JObj [(''commitizen'', JObj [(''path'', JStr ''cz-conventional-changelog'')])]),
        (''type'', JStr ''module'')])"
  by (simp add: step_defs example_defs setUpTree_def)

lemma installCmd_setUp:
  assumes "files w = setUpTree j"
  shows "installCmd w = ''npm install --save-dev '' @ join deps"
  using assms by (simp add: installCmd_def detectPackageManager_def pathExists_def setUpTree_def)

lemma afterDelegated_setUp:
  assumes f: "files w = setUpTree (JObj
       [(''name'', JStr ''x''),
        (''devDependencies'', JObj [(''husky'', JStr ''^9.1.7'')]),
        (''scripts'', JObj [(''prepare'', JStr ''husky''), (''commit'', JStr ''cz'')]),
        (''config'', JObj [(''commitizen'', JObj [(''path'', JStr ''cz-conventional-changelog'')])]),
        (''type'', JStr ''module'')])"
  shows "afterDelegated realisticEnv w =
           (files w)(''.husky/pre-commit'' \<mapsto> File (Text ''npm test'') 420)"
proof -
  have c: "installCmd w \<noteq> ''npx husky init''"
    unfolding installCmd_setUp [OF f] by (simp add: deps_def)
  show ?thesis
    unfolding afterDelegated_def f
    using c
    by (auto simp add: realisticEnv_def npmInstallLike_def huskyInitLike_def setUpTree_def
          ensureObject_def setProp2_def fun_eq_iff)
qed

lemma run_array_exit: "fst (run realisticEnv (manifestOnly arrayScriptsManifest)) = 0"
  by (simp add: step_defs example_defs)

lemma run_array_files:
  "files (snd (run realisticEnv (manifestOnly arrayScriptsManifest))) =
     setUpTree (JObj
       [(''name'', JStr ''x''), (''scripts'', JArr [] []),
        (''devDependencies'', JObj [(''husky'', JStr ''^9.1.7'')]),
        (''config'', JObj [(''commitizen'', JObj [(''path'', JStr ''cz-conventional-changelog'')])]),
        (''type'', JStr ''module'')])"
  by (simp add: step_defs example_defs setUpTree_def)

lemma run_array_again:
  "fst (run realisticEnv
          \<lparr>files = setUpTree (JObj
             [(''name'', JStr ''x''), (''scripts'', JArr [] []),
              (''devDependencies'', JObj [(''husky'', JStr ''^9.1.7'')]),
              (''config'', JObj [(''commitizen'', JObj [(''path'', JStr ''cz-conventional-changelog'')])]),
              (''type'', JStr ''module'')]),
           console = c, trace = t\<rparr>) = 0 \<and>
   trace (snd (run realisticEnv
          \<lparr>files = setUpTree (JObj
             [(''name'', JStr ''x''), (''scripts'', JArr [] []),
              (''devDependencies'', JObj [(''husky'', JStr ''^9.1.7'')]),
              (''config'', JObj [(''commitizen'', JObj [(''path'', JStr ''cz-conventional-changelog'')])]),
              (''type'', JStr ''module'')]),
           console = c, trace = t\<rparr>)) =
     t @ [Exec ''git rev-parse --git-dir'',
          Exec (''npm install --save-dev '' @ join deps),
          Exec ''npx husky init'',
          WriteFile ''.husky/pre-commit'', Chmod ''.husky/pre-commit'',
          WriteFile ''.husky/pre-push'', Chmod ''.husky/pre-push'',
          WriteFile ''.husky/commit-msg'', Chmod ''.husky/commit-msg'',
          WriteFile ''package.json'']"
  by (simp add: step_defs example_defs setUpTree_def Let_def)

text \<open>
  Claim C8 as stated fails. The project holds only the manifest
  \<^verbatim>\<open>{"name":"x","scripts":[]}\<close>, and the delegated commands are the realistic ones. The first
  run ends with exit code \<open>0\<close>: the two scripts are assigned as named properties of the
  array, which serialization leaves out, so the manifest written still has
  \<^verbatim>\<open>"scripts": []\<close>. The second run again finds neither script, adds both again and writes
  the manifest again: its last action is a write-back of the manifest.
\<close>

theorem second_run_writes_manifest_again:
  "fst (run realisticEnv (manifestOnly arrayScriptsManifest)) = 0 \<and>
   files (snd (run realisticEnv (manifestOnly arrayScriptsManifest))) ''package.json'' =
     Some (File (Json (JObj
       [(''name'', JStr ''x''), (''scripts'', JArr [] []),
        (''devDependencies'', JObj [(''husky'', JStr ''^9.1.7'')]),
        (''config'', JObj [(''commitizen'', JObj [(''path'', JStr ''cz-conventional-changelog'')])]),
        (''type'', JStr ''module'')])) 420) \<and>
   fst (run realisticEnv (snd (run realisticEnv (manifestOnly arrayScriptsManifest)))) = 0 \<and>
   trace (snd (run realisticEnv (snd (run realisticEnv (manifestOnly arrayScriptsManifest))))) =
     trace (snd (run realisticEnv (manifestOnly arrayScriptsManifest))) @
       [Exec ''git rev-parse --git-dir'',
        Exec (''npm install --save-dev '' @ join deps),
        Exec ''npx husky init'',
        WriteFile ''.husky/pre-commit'', Chmod ''.husky/pre-commit'',
        WriteFile ''.husky/pre-push'', Chmod ''.husky/pre-push'',
        WriteFile ''.husky/commit-msg'', Chmod ''.husky/commit-msg'',
        WriteFile ''package.json'']"
proof -
  let ?w1 = "snd (run realisticEnv (manifestOnly arrayScriptsManifest))"
  have e: "?w1 = \<lparr>files = files ?w1, console = console ?w1, trace = trace ?w1\<rparr>"
    by (rule world_eta)
  have b: "files ?w1 ''package.json'' =
     Some (File (Json (JObj
       [(''name'', JStr ''x''), (''scripts'', JArr [] []),
        (''devDependencies'', JObj [(''husky'', JStr ''^9.1.7'')]),
        (''config'', JObj [(''commitizen'', JObj [(''path'', JStr ''cz-conventional-changelog'')])]),
        (''type'', JStr ''module'')])) 420)"
    unfolding run_array_files by (simp add: setUpTree_def)
  note again = run_array_again [of "console ?w1" "trace ?w1", folded run_array_files, folded e]
  from again have c: "fst (run realisticEnv ?w1) = 0"
    by (rule conjunct1)
  from again have d: "trace (snd (run realisticEnv ?w1)) =
     trace ?w1 @
       [Exec ''git rev-parse --git-dir'',
        Exec (''npm install --save-dev '' @ join deps),
        Exec ''npx husky init'',
        WriteFile ''.husky/pre-commit'', Chmod ''.husky/pre-commit'',
        WriteFile ''.husky/pre-push'', Chmod ''.husky/pre-push'',
        WriteFile ''.husky/commit-msg'', Chmod ''.husky/commit-msg'',
        WriteFile ''package.json'']"
    by (rule conjunct2)
  from run_array_exit b c d show ?thesis
    by (intro conjI)
qed

subsection \<open>The second run\<close>

text \<open>
  Claim C8, amended. Let a first run end with exit code \<open>0\<close> and leave the world \<open>w1\<close>,
  whose manifest is an object with an object under \<^verbatim>\<open>scripts\<close>. Run again from \<open>w1\<close>, with
  a version-control probe that passes, an installation command that succeeds, and
  delegated commands after which every path other than the three hook destinations is
  as the first run left it, and no hook destination is a directory (so the hooks manager
  may rewrite a hook file, or remove it). Then the second run ends with exit code \<open>0\<close>;
  the project tree after it is the tree after the first run (same paths, same contents
  and modes, the hook files and the manifest included, so no key is duplicated or
  changed); what the tool did is: the probe, the two delegated commands, and for each of
  the three hook files a copy and a \<^verbatim>\<open>chmod\<close>, and nothing else: no other template and no
  manifest is written; and the five other templates are reported as skipped.
\<close>

theorem second_run_changes_nothing:
  assumes first: "run e w = (0, w1)"
    and git: "git_probe e (files w1)"
    and install: "fst (exec e (installCmd w1) (files w1)) = ExecOk"
    and same: "\<forall>p. p \<notin> set hookDestinations \<longrightarrow> afterDelegated e w1 p = files w1 p"
    and nodir: "\<forall>p \<in> set hookDestinations. afterDelegated e w1 p \<noteq> Some Dir"
    and root: "files w1 ''package.json'' = Some (File (Json (JObj kvs)) m)"
    and scr: "map_of kvs ''scripts'' = Some (JObj s)"
  shows "fst (run e w1) = 0 \<and>
         files (snd (run e w1)) = files w1 \<and>
         trace (snd (run e w1)) =
           trace w1 @
             [Exec ''git rev-parse --git-dir'', Exec (installCmd w1), Exec ''npx husky init'',
              WriteFile ''.husky/pre-commit'', Chmod ''.husky/pre-commit'',
              WriteFile ''.husky/pre-push'', Chmod ''.husky/pre-push'',
              WriteFile ''.husky/commit-msg'', Chmod ''.husky/commit-msg''] \<and>
         (\<exists>before after.
            console (snd (run e w1)) =
              console w1 @ before @
                [Out ''Copying configuration files...'',
                 Out ''.lintstagedrc.js already exists, skipping...'',
                 Out ''commitlint.config.js already exists, skipping...'',
                 Out ''.nvmrc already exists, skipping...'',
                 Out ''.vscode/settings.json already exists, skipping...'',
                 Out ''.vscode/extensions.json already exists, skipping...'',
                 Out ''Updated .husky/pre-commit'',
                 Out ''Updated .husky/pre-push'',
                 Out ''Updated .husky/commit-msg'',
                 Out ''Configuration files copied''] @ after)"
proof -
  \<comment> \<open>what the first run left\<close>
  from first have ok: "fst (run e w) = 0" and w1: "snd (run e w) = w1" by simp_all
  from ok obtain v1 v2 v3 v4 v5 where
    s4: "copyConfigFiles e v3 = Inr v4" and
    s5: "updatePackageJson v4 = Inr v5" and
    s6: "showSuccess v5 = Inr w1"
    unfolding w1 [symmetric] by (rule run_ok_steps)
  from showSuccess_ok [OF s6] have f6: "files w1 = files v5" by simp
  from s5 have wo: "worldOf (updatePackageJson v4) = v5" by simp
  have f5: "files w1 p = files v4 p" if "p \<noteq> packageJsonPath" for p
    using updatePackageJson_frame [OF that, of v4] wo f6 by simp
  have dests: "files w1 (dest f) \<noteq> None \<and>
               (startsWith (dest f) ''.husky/'' \<longrightarrow>
                  (\<exists>c md. templates e (src f) = Some (c, md) \<and>
                           files w1 (dest f) = Some (File c 493))) \<and>
               (dirname (dest f) = ''.'' \<or> files w1 (dirname (dest f)) = Some Dir)"
    if f: "f \<in> set filesToCopy" for f
  proof -
    from f packageJson_no_dest have n1: "dest f \<noteq> packageJsonPath" by (metis imageI)
    from f packageJson_no_dirname have n2: "dirname (dest f) \<noteq> packageJsonPath"
      by (metis imageI)
    from copyConfigFiles_post [OF s4 f] show ?thesis
      unfolding f5 [OF n1] f5 [OF n2] by auto
  qed
  from root f6 have root5: "files v5 packageJsonPath = Some (File (Json (JObj kvs)) m)"
    by (simp add: packageJsonPath_def)
  from updatePackageJson_second_time [OF s5 root5 scr]
  obtain pj' out' where patch: "patchManifest (JObj kvs) = Inr (pj', False, out')"
    by blast
  \<comment> \<open>the second run, up to the delegated commands\<close>
  let ?u0 = "say ''Setting up development workflow configuration...'' w1"
  from git root have "\<exists>u1. checkPrerequisites e ?u0 = Inr u1"
    by (intro checkPrerequisites_passes) (simp_all add: packageJsonPath_def)
  then obtain u1 where t1: "checkPrerequisites e ?u0 = Inr u1" ..
  from checkPrerequisites_ok [OF t1] have
    fu1: "files u1 = files w1" and
    tu1: "trace u1 = trace w1 @ [Exec ''git rev-parse --git-dir'']" and
    cu1: "console u1 = console w1 @
            [Out ''Setting up development workflow configuration...'',
             Out ''Checking prerequisites...'', Out ''Prerequisites check passed'']"
    by simp_all
  have cmd: "installCmd u1 = installCmd w1"
    using fu1 by (rule installCmd_files)
  from install have "\<exists>u2. installDependencies e u1 = Inr u2"
    unfolding installDependencies_result cmd fu1 by simp
  then obtain u2 where t2: "installDependencies e u1 = Inr u2" ..
  from installDependencies_ok [OF t2] have
    tu2: "trace u2 = trace w1 @ [Exec ''git rev-parse --git-dir'', Exec (installCmd w1)]" and
    cu2: "console u2 = console u1 @ [Out ''Installing development dependencies...'',
                                       Out ''Dependencies installed'']"
    by (simp_all add: tu1 cmd)
  obtain u3 where t3: "initializeHusky e u2 = Inr u3"
    unfolding initializeHusky_result by blast
  from initializeHusky_ok [OF t3] have
    tu3: "trace u3 = trace w1 @ [Exec ''git rev-parse --git-dir'', Exec (installCmd w1),
                                 Exec ''npx husky init'']"
    by (simp add: tu2)
  note fu3 = afterDelegated_steps [OF t1 t2 t3]
  have keep: "files u3 p = files w1 p" if "p \<notin> set hookDestinations" for p
    using same that unfolding fu3 by blast
  have hookpath: "startsWith p ''.husky/''" if "p \<in> set hookDestinations" for p
    using that by (auto simp add: hookDestinations_iff)
  \<comment> \<open>template materialization\<close>
  let ?u3' = "say ''Copying configuration files...'' u3"
  have q1: "\<forall>f \<in> set filesToCopy.
              dirname (dest f) = ''.'' \<or> files ?u3' (dirname (dest f)) = Some Dir"
  proof
    fix f assume f: "f \<in> set filesToCopy"
    have "dirname (dest f) \<notin> set hookDestinations"
    proof
      assume "dirname (dest f) \<in> set hookDestinations"
      then obtain g where g: "g \<in> set filesToCopy" and d: "dirname (dest f) = dest g"
        unfolding hookDestinations_iff by blast
      from filesToCopy_separate [rule_format, OF g f] d show False
        by simp
    qed
    from keep [OF this] dests [OF f]
    show "dirname (dest f) = ''.'' \<or> files ?u3' (dirname (dest f)) = Some Dir"
      by auto
  qed
  have q2: "\<forall>f \<in> set filesToCopy. startsWith (dest f) ''.husky/'' \<longrightarrow>
           (\<exists>c m. templates e (src f) = Some (c, m)) \<and> files ?u3' (dest f) \<noteq> Some Dir"
  proof (intro ballI impI)
    fix f assume f: "f \<in> set filesToCopy" and h: "startsWith (dest f) ''.husky/''"
    from f h have "dest f \<in> set hookDestinations"
      by (auto simp add: hookDestinations_iff)
    with nodir have "files u3 (dest f) \<noteq> Some Dir"
      unfolding fu3 by blast
    moreover from dests [OF f] h have "\<exists>c m. templates e (src f) = Some (c, m)"
      by blast
    ultimately show "(\<exists>c m. templates e (src f) = Some (c, m)) \<and> files ?u3' (dest f) \<noteq> Some Dir"
      by simp
  qed
  have q3: "\<forall>f \<in> set filesToCopy. \<not> startsWith (dest f) ''.husky/'' \<longrightarrow>
              files ?u3' (dest f) \<noteq> None"
  proof (intro ballI impI)
    fix f assume f: "f \<in> set filesToCopy" and h: "\<not> startsWith (dest f) ''.husky/''"
    from h hookpath have "dest f \<notin> set hookDestinations" by blast
    from keep [OF this] dests [OF f] show "files ?u3' (dest f) \<noteq> None"
      by simp
  qed
  from copyLoop_rewrite [OF q1 q2 q3 filesToCopy_separate] obtain u4' where
    loop: "copyLoop e filesToCopy ?u3' = Inr u4'" and
    cl: "console u4' = console ?u3' @
             map (\<lambda>f. Out (if startsWith (dest f) ''.husky/'' then ''Updated '' @ dest f
                            else dest f @ '' already exists, skipping...'')) filesToCopy" and
    tl: "trace u4' = trace ?u3' @
             concat (map (\<lambda>f. if startsWith (dest f) ''.husky/''
                               then [WriteFile (dest f), Chmod (dest f)] else []) filesToCopy)" and
    fl: "\<forall>p. (\<forall>f \<in> set filesToCopy. startsWith (dest f) ''.husky/'' \<longrightarrow> p \<noteq> dest f) \<longrightarrow>
                files u4' p = files ?u3' p"
    by blast
  define u4 where "u4 = say ''Configuration files copied'' u4'"
  have t4: "copyConfigFiles e u3 = Inr u4"
    by (simp add: copyConfigFiles_def loop u4_def)
  have fu4: "files u4 = files w1"
  proof
    fix p
    show "files u4 p = files w1 p"
    proof (cases "p \<in> set hookDestinations")
      case True
      then obtain f where f: "f \<in> set filesToCopy" and h: "startsWith (dest f) ''.husky/''"
        and p: "p = dest f"
        by (auto simp add: hookDestinations_iff)
      from copyConfigFiles_post [OF t4 f] h obtain c md where
        "templates e (src f) = Some (c, md)" "files u4 (dest f) = Some (File c 493)"
        by auto
      moreover from dests [OF f] h obtain c' md' where
        "templates e (src f) = Some (c', md')" "files w1 (dest f) = Some (File c' 493)"
        by blast
      ultimately show ?thesis
        unfolding p by simp
    next
      case False
      then have "\<forall>f \<in> set filesToCopy. startsWith (dest f) ''.husky/'' \<longrightarrow> p \<noteq> dest f"
        by (auto simp add: hookDestinations_iff)
      with fl have "files u4' p = files u3 p" by simp
      with keep [OF False] show ?thesis
        by (simp add: u4_def)
    qed
  qed
  have tu4: "trace u4 = trace w1 @
             [Exec ''git rev-parse --git-dir'', Exec (installCmd w1), Exec ''npx husky init'',
              WriteFile ''.husky/pre-commit'', Chmod ''.husky/pre-commit'',
              WriteFile ''.husky/pre-push'', Chmod ''.husky/pre-push'',
              WriteFile ''.husky/commit-msg'', Chmod ''.husky/commit-msg'']"
    by (simp add: u4_def tl tu3 filesToCopy_def startsWith_def)
  have cu4: "console u4 = console u3 @
                [Out ''Copying configuration files...'',
                 Out ''.lintstagedrc.js already exists, skipping...'',
                 Out ''commitlint.config.js already exists, skipping...'',
                 Out ''.nvmrc already exists, skipping...'',
                 Out ''.vscode/settings.json already exists, skipping...'',
                 Out ''.vscode/extensions.json already exists, skipping...'',
                 Out ''Updated .husky/pre-commit'',
                 Out ''Updated .husky/pre-push'',
                 Out ''Updated .husky/commit-msg'',
                 Out ''Configuration files copied'']"
    by (simp add: u4_def cl filesToCopy_def startsWith_def)
  \<comment> \<open>the manifest patch and the summary\<close>
  from root fu4 have root4: "files u4 packageJsonPath = Some (File (Json (JObj kvs)) m)"
    by (simp add: packageJsonPath_def)
  define u5 where "u5 = say ''package.json updated''
                          (sayAll out' (say ''Updating package.json...'' u4))"
  have t5: "updatePackageJson u4 = Inr u5"
    using updatePackageJson_result [OF root4 patch] by (simp add: u5_def)
  have fu5: "files u5 = files w1" and tu5: "trace u5 = trace u4"
    by (simp_all add: u5_def fu4)
  obtain u6 where t6: "showSuccess u5 = Inr u6"
    by (simp add: showSuccess_def)
  from showSuccess_ok [OF t6] have fu6: "files u6 = files w1" and tu6: "trace u6 = trace u4"
    by (simp_all add: fu5 tu5)
  have r: "run e w1 = (0, u6)"
    by (simp add: run_def allSteps_def remainingSteps_def andThen_def catchAndExit_def
          t1 t2 t3 t4 t5 t6)
  \<comment> \<open>the console: what was printed before and after the materialization\<close>
  from initializeHusky_result [of e u2] t3 obtain l3 where cu3: "console u3 = console u2 @ l3"
    by auto
  have cu5: "console u5 = console u4 @ (Out ''Updating package.json...'' # map Out out' @
               [Out ''package.json updated''])"
    by (simp add: u5_def)
  from t6 obtain l6 where cu6: "console u6 = console u5 @ l6"
    by (auto simp add: showSuccess_def)
  have c: "\<exists>before after.
            console u6 =
              console w1 @ before @
                [Out ''Copying configuration files...'',
                 Out ''.lintstagedrc.js already exists, skipping...'',
                 Out ''commitlint.config.js already exists, skipping...'',
                 Out ''.nvmrc already exists, skipping...'',
                 Out ''.vscode/settings.json already exists, skipping...'',
                 Out ''.vscode/extensions.json already exists, skipping...'',
                 Out ''Updated .husky/pre-commit'',
                 Out ''Updated .husky/pre-push'',
                 Out ''Updated .husky/commit-msg'',
                 Out ''Configuration files copied''] @ after"
    unfolding cu6 cu5 cu4 cu3 cu2 cu1
    by (intro exI [of _ "[Out ''Setting up development workflow configuration...'',
             Out ''Checking prerequisites...'', Out ''Prerequisites check passed'',
             Out ''Installing development dependencies...'',
             Out ''Dependencies installed''] @ l3"]
          exI [of _ "(Out ''Updating package.json...'' # map Out out' @
               [Out ''package.json updated'']) @ l6"]) simp
  from r fu6 tu6 tu4 c show ?thesis
    by simp
qed

text \<open>
  Two runs on the fresh example project with the realistic delegated commands: in the
  second run the hooks manager puts its own \<^verbatim>\<open>pre-commit\<close> hook back, and the tool replaces
  it with the template once more.
\<close>

theorem second_run_changes_nothing_witness:
  "run realisticEnv freshProject = (0, snd (run realisticEnv freshProject)) \<and>
   git_probe realisticEnv (files (snd (run realisticEnv freshProject))) \<and>
   fst (exec realisticEnv (installCmd (snd (run realisticEnv freshProject)))
          (files (snd (run realisticEnv freshProject)))) = ExecOk \<and>
   afterDelegated realisticEnv (snd (run realisticEnv freshProject)) =
     (files (snd (run realisticEnv freshProject)))
       (''.husky/pre-commit'' \<mapsto> File (Text ''npm test'') 420) \<and>
   hookDestinations = [''.husky/pre-commit'', ''.husky/pre-push'', ''.husky/commit-msg''] \<and>
   files (snd (run realisticEnv freshProject)) ''package.json'' =
     Some (File (Json (JObj
       [(''name'', JStr ''x''),
        (''devDependencies'', JObj [(''husky'', JStr ''^9.1.7'')]),
        (''scripts'', JObj [(''prepare'', JStr ''husky''), (''commit'', JStr ''cz'')]),
        (''config'', JObj [(''commitizen'', JObj [(''path'', JStr ''cz-conventional-changelog'')])]),
        (''type'', JStr ''module'')])) 420) \<and>
   files (snd (run realisticEnv freshProject)) ''.husky/pre-commit'' =
     Some (File (Text ''pre-commit'') 493) \<and>
   fst (run realisticEnv (snd (run realisticEnv freshProject))) = 0 \<and>
   files (snd (run realisticEnv (snd (run realisticEnv freshProject)))) =
     files (snd (run realisticEnv freshProject)) \<and>
   trace (snd (run realisticEnv (snd (run realisticEnv freshProject)))) =
     trace (snd (run realisticEnv freshProject)) @
       [Exec ''git rev-parse --git-dir'',
        Exec (installCmd (snd (run realisticEnv freshProject))),
        Exec ''npx husky init'',
        WriteFile ''.husky/pre-commit'', Chmod ''.husky/pre-commit'',
        WriteFile ''.husky/pre-push'', Chmod ''.husky/pre-push'',
        WriteFile ''.husky/commit-msg'', Chmod ''.husky/commit-msg'']"
proof -
  let ?w1 = "snd (run realisticEnv freshProject)"
  let ?kvs = "[(''name'', JStr ''x''),
        (''devDependencies'', JObj [(''husky'', JStr ''^9.1.7'')]),
        (''scripts'', JObj [(''prepare'', JStr ''husky''), (''commit'', JStr ''cz'')]),
        (''config'', JObj [(''commitizen'', JObj [(''path'', JStr ''cz-conventional-changelog'')])]),
        (''type'', JStr ''module'')]"
  note f = run_realistic_files
  have h1: "run realisticEnv freshProject = (0, ?w1)"
    using run_realistic_exit by (simp add: prod_eq_iff)
  have h2: "git_probe realisticEnv (files ?w1)"
    by (simp add: realisticEnv_def)
  have h3: "fst (exec realisticEnv (installCmd ?w1) (files ?w1)) = ExecOk"
    by (simp add: realisticEnv_def)
  have a: "afterDelegated realisticEnv ?w1 =
             (files ?w1)(''.husky/pre-commit'' \<mapsto> File (Text ''npm test'') 420)"
    using f by (rule afterDelegated_setUp)
  note hd = hookDestinations_list
  have h4: "\<forall>p. p \<notin> set hookDestinations \<longrightarrow> afterDelegated realisticEnv ?w1 p = files ?w1 p"
    unfolding a hd by simp
  have h5: "\<forall>p \<in> set hookDestinations. afterDelegated realisticEnv ?w1 p \<noteq> Some Dir"
    unfolding a hd f by (simp add: setUpTree_def)
  have h6: "files ?w1 ''package.json'' = Some (File (Json (JObj ?kvs)) 420)"
    unfolding f by (simp add: setUpTree_def)
  have h7: "map_of ?kvs ''scripts'' =
              Some (JObj [(''prepare'', JStr ''husky''), (''commit'', JStr ''cz'')])"
    by simp
  have pc: "files ?w1 ''.husky/pre-commit'' = Some (File (Text ''pre-commit'') 493)"
    unfolding f by (simp add: setUpTree_def)
  note concl = second_run_changes_nothing [OF h1 h2 h3 h4 h5 h6 h7]
  from concl have c1: "fst (run realisticEnv ?w1) = 0"
    by (rule conjunct1)
  from concl have c2: "files (snd (run realisticEnv ?w1)) = files ?w1"
    by (elim conjE)
  from concl have c3: "trace (snd (run realisticEnv ?w1)) =
     trace ?w1 @
       [Exec ''git rev-parse --git-dir'', Exec (installCmd ?w1), Exec ''npx husky init'',
        WriteFile ''.husky/pre-commit'', Chmod ''.husky/pre-commit'',
        WriteFile ''.husky/pre-push'', Chmod ''.husky/pre-push'',
        WriteFile ''.husky/commit-msg'', Chmod ''.husky/commit-msg'']"
    by (elim conjE)
  from h1 h2 h3 a hd h6 pc c1 c2 c3 show ?thesis
    by (intro conjI)
qed

end
